(* ===== verification/Prelude.thy ===== *)
theory Prelude
  imports Main
begin

text \<open>
  The vocabulary every other theory of the development shares: the named collections of
  rewrite rules, the state-passing actions in which the stateful parts of the library are
  written (a Go call either returns or panics, and in both cases leaves a new state), and the
  64-bit arithmetic of Go's \<open>int\<close>, \<open>int64\<close> and \<open>time.Duration\<close>.
\<close>

section \<open>Collections of rules\<close>

named_theorems act_simps
  \<open>unfolding of the action combinators on an explicit state\<close>

named_theorems trace_simps
  \<open>what a step of the library leaves in the trace of its calls\<close>

named_theorems frame_simps
  \<open>the parts of the state a step leaves alone\<close>

section \<open>Actions: Go calls as state transformers that return or panic\<close>

datatype 'a outcome = Ret 'a | Panic string

type_synonym ('w, 'a) act = "'w \<Rightarrow> 'a outcome \<times> 'w"

definition ret :: "'a \<Rightarrow> ('w, 'a) act" where
  "ret x = (\<lambda>w. (Ret x, w))"

definition panic :: "string \<Rightarrow> ('w, 'a) act" where
  "panic p = (\<lambda>w. (Panic p, w))"

definition andThen :: "('w, 'a) act \<Rightarrow> ('a \<Rightarrow> ('w, 'b) act) \<Rightarrow> ('w, 'b) act" where
  "andThen m f =
     (\<lambda>w. case m w of (Ret x, w') \<Rightarrow> f x w' | (Panic p, w') \<Rightarrow> (Panic p, w'))"

text \<open>
  \<open>recovering m h\<close> is a function literal whose deferred \<open>recover()\<close> hands the panic value to
  \<open>h\<close>; \<open>deferring m d\<close> runs the deferred call \<open>d\<close> on both exits of \<open>m\<close>, a panic of \<open>d\<close>
  replacing what \<open>m\<close> was about to deliver.
\<close>

definition recovering :: "('w, 'a) act \<Rightarrow> (string \<Rightarrow> ('w, 'a) act) \<Rightarrow> ('w, 'a) act" where
  "recovering m h =
     (\<lambda>w. case m w of (Ret x, w') \<Rightarrow> (Ret x, w') | (Panic p, w') \<Rightarrow> h p w')"

definition deferring :: "('w, 'a) act \<Rightarrow> ('a outcome \<Rightarrow> ('w, unit) act) \<Rightarrow> ('w, 'a) act" where
  "deferring m d =
     (\<lambda>w. case m w of (x, w') \<Rightarrow>
        (case d x w' of (Ret _, w'') \<Rightarrow> (x, w'') | (Panic p, w'') \<Rightarrow> (Panic p, w'')))"

definition reading :: "('w \<Rightarrow> 'a) \<Rightarrow> ('w, 'a) act" where
  "reading f = (\<lambda>w. (Ret (f w), w))"

definition changing :: "('w \<Rightarrow> 'w) \<Rightarrow> ('w, unit) act" where
  "changing f = (\<lambda>w. (Ret (), f w))"

definition only_when :: "bool \<Rightarrow> ('w, unit) act \<Rightarrow> ('w, unit) act" where
  "only_when b m = (if b then m else ret ())"

primrec for_each :: "('a \<Rightarrow> ('w, unit) act) \<Rightarrow> 'a list \<Rightarrow> ('w, unit) act" where
  "for_each f [] = ret ()"
| "for_each f (x # xs) = andThen (f x) (\<lambda>_. for_each f xs)"

lemma ret_app [act_simps]: "ret x w = (Ret x, w)"
  by (simp add: ret_def)

lemma panic_app [act_simps]: "panic p w = (Panic p, w)"
  by (simp add: panic_def)

lemma reading_app [act_simps]: "reading f w = (Ret (f w), w)"
  by (simp add: reading_def)

lemma changing_app [act_simps]: "changing f w = (Ret (), f w)"
  by (simp add: changing_def)

lemma andThen_app [act_simps]:
  "andThen m f w = (case m w of (Ret x, w') \<Rightarrow> f x w' | (Panic p, w') \<Rightarrow> (Panic p, w'))"
  by (simp add: andThen_def)

lemma recovering_app [act_simps]:
  "recovering m h w = (case m w of (Ret x, w') \<Rightarrow> (Ret x, w') | (Panic p, w') \<Rightarrow> h p w')"
  by (simp add: recovering_def)

lemma deferring_app [act_simps]:
  "deferring m d w = (case m w of (x, w') \<Rightarrow>
     (case d x w' of (Ret _, w'') \<Rightarrow> (x, w'') | (Panic p, w'') \<Rightarrow> (Panic p, w'')))"
  by (simp add: deferring_def)

lemma andThen_ret [simp]: "andThen (ret x) f = f x"
  by (rule ext) (simp add: act_simps)

lemma andThen_assoc: "andThen (andThen m f) g = andThen m (\<lambda>x. andThen (f x) g)"
  by (rule ext) (simp add: act_simps split: prod.splits outcome.splits)

lemma only_when_simps [simp]:
  "only_when True m = m" "only_when False m = ret ()"
  by (simp_all add: only_when_def)

section \<open>64-bit integers\<close>

text \<open>Go's \<open>int\<close> (on the 64-bit platforms the library is built for), \<open>int64\<close> and
  \<open>time.Duration\<close> are two's-complement 64-bit values; they are \<open>int\<close>s here and every
  operation that can leave the range is wrapped.\<close>

definition wrap64 :: "int \<Rightarrow> int" where
  "wrap64 x = (x + 2 ^ 63) mod 2 ^ 64 - 2 ^ 63"

definition in64 :: "int \<Rightarrow> bool" where
  "in64 x \<longleftrightarrow> - (2 ^ 63) \<le> x \<and> x < 2 ^ 63"

definition maxInt32 :: int where
  "maxInt32 = 2 ^ 31 - 1"

lemma wrap64_id [simp]: "in64 x \<Longrightarrow> wrap64 x = x"
  by (simp add: wrap64_def in64_def)

lemma wrap64_in64: "in64 (wrap64 x)"
proof -
  have "0 \<le> (x + 2 ^ 63) mod 2 ^ 64" and "(x + 2 ^ 63) mod 2 ^ 64 < (2 ^ 64 :: int)"
    by (rule pos_mod_sign, simp, rule pos_mod_bound, simp)
  then show ?thesis by (simp add: wrap64_def in64_def)
qed

text \<open>Durations, in nanoseconds as in \<open>time.Duration\<close>.\<close>

abbreviation Millisecond :: int where "Millisecond \<equiv> 1000000"
abbreviation Second :: int where "Second \<equiv> 1000000000"
abbreviation Minute :: int where "Minute \<equiv> 60000000000"
abbreviation Hour :: int where "Hour \<equiv> 3600000000000"

end
