(* ===== verification/Go_Errors.thy ===== *)
theory Go_Errors
  imports Prelude
begin

text \<open>
  Go's error values and the functions of package \<open>errors\<close> the library uses. An error is a tree:
  package-level sentinels, PostgreSQL server errors (\<open>*pgconn.PgError\<close>, by SQLSTATE and
  message), plain messages, \<open>fmt.Errorf\<close> wrappers around one error (\<open>%w\<close>) and
  \<open>errors.Join\<close> nodes. A nil error is \<open>None\<close>.
\<close>

datatype gerr =
    Sentinel string
  | PgError (pgCode: string) (pgMessage: string)
  | Msg string
  | Wrapf string gerr string
  | Joined "gerr list"

text \<open>\<open>context.Canceled\<close>, \<open>context.DeadlineExceeded\<close> and \<open>pgx.ErrNoRows\<close>.\<close>

definition Canceled :: gerr where
  "Canceled = Sentinel ''context canceled''"

definition DeadlineExceeded :: gerr where
  "DeadlineExceeded = Sentinel ''context deadline exceeded''"

definition ErrNoRows :: gerr where
  "ErrNoRows = Sentinel ''no rows in result set''"

text \<open>\<open>errors.Is(err, target)\<close> for a sentinel target: equality with the error itself or with
  one found by unwrapping, through both forms of \<open>Unwrap\<close>.\<close>

fun errIs :: "gerr \<Rightarrow> gerr \<Rightarrow> bool" where
  "errIs (Wrapf a e b) t = (Wrapf a e b = t \<or> errIs e t)"
| "errIs (Joined es) t = (Joined es = t \<or> list_ex (\<lambda>e. errIs e t) es)"
| "errIs e t = (e = t)"

text \<open>\<open>errors.As(err, &pgErr)\<close>: the SQLSTATE of the first PostgreSQL error found by a depth-first
  walk.\<close>

fun asPgError :: "gerr \<Rightarrow> string option"
  and asPgErrors :: "gerr list \<Rightarrow> string option" where
  "asPgError (PgError c m) = Some c"
| "asPgError (Wrapf a e b) = asPgError e"
| "asPgError (Joined es) = asPgErrors es"
| "asPgError (Sentinel s) = None"
| "asPgError (Msg s) = None"
| "asPgErrors [] = None"
| "asPgErrors (e # es) = (case asPgError e of Some c \<Rightarrow> Some c | None \<Rightarrow> asPgErrors es)"

text \<open>\<open>err.Error()\<close>.\<close>

fun errText :: "gerr \<Rightarrow> string" where
  "errText (Sentinel s) = s"
| "errText (PgError c m) = ''ERROR: '' @ m @ '' (SQLSTATE '' @ c @ '')''"
| "errText (Msg s) = s"
| "errText (Wrapf a e b) = a @ errText e @ b"
| "errText (Joined es) =
     concat (case map errText es of [] \<Rightarrow> [] | t # ts \<Rightarrow> t # map (\<lambda>x. CHR 0x0A # x) ts)"

abbreviation wrapE :: "string \<Rightarrow> gerr \<Rightarrow> gerr" where
  "wrapE p e \<equiv> Wrapf p e []"

lemma errIs_refl [simp]: "errIs e e"
  by (cases e) simp_all

lemma errIs_Wrapf [simp]: "errIs e t \<Longrightarrow> errIs (Wrapf a e b) t"
  by simp

lemma errIs_Joined: "e \<in> set es \<Longrightarrow> errIs e t \<Longrightarrow> errIs (Joined es) t"
  by (auto simp: list_ex_iff)

lemma sentinels_distinct [simp]:
  "Canceled \<noteq> DeadlineExceeded" "DeadlineExceeded \<noteq> Canceled"
  "ErrNoRows \<noteq> Canceled" "Canceled \<noteq> ErrNoRows"
  "ErrNoRows \<noteq> DeadlineExceeded" "DeadlineExceeded \<noteq> ErrNoRows"
  by (simp_all add: Canceled_def DeadlineExceeded_def ErrNoRows_def)

lemma errIs_leaf [simp]:
  "errIs Canceled t \<longleftrightarrow> Canceled = t"
  "errIs DeadlineExceeded t \<longleftrightarrow> DeadlineExceeded = t"
  "errIs ErrNoRows t \<longleftrightarrow> ErrNoRows = t"
  by (simp_all add: Canceled_def DeadlineExceeded_def ErrNoRows_def)

end
