(* ===== verification/Go_Strings.thy ===== *)
theory Go_Strings
  imports Prelude
begin

text \<open>
  The parts of Go's \<open>strings\<close>, \<open>strconv\<close> and \<open>unicode\<close> packages that the library calls, over
  byte strings. A Go string is a byte sequence, so it is a \<open>string\<close> here, one \<open>char\<close> per
  byte; runes outside ASCII appear as their UTF-8 bytes.
\<close>

section \<open>Bytes\<close>

abbreviation byte :: "char \<Rightarrow> nat" where "byte c \<equiv> of_char c"

definition isDigit :: "char \<Rightarrow> bool" where
  "isDigit c \<longleftrightarrow> 48 \<le> byte c \<and> byte c \<le> 57"

definition isUpperA :: "char \<Rightarrow> bool" where
  "isUpperA c \<longleftrightarrow> 65 \<le> byte c \<and> byte c \<le> 90"

definition isLowerA :: "char \<Rightarrow> bool" where
  "isLowerA c \<longleftrightarrow> 97 \<le> byte c \<and> byte c \<le> 122"

definition isAlphaA :: "char \<Rightarrow> bool" where
  "isAlphaA c \<longleftrightarrow> isUpperA c \<or> isLowerA c"

definition isWord :: "char \<Rightarrow> bool" where
  "isWord c \<longleftrightarrow> isAlphaA c \<or> isDigit c \<or> c = CHR ''_''"

definition toLowerA :: "char \<Rightarrow> char" where
  "toLowerA c = (if isUpperA c then char_of (byte c + 32) else c)"

definition toUpperA :: "char \<Rightarrow> char" where
  "toUpperA c = (if isLowerA c then char_of (byte c - 32) else c)"

abbreviation dquote :: char where "dquote \<equiv> CHR 0x22"
abbreviation newline :: char where "newline \<equiv> CHR 0x0A"

section \<open>Package strings\<close>

definition HasPrefix :: "string \<Rightarrow> string \<Rightarrow> bool" where
  "HasPrefix s p \<longleftrightarrow> take (length p) s = p"

text \<open>\<open>Index s sub\<close> is the first position of \<open>sub\<close> in \<open>s\<close>; \<open>None\<close> stands for \<open>-1\<close>.\<close>

fun Index :: "string \<Rightarrow> string \<Rightarrow> nat option" where
  "Index [] sub = (if sub = [] then Some 0 else None)"
| "Index (c # s) sub =
     (if HasPrefix (c # s) sub then Some 0 else map_option Suc (Index s sub))"

definition Contains :: "string \<Rightarrow> string \<Rightarrow> bool" where
  "Contains s sub \<longleftrightarrow> Index s sub \<noteq> None"

definition ContainsAny :: "string \<Rightarrow> string \<Rightarrow> bool" where
  "ContainsAny s cs \<longleftrightarrow> list_ex (\<lambda>c. c \<in> set cs) s"

fun Join :: "string list \<Rightarrow> string \<Rightarrow> string" where
  "Join [] sep = []"
| "Join [x] sep = x"
| "Join (x # y # xs) sep = x @ sep @ Join (y # xs) sep"

text \<open>The first component of \<open>strings.Cut(s, sep)\<close> for a one-byte separator.\<close>

definition cutBefore :: "string \<Rightarrow> char \<Rightarrow> string" where
  "cutBefore s sep = takeWhile (\<lambda>c. c \<noteq> sep) s"

text \<open>
  \<open>strings.TrimSpace\<close> removes the leading and trailing runes with \<open>unicode.IsSpace\<close>; below are
  their UTF-8 encodings. \<open>utf8.DecodeLastRune\<close> walks back to a start byte, so a trailing space
  is recognised exactly when its encoding is a suffix.
\<close>

definition spaceEncodings :: "string list" where
  "spaceEncodings =
     [[CHR 0x09], [CHR 0x0A], [CHR 0x0B], [CHR 0x0C], [CHR 0x0D], [CHR 0x20],
      [CHR 0xC2, CHR 0x85], [CHR 0xC2, CHR 0xA0], [CHR 0xE1, CHR 0x9A, CHR 0x80]]
     @ map (\<lambda>n. [CHR 0xE2, CHR 0x80, char_of n]) [128..<139]
     @ [[CHR 0xE2, CHR 0x80, CHR 0xA8], [CHR 0xE2, CHR 0x80, CHR 0xA9],
        [CHR 0xE2, CHR 0x80, CHR 0xAF], [CHR 0xE2, CHR 0x81, CHR 0x9F],
        [CHR 0xE3, CHR 0x80, CHR 0x80]]"

function stripFront :: "string list \<Rightarrow> string \<Rightarrow> string" where
  "stripFront encs s =
     (case find (\<lambda>e. e \<noteq> [] \<and> HasPrefix s e) encs of
        None \<Rightarrow> s
      | Some e \<Rightarrow> stripFront encs (drop (length e) s))"
  by pat_completeness auto
termination
proof (relation "measure (\<lambda>(encs, s). length s)", goal_cases)
  case 1
  show ?case by simp
next
  case (2 encs s e)
  then have "e \<noteq> []" and "HasPrefix s e"
    by (auto simp: find_Some_iff)
  then have "s \<noteq> []" and "0 < length e"
    by (auto simp: HasPrefix_def)
  then show ?case by simp
qed

declare stripFront.simps [simp del]

definition TrimSpace :: "string \<Rightarrow> string" where
  "TrimSpace s =
     rev (stripFront (map rev spaceEncodings) (rev (stripFront spaceEncodings s)))"

text \<open>
  \<open>strings.ToLower\<close> and \<open>strings.ToUpper\<close>. Beside the ASCII letters the four non-ASCII letters
  whose case mapping is an ASCII letter are mapped (the dotted capital I and the Kelvin sign to
  lower case, the dotless i and the long s to upper case); the case of other non-ASCII letters
  is left alone, which no caller can tell: they compare the result with ASCII literals.
\<close>

fun ToLower :: "string \<Rightarrow> string" where
  "ToLower [] = []"
| "ToLower (c # s) =
     (if HasPrefix (c # s) [CHR 0xC4, CHR 0xB0] then CHR ''i'' # ToLower (drop 1 s)
      else if HasPrefix (c # s) [CHR 0xE2, CHR 0x84, CHR 0xAA] then CHR ''k'' # ToLower (drop 2 s)
      else toLowerA c # ToLower s)"

fun ToUpper :: "string \<Rightarrow> string" where
  "ToUpper [] = []"
| "ToUpper (c # s) =
     (if HasPrefix (c # s) [CHR 0xC4, CHR 0xB1] then CHR ''I'' # ToUpper (drop 1 s)
      else if HasPrefix (c # s) [CHR 0xC5, CHR 0xBF] then CHR ''S'' # ToUpper (drop 1 s)
      else toUpperA c # ToUpper s)"

section \<open>Package strconv\<close>

fun natDigits :: "nat \<Rightarrow> string" where
  "natDigits n =
     (if n < 10 then [char_of (48 + n)] else natDigits (n div 10) @ [char_of (48 + n mod 10)])"

declare natDigits.simps [simp del]

definition Itoa :: "int \<Rightarrow> string" where
  "Itoa i = (if i < 0 then CHR ''-'' # natDigits (nat (- i)) else natDigits (nat i))"

fun digitsVal :: "string \<Rightarrow> nat \<Rightarrow> nat" where
  "digitsVal [] acc = acc"
| "digitsVal (c # s) acc = digitsVal s (10 * acc + (byte c - 48))"

text \<open>\<open>Atoi\<close>: an optional sign and one or more decimal digits; \<open>None\<close> is a syntax or a range error.\<close>

definition Atoi :: "string \<Rightarrow> int option" where
  "Atoi s =
     (let neg = (s \<noteq> [] \<and> hd s = CHR ''-'');
          ds = (if s \<noteq> [] \<and> (hd s = CHR ''-'' \<or> hd s = CHR ''+'') then tl s else s)
      in if ds = [] \<or> \<not> list_all isDigit ds then None
         else let v = (if neg then - int (digitsVal ds 0) else int (digitsVal ds 0))
              in if in64 v then Some v else None)"

text \<open>\<open>strconv.FormatBool\<close> and \<open>strconv.ParseBool\<close>.\<close>

definition FormatBool :: "bool \<Rightarrow> string" where
  "FormatBool b = (if b then ''true'' else ''false'')"

definition ParseBool :: "string \<Rightarrow> bool option" where
  "ParseBool s =
     (if s \<in> {''1'', ''t'', ''T'', ''true'', ''TRUE'', ''True''} then Some True
      else if s \<in> {''0'', ''f'', ''F'', ''false'', ''FALSE'', ''False''} then Some False
      else None)"

text \<open>
  \<open>strconv.Quote\<close>, also the \<open>%q\<close> verb on strings. Bytes from 0x80 on are kept: they are
  printable runes in the names and clauses the library quotes.
\<close>

definition hexDigit :: "nat \<Rightarrow> char" where
  "hexDigit n = (if n < 10 then char_of (48 + n) else char_of (87 + n))"

definition quoteByte :: "char \<Rightarrow> string" where
  "quoteByte c =
     (if c = dquote then [CHR 0x5C, dquote]
      else if c = CHR 0x5C then [CHR 0x5C, CHR 0x5C]
      else if c = CHR 0x07 then [CHR 0x5C, CHR ''a'']
      else if c = CHR 0x08 then [CHR 0x5C, CHR ''b'']
      else if c = CHR 0x0C then [CHR 0x5C, CHR ''f'']
      else if c = newline then [CHR 0x5C, CHR ''n'']
      else if c = CHR 0x0D then [CHR 0x5C, CHR ''r'']
      else if c = CHR 0x09 then [CHR 0x5C, CHR ''t'']
      else if c = CHR 0x0B then [CHR 0x5C, CHR ''v'']
      else if byte c < 32 \<or> byte c = 127
        then [CHR 0x5C, CHR ''x'', hexDigit (byte c div 16), hexDigit (byte c mod 16)]
      else [c])"

definition Quote :: "string \<Rightarrow> string" where
  "Quote s = dquote # concat (map quoteByte s) @ [dquote]"

section \<open>Facts about the string functions\<close>

lemma HasPrefix_Nil [simp]: "HasPrefix s []"
  by (simp add: HasPrefix_def)

lemma HasPrefix_Cons [simp]:
  "HasPrefix (c # s) (d # p) \<longleftrightarrow> c = d \<and> HasPrefix s p" "\<not> HasPrefix [] (d # p)"
  by (auto simp: HasPrefix_def)

lemma HasPrefix_iff: "HasPrefix s p \<longleftrightarrow> (\<exists>t. s = p @ t)"
  by (metis HasPrefix_def append_eq_conv_conj)

lemma Index_Some_iff:
  "Index s sub = Some i \<Longrightarrow> \<exists>a b. s = a @ sub @ b \<and> length a = i"
proof (induction s arbitrary: i)
  case Nil
  then show ?case by (auto split: if_splits)
next
  case (Cons c s)
  show ?case
  proof (cases "HasPrefix (c # s) sub")
    case True
    with Cons.prems have "i = 0" by simp
    moreover from True obtain t where "c # s = sub @ t"
      by (auto simp: HasPrefix_iff)
    ultimately show ?thesis
      by (intro exI [of _ "[]"] exI [of _ t]) simp
  next
    case False
    with Cons.prems obtain j where j: "Index s sub = Some j" and i: "i = Suc j"
      by auto
    from Cons.IH [OF j] obtain a b where "s = a @ sub @ b" and "length a = j"
      by blast
    with i show ?thesis
      by (intro exI [of _ "c # a"] exI [of _ b]) simp
  qed
qed

lemma Index_bound: "Index s sub = Some i \<Longrightarrow> i + length sub \<le> length s"
  by (drule Index_Some_iff) auto

lemma Contains_iff: "Contains s sub \<longleftrightarrow> (\<exists>a b. s = a @ sub @ b)"
proof
  assume "Contains s sub"
  then show "\<exists>a b. s = a @ sub @ b"
    by (auto simp: Contains_def) (metis Index_Some_iff)
next
  assume "\<exists>a b. s = a @ sub @ b"
  then obtain a b where "s = a @ sub @ b" by blast
  then have "Index s sub \<noteq> None"
  proof (induction a arbitrary: s)
    case Nil
    then have "HasPrefix s sub" by (auto simp: HasPrefix_iff)
    then show ?case by (cases s; cases sub) auto
  next
    case (Cons c a)
    then show ?case by auto
  qed
  then show "Contains s sub" by (simp add: Contains_def)
qed

lemma natDigits_isDigit: "list_all isDigit (natDigits n)"
proof (induction n rule: natDigits.induct)
  case (1 n)
  have "isDigit (char_of (48 + m))" if "m < 10" for m :: nat
    using that by (simp add: isDigit_def)
  then show ?case
    using 1 by (subst natDigits.simps) simp
qed

lemma natDigits_not_Nil [simp]: "natDigits n \<noteq> []"
  by (subst natDigits.simps) simp

lemma digitsVal_append: "digitsVal (s @ t) acc = digitsVal t (digitsVal s acc)"
  by (induction s arbitrary: acc) auto

lemma digitsVal_natDigits: "digitsVal (natDigits n) 0 = n"
proof (induction n rule: natDigits.induct)
  case (1 n)
  show ?case
  proof (cases "n < 10")
    case True
    then show ?thesis by (subst natDigits.simps) simp
  next
    case False
    with 1 have "digitsVal (natDigits (n div 10)) 0 = n div 10" by simp
    with False show ?thesis
      by (subst natDigits.simps) (simp add: digitsVal_append)
  qed
qed

lemma hd_natDigits: "isDigit (hd (natDigits n))"
  using natDigits_isDigit [of n] by (cases "natDigits n") auto

lemma Atoi_Itoa: "in64 i \<Longrightarrow> Atoi (Itoa i) = Some i"
proof -
  assume i: "in64 i"
  have h: "hd (natDigits m) \<noteq> CHR ''-'' \<and> hd (natDigits m) \<noteq> CHR ''+''" for m
    using hd_natDigits [of m] by (auto simp: isDigit_def)
  show ?thesis
    using i h [of "nat i"]
    by (simp add: Atoi_def Itoa_def Let_def natDigits_isDigit digitsVal_natDigits)
qed

lemma ParseBool_FormatBool [simp]: "ParseBool (FormatBool b) = Some b"
  by (simp add: ParseBool_def FormatBool_def)

lemma stripFront_no_prefix:
  "e \<in> set encs \<Longrightarrow> e \<noteq> [] \<Longrightarrow> \<not> HasPrefix (stripFront encs s) e"
proof (induction encs s rule: stripFront.induct)
  case (1 encs s)
  show ?case
  proof (cases "find (\<lambda>e. e \<noteq> [] \<and> HasPrefix s e) encs")
    case None
    then have "stripFront encs s = s" by (subst stripFront.simps) simp
    with None "1.prems" show ?thesis by (auto simp: find_None_iff)
  next
    case (Some e')
    with 1 show ?thesis by (subst stripFront.simps) simp
  qed
qed

lemma length_stripFront: "length (stripFront encs s) \<le> length s"
proof (induction encs s rule: stripFront.induct)
  case (1 encs s)
  show ?case
  proof (cases "find (\<lambda>e. e \<noteq> [] \<and> HasPrefix s e) encs")
    case None
    then show ?thesis by (subst stripFront.simps) simp
  next
    case (Some e')
    with 1 [OF Some] show ?thesis by (subst stripFront.simps) simp
  qed
qed

lemma length_TrimSpace: "length (TrimSpace s) \<le> length s"
  using length_stripFront [of "map rev spaceEncodings" "rev (stripFront spaceEncodings s)"]
    length_stripFront [of spaceEncodings s]
  by (simp add: TrimSpace_def)

end
