(* ===== verification/World.thy ===== *)
theory World
  imports Go_Errors Go_Strings
begin

text \<open>
  The data the components share: contexts and clock of the process, the driver interfaces the
  library is written against (\<open>runner\<close> and the capabilities it asserts on it), options, hook
  registries and metrics collectors behind their pointers, and the world record that threads all
  mutable state through the operations. What PostgreSQL and pgx do is not modelled: driver calls
  are functions stored in the \<open>runner\<close> values, and they act on the outside environment only.
\<close>

section \<open>Clock and contexts\<close>

text \<open>
  The environment outside the library: the clock in nanoseconds; for every context a caller
  created, when and with which error it is done (\<open>None\<close> for never); which ready case the
  runtime's \<open>select\<close> takes when a timer and a done context are both ready; and the state of
  the driver and the server.
\<close>

record 'd env =
  clock :: int
  cancel_at :: "nat \<Rightarrow> (int \<times> gerr) option"
  tie_done :: bool
  drv :: 'd

datatype ctx =
    Background
  | Caller nat
  | WithDeadline ctx int
  | WithCancelAt ctx int
  | WithoutCancel ctx
  | WithSpan ctx string

text \<open>
  When a context is done, and its error from then on (\<open>ctx.Err()\<close>). \<open>WithDeadline\<close> is the context of
  \<open>context.WithTimeout\<close>; \<open>WithCancelAt\<close> one whose cancel function a timer will call.
\<close>

fun done_at :: "'d env \<Rightarrow> ctx \<Rightarrow> (int \<times> gerr) option" where
  "done_at s Background = None"
| "done_at s (Caller n) = cancel_at s n"
| "done_at s (WithDeadline c t) =
     (case done_at s c of
        Some (u, e) \<Rightarrow> if u \<le> t then Some (u, e) else Some (t, DeadlineExceeded)
      | None \<Rightarrow> Some (t, DeadlineExceeded))"
| "done_at s (WithCancelAt c t) =
     (case done_at s c of
        Some (u, e) \<Rightarrow> if u \<le> t then Some (u, e) else Some (t, Canceled)
      | None \<Rightarrow> Some (t, Canceled))"
| "done_at s (WithoutCancel c) = None"
| "done_at s (WithSpan c n) = done_at s c"

definition ctxErr :: "'d env \<Rightarrow> ctx \<Rightarrow> gerr option" where
  "ctxErr s c =
     (case done_at s c of Some (t, e) \<Rightarrow> if t \<le> clock s then Some e else None | None \<Rightarrow> None)"

section \<open>The driver interface\<close>

text \<open>Argument and column values (\<open>any\<close>).\<close>

datatype gval = GInt int | GStr string | GBool bool | GNil | GOpaque nat

text \<open>A driver call: it returns and changes the environment.\<close>

type_synonym ('d, 'a) drvcall = "'d env \<Rightarrow> 'a \<times> 'd env"

text \<open>\<open>pgx.Tx\<close> beyond the runner surface.\<close>

record 'd txOps =
  txCommit :: "ctx \<Rightarrow> ('d, gerr option) drvcall"
  txRollback :: "ctx \<Rightarrow> ('d, gerr option) drvcall"

text \<open>\<open>pgx.BatchResults\<close>, and what the driver does when the context of the batch is canceled.\<close>

record 'd batchRes =
  brCancelled :: "'d env \<Rightarrow> 'd env"
  brExec :: "('d, int \<times> gerr option) drvcall"
  brQueryRowScan :: "('d, gval list \<times> gerr option) drvcall"
  brClose :: "('d, gerr option) drvcall"

text \<open>
  The \<open>runner\<close> interface with, as options, the capabilities found by type assertions:
  \<open>pgx.Tx\<close>, \<open>txLevelBeginner\<close>, \<open>batchSender\<close>, \<open>bulkCopier\<close>, \<open>notificationWaiter\<close> and
  \<open>rawConnProvider\<close> (the waiter of the inner connection). Rows and row handles are numbers the
  driver interprets. The number \<open>runner_id\<close> tells runners apart in the trace. A \<open>pgx.Tx\<close> that a
  begin call delivers is a runner together with its transaction control.
\<close>

datatype 'd runner = Runner
  (runner_id: nat)
  (rExec: "ctx \<Rightarrow> string \<Rightarrow> gval list \<Rightarrow> ('d, int \<times> gerr option) drvcall")
  (rQuery: "ctx \<Rightarrow> string \<Rightarrow> gval list \<Rightarrow> ('d, nat \<times> gerr option) drvcall")
  (rQueryRow: "ctx \<Rightarrow> string \<Rightarrow> gval list \<Rightarrow> ('d, nat) drvcall")
  (asTx: "'d txOps option")
  (asBeginTx: "(ctx \<Rightarrow> string \<Rightarrow> 'd env \<Rightarrow> (gerr + 'd runner \<times> 'd txOps) \<times> 'd env) option")
  (asBatch: "(ctx \<Rightarrow> (string \<times> gval list) list \<Rightarrow> ('d, 'd batchRes) drvcall) option")
  (asCopier: "(ctx \<Rightarrow> string \<Rightarrow> string list \<Rightarrow> gval list list \<Rightarrow> ('d, int \<times> gerr option) drvcall) option")
  (asWaiter: "(ctx \<Rightarrow> ('d, string option \<times> gerr option) drvcall) option")
  (asRawConn: "(ctx \<Rightarrow> ('d, string option \<times> gerr option) drvcall) option")

section \<open>Hooks, registries and collectors\<close>

text \<open>hooks.go: the four operation labels, \<open>rowsUnknown\<close> and \<open>QueryInfo\<close>.\<close>

definition OpQuery :: string where "OpQuery = ''query''"
definition OpQueryRow :: string where "OpQueryRow = ''query_row''"
definition OpScalar :: string where "OpScalar = ''scalar''"
definition OpExec :: string where "OpExec = ''exec''"

definition rowsUnknown :: int where "rowsUnknown = - 1"

record queryInfo =
  qiOp :: string
  qiSQL :: string
  qiArgs :: "gval list"
  qiDuration :: int
  qiErr :: "gerr option"
  qiRows :: int

text \<open>
  A hook of the caller: its two methods and, when it implements \<open>ContextQueryHook\<close> too, the two
  contextual ones. Hooks are code of the caller; they may panic and may change the environment.
\<close>

record 'd userHook =
  hookId :: nat
  BeforeHook :: "queryInfo \<Rightarrow> ('d env, unit) act"
  AfterHook :: "queryInfo \<Rightarrow> ('d env, unit) act"
  contextual :: "((ctx \<Rightarrow> queryInfo \<Rightarrow> ('d env, unit) act) \<times> (ctx \<Rightarrow> queryInfo \<Rightarrow> ('d env, unit) act)) option"

text \<open>An element of \<open>[]QueryHook\<close>: a caller's hook or a \<open>*MetricsCollector\<close>, by its address.\<close>

datatype 'd hook = UserHook "'d userHook" | MetricsHook nat

record 'd hookRegistry =
  hs :: "'d hook list"
  met :: "nat option"

text \<open>metrics.go: the counters, histogram observations and gauges of a \<open>MetricsCollector\<close>.\<close>

record collector =
  mcReg :: nat
  queriesTotal :: "string \<times> string \<Rightarrow> nat"
  queryDuration :: "(string \<times> int) list"
  poolAcquireTotal :: nat
  txTotal :: "string \<Rightarrow> nat"
  rollbackCompensations :: nat
  poolInUse :: int
  poolIdle :: int
  poolMax :: int
  pollInterval :: int

section \<open>Options, connections and the world\<close>

record 'd options =
  Host :: string
  Port :: int
  Database :: string
  Username :: string
  Password :: string
  PoolMinSize :: int
  PoolMaxSize :: int
  CommandTimeout :: int
  ConnectionTimeout :: int
  RetryEnabled :: bool
  RetryMaxCount :: int
  RetryBaseDelay :: int
  SlowQuery :: int
  QueryHooks :: "'d hook list"
  HideQueryArgs :: bool
  instrumentation :: "nat option"

text \<open>
  \<open>observability\<close>: whether its logger and its tracer are non-nil (both are after
  \<open>newObservability\<close>, neither in a zero value), and the telemetry client of \<open>conn.ops\<close>:
  what it does when a span starts and, with the error of the traced function, when it ends.
\<close>

record observability =
  obsLogger :: bool
  obsTracer :: bool

record 'd telemetry =
  spanStart :: "string \<Rightarrow> 'd env \<Rightarrow> 'd env"
  spanEnd :: "string \<Rightarrow> gerr option \<Rightarrow> ('d, gerr option) drvcall"

record 'd conn =
  connR :: "'d runner"
  connO :: "'d options"
  connCtx :: ctx
  connHooks :: "nat option"
  connOps :: "'d telemetry option"
  connObs :: observability

text \<open>
  What the library does that others can observe, in order: statements and transaction control
  sent to the driver, hook invocations, log lines, and counters of the telemetry.
\<close>

datatype phase = Before | After

datatype event =
    Call nat string ctx string "gval list"
  | TxControl nat string ctx
  | HookCall phase nat queryInfo
  | HookCtxCall phase nat ctx queryInfo
  | LogLine string
  | RetryCounted
  | TxObserved string
  | OpObserved string string
  | SpanLine string

text \<open>
  The world: the environment, the hook registries and the collectors by address (\<open>conn\<close> values
  are copied and share them by pointer), the next free address, and the trace of events, oldest
  first.
\<close>

record 'd world =
  env :: "'d env"
  regs :: "nat \<Rightarrow> 'd hookRegistry"
  mcs :: "nat \<Rightarrow> collector"
  fresh :: nat
  trace :: "event list"

definition emit :: "event \<Rightarrow> ('d world, unit) act" where
  "emit e = changing (\<lambda>w. w\<lparr>trace := trace w @ [e]\<rparr>)"

definition now :: "('d world, int) act" where
  "now = reading (\<lambda>w. clock (env w))"

definition since :: "int \<Rightarrow> ('d world, int) act" where
  "since start = reading (\<lambda>w. clock (env w) - start)"

text \<open>A driver call and a hook of the caller see the environment only.\<close>

definition driver :: "('d, 'a) drvcall \<Rightarrow> ('d world, 'a) act" where
  "driver f = (\<lambda>w. case f (env w) of (x, s) \<Rightarrow> (Ret x, w\<lparr>env := s\<rparr>))"

definition userCode :: "('d env, 'a) act \<Rightarrow> ('d world, 'a) act" where
  "userCode f = (\<lambda>w. case f (env w) of (x, s) \<Rightarrow> (x, w\<lparr>env := s\<rparr>))"

lemma emit_app [act_simps]: "emit e w = (Ret (), w\<lparr>trace := trace w @ [e]\<rparr>)"
  by (simp add: emit_def act_simps)

lemma now_app [act_simps]: "now w = (Ret (clock (env w)), w)"
  by (simp add: now_def act_simps)

lemma since_app [act_simps]: "since t w = (Ret (clock (env w) - t), w)"
  by (simp add: since_def act_simps)

lemma driver_app [act_simps]:
  "driver f w = (Ret (fst (f (env w))), w\<lparr>env := snd (f (env w))\<rparr>)"
  by (simp add: driver_def split: prod.splits)

lemma userCode_app [act_simps]:
  "userCode f w = (fst (f (env w)), w\<lparr>env := snd (f (env w))\<rparr>)"
  by (simp add: userCode_def split: prod.splits)

lemma ctxErr_Background [simp]: "ctxErr s Background = None"
  by (simp add: ctxErr_def)

lemma ctxErr_WithoutCancel [simp]: "ctxErr s (WithoutCancel c) = None"
  by (simp add: ctxErr_def)

lemma ctxErr_WithSpan [simp]: "ctxErr s (WithSpan c n) = ctxErr s c"
  by (simp add: ctxErr_def)

lemma ctxErr_WithDeadline:
  "ctxErr s (WithDeadline c t) = None \<longleftrightarrow> ctxErr s c = None \<and> clock s < t"
  by (auto simp: ctxErr_def split: option.splits if_splits)

end
