(* ===== verification/Hooks.thy ===== *)
theory Hooks
  imports World
begin

text \<open>
  hooks.go: the hook registry that \<open>DB\<close>, \<open>Conn\<close> and \<open>Tx\<close> share by pointer. The mutex makes
  every operation one atomic step, so each is a function of the registry; the wrappers with a
  pointer argument read and write the registry at that address of the world.
\<close>

section \<open>The registry\<close>

text \<open>\<open>newHookRegistry\<close> allocates, also for an empty list of hooks.\<close>

definition newHookRegistry :: "'d options \<Rightarrow> ('d world, nat) act" where
  "newHookRegistry o1 = (\<lambda>w.
     (Ret (fresh w),
      w\<lparr>regs := (regs w)(fresh w := \<lparr>hs = QueryHooks o1, met = None\<rparr>),
        fresh := Suc (fresh w)\<rparr>))"

definition hr_add :: "'d hook \<Rightarrow> 'd hookRegistry \<Rightarrow> 'd hookRegistry" where
  "hr_add h hr = hr\<lparr>hs := hs hr @ [h]\<rparr>"

text \<open>\<open>remove\<close> drops the first element that is the given collector and keeps the order of the
  others.\<close>

fun removeFirst :: "nat \<Rightarrow> 'd hook list \<Rightarrow> 'd hook list" where
  "removeFirst m [] = []"
| "removeFirst m (UserHook u # xs) = UserHook u # removeFirst m xs"
| "removeFirst m (MetricsHook a # xs) =
     (if a = m then xs else MetricsHook a # removeFirst m xs)"

definition hr_remove :: "nat \<Rightarrow> 'd hookRegistry \<Rightarrow> 'd hookRegistry" where
  "hr_remove target hr = hr\<lparr>hs := removeFirst target (hs hr)\<rparr>"

definition hr_snapshot :: "'d hookRegistry \<Rightarrow> 'd hook list" where
  "hr_snapshot hr = hs hr"

definition hr_setObserved :: "nat option \<Rightarrow> 'd hookRegistry \<Rightarrow> 'd hookRegistry" where
  "hr_setObserved m hr = hr\<lparr>met := m\<rparr>"

definition hr_observed :: "'d hookRegistry \<Rightarrow> nat option" where
  "hr_observed hr = met hr"

text \<open>The nil-safe readers on a registry pointer.\<close>

definition snapshot :: "nat option \<Rightarrow> 'd world \<Rightarrow> 'd hook list" where
  "snapshot p w = (case p of None \<Rightarrow> [] | Some a \<Rightarrow> hr_snapshot (regs w a))"

definition observed :: "nat option \<Rightarrow> 'd world \<Rightarrow> nat option" where
  "observed p w = (case p of None \<Rightarrow> None | Some a \<Rightarrow> hr_observed (regs w a))"

definition updRegistry :: "nat \<Rightarrow> ('d hookRegistry \<Rightarrow> 'd hookRegistry) \<Rightarrow> ('d world, unit) act" where
  "updRegistry a f = changing (\<lambda>w. w\<lparr>regs := (regs w)(a := f (regs w a))\<rparr>)"

text \<open>\<open>QueryHookFunc\<close>: the adapter calls the functions that are set; a nil one does nothing.\<close>

definition QueryHookFunc ::
  "nat \<Rightarrow> (queryInfo \<Rightarrow> ('d env, unit) act) option \<Rightarrow> (queryInfo \<Rightarrow> ('d env, unit) act) option
     \<Rightarrow> 'd userHook" where
  "QueryHookFunc i bef aft =
     \<lparr>hookId = i,
      BeforeHook = (case bef of None \<Rightarrow> (\<lambda>_. ret ()) | Some f \<Rightarrow> f),
      AfterHook = (case aft of None \<Rightarrow> (\<lambda>_. ret ()) | Some f \<Rightarrow> f),
      contextual = None\<rparr>"

section \<open>The contract of a registry\<close>

text \<open>
  What the clients of a registry (the dispatch of core.go and \<open>EnableMetrics\<close>) rely on: hooks
  are delivered in registration order, a collector that is removed is gone and nothing else is,
  and the observed collector is independent of the list.
\<close>

locale hook_registry =
  fixes add :: "'h \<Rightarrow> 'r \<Rightarrow> 'r"
    and remove :: "'m \<Rightarrow> 'r \<Rightarrow> 'r"
    and snap :: "'r \<Rightarrow> 'h list"
    and set_obs :: "'m option \<Rightarrow> 'r \<Rightarrow> 'r"
    and get_obs :: "'r \<Rightarrow> 'm option"
    and as_hook :: "'m \<Rightarrow> 'h"
  assumes snap_add: "snap (add h r) = snap r @ [h]"
    and snap_remove: "snap (remove m r) = remove1 (as_hook m) (snap r)"
    and snap_set_obs: "snap (set_obs mo r) = snap r"
    and obs_add: "get_obs (add h r) = get_obs r"
    and obs_remove: "get_obs (remove m r) = get_obs r"
    and obs_set_obs: "get_obs (set_obs mo r) = mo"
begin

text \<open>Attaching a collector and detaching it again, as \<open>EnableMetrics\<close> and \<open>detach\<close> do.\<close>

lemma attach_snap: "snap (set_obs (Some m) (add (as_hook m) r)) = snap r @ [as_hook m]"
  by (simp add: snap_set_obs snap_add)

lemma attach_obs: "get_obs (set_obs (Some m) (add (as_hook m) r)) = Some m"
  by (simp add: obs_set_obs)

lemma detach_attach_snap:
  assumes "as_hook m \<notin> set (snap r)"
  shows "snap (set_obs None (remove m (set_obs (Some m) (add (as_hook m) r)))) = snap r"
  using assms by (simp add: snap_set_obs snap_remove snap_add remove1_append)

lemma detach_obs: "get_obs (set_obs None (remove m r)) = None"
  by (simp add: obs_set_obs)

end

lemma removeFirst_remove1: "removeFirst m xs = remove1 (MetricsHook m) xs"
  by (induction m xs rule: removeFirst.induct) auto

interpretation hr: hook_registry hr_add hr_remove hr_snapshot hr_setObserved hr_observed MetricsHook
  by unfold_locales
    (simp_all add: hr_add_def hr_remove_def hr_snapshot_def hr_setObserved_def hr_observed_def
      removeFirst_remove1)

lemma updRegistry_app [act_simps]:
  "updRegistry a f w = (Ret (), w\<lparr>regs := (regs w)(a := f (regs w a))\<rparr>)"
  by (simp add: updRegistry_def act_simps)

lemma snapshot_env [simp]: "snapshot p (w\<lparr>env := s\<rparr>) = snapshot p w"
  by (simp add: snapshot_def split: option.splits)

lemma snapshot_trace [simp]: "snapshot p (w\<lparr>trace := t\<rparr>) = snapshot p w"
  by (simp add: snapshot_def split: option.splits)

lemma snapshot_regs: "regs w' = regs w \<Longrightarrow> snapshot p w' = snapshot p w"
  by (simp add: snapshot_def split: option.splits)

lemma observed_regs: "regs w' = regs w \<Longrightarrow> observed p w' = observed p w"
  by (simp add: observed_def split: option.splits)

end
