(* ===== verification/Metrics.thy ===== *)
theory Metrics
  imports Hooks
begin

text \<open>
  metrics.go, first half: the collector as a \<open>QueryHook\<close> and the signals outside the hook
  contract (transactions, acquires, pool samples). Prometheus counters, histograms and gauges
  are the fields of the \<open>collector\<close> record; a method on a nil collector does nothing.
\<close>

definition metricStatusOK :: string where "metricStatusOK = ''ok''"
definition metricStatusError :: string where "metricStatusError = ''error''"
definition metricStatusCanceled :: string where "metricStatusCanceled = ''canceled''"

definition txResultCommit :: string where "txResultCommit = ''commit''"
definition txResultRollback :: string where "txResultRollback = ''rollback''"
definition txResultPanic :: string where "txResultPanic = ''panic''"

definition defaultMetricsPollInterval :: int where
  "defaultMetricsPollInterval = 5 * Second"

definition statusLabel :: "gerr option \<Rightarrow> string" where
  "statusLabel err =
     (case err of
        None \<Rightarrow> metricStatusOK
      | Some e \<Rightarrow>
          if errIs e Canceled \<or> errIs e DeadlineExceeded then metricStatusCanceled
          else metricStatusError)"

text \<open>\<open>NewMetricsCollector\<close>, with the registerer already resolved.\<close>

definition NewMetricsCollector :: "nat \<Rightarrow> collector" where
  "NewMetricsCollector reg =
     \<lparr>mcReg = reg, queriesTotal = (\<lambda>_. 0), queryDuration = [], poolAcquireTotal = 0,
      txTotal = (\<lambda>_. 0), rollbackCompensations = 0, poolInUse = 0, poolIdle = 0, poolMax = 0,
      pollInterval = defaultMetricsPollInterval\<rparr>"

definition onCollector :: "nat option \<Rightarrow> (collector \<Rightarrow> collector) \<Rightarrow> ('d world, unit) act" where
  "onCollector mc f =
     (case mc of None \<Rightarrow> ret () | Some a \<Rightarrow> changing (\<lambda>w. w\<lparr>mcs := (mcs w)(a := f (mcs w a))\<rparr>))"

definition countQuery :: "queryInfo \<Rightarrow> collector \<Rightarrow> collector" where
  "countQuery info c =
     (let k = (qiOp info, statusLabel (qiErr info))
      in c\<lparr>queriesTotal := (queriesTotal c)(k := Suc (queriesTotal c k)),
           queryDuration := queryDuration c @ [(qiOp info, qiDuration info)]\<rparr>)"

text \<open>The collector observes after the statement only.\<close>

definition mcBeforeHook :: "nat option \<Rightarrow> queryInfo \<Rightarrow> ('d world, unit) act" where
  "mcBeforeHook mc info = ret ()"

definition mcAfterHook :: "nat option \<Rightarrow> queryInfo \<Rightarrow> ('d world, unit) act" where
  "mcAfterHook mc info = onCollector mc (countQuery info)"

definition recordTx :: "nat option \<Rightarrow> string \<Rightarrow> ('d world, unit) act" where
  "recordTx mc result =
     onCollector mc (\<lambda>c. c\<lparr>txTotal := (txTotal c)(result := Suc (txTotal c result))\<rparr>)"

definition recordRollbackCompensation :: "nat option \<Rightarrow> ('d world, unit) act" where
  "recordRollbackCompensation mc =
     onCollector mc (\<lambda>c. c\<lparr>rollbackCompensations := Suc (rollbackCompensations c)\<rparr>)"

definition observeAcquire :: "nat option \<Rightarrow> ('d world, unit) act" where
  "observeAcquire mc = onCollector mc (\<lambda>c. c\<lparr>poolAcquireTotal := Suc (poolAcquireTotal c)\<rparr>)"

text \<open>database.go: the snapshot the sampler reads.\<close>

record poolStats =
  InUse :: int
  Idle :: int
  MaxC :: int

definition samplePool :: "poolStats \<Rightarrow> nat \<Rightarrow> ('d world, unit) act" where
  "samplePool s a =
     onCollector (Some a) (\<lambda>c. c\<lparr>poolInUse := InUse s, poolIdle := Idle s, poolMax := MaxC s\<rparr>)"

section \<open>Facts\<close>

lemma onCollector_app [act_simps]:
  "onCollector mc f w =
     (Ret (), case mc of None \<Rightarrow> w | Some a \<Rightarrow> w\<lparr>mcs := (mcs w)(a := f (mcs w a))\<rparr>)"
  by (simp add: onCollector_def act_simps split: option.splits)

lemma mcBeforeHook_app [simp]: "mcBeforeHook mc info = ret ()"
  by (simp add: mcBeforeHook_def)

lemma onCollector_frame [frame_simps]:
  "env (snd (onCollector mc f w)) = env w"
  "regs (snd (onCollector mc f w)) = regs w"
  "trace (snd (onCollector mc f w)) = trace w"
  "fresh (snd (onCollector mc f w)) = fresh w"
  by (simp_all add: act_simps split: option.splits)

lemma statusLabel_range:
  "statusLabel err \<in> {metricStatusOK, metricStatusError, metricStatusCanceled}"
  by (simp add: statusLabel_def split: option.splits)

lemma statusLabel_ok_iff: "statusLabel err = metricStatusOK \<longleftrightarrow> err = None"
  by (simp add: statusLabel_def metricStatusOK_def metricStatusError_def metricStatusCanceled_def
      split: option.splits)

end
