(* ===== verification/Resilience.thy ===== *)
theory Resilience
  imports World
begin

text \<open>
  resilience.go: the retry policy. The retried function is an action that delivers a value and
  an error (the closures of the library assign the value to a captured variable, so the value of
  the last attempt is what survives). The loop is total: an attempt is repeated only below
  \<open>maxCount\<close>, whatever the function does.
\<close>

section \<open>The policy\<close>

definition nonTransientSQLStates :: "(string \<times> string) list" where
  "nonTransientSQLStates =
     [(''42601'', ''syntax_error''),
      (''23505'', ''unique_violation''),
      (''23503'', ''foreign_key_violation''),
      (''42501'', ''insufficient_privilege''),
      (''42P01'', ''undefined_table''),
      (''42703'', ''undefined_column'')]"

record retryPolicy =
  rpEnabled :: bool
  rpMaxCount :: int
  rpBaseDelay :: int
  rpLogger :: bool
  rpRetries :: bool

text \<open>The flags tell whether the logger and the counter are set: \<open>NewRetryPolicy\<close> leaves them nil and
  \<open>withObservability\<close> sets both. Inside \<open>do\<close> a nil logger is replaced by a no-op one, which drops the
  line.\<close>

definition NewRetryPolicy :: "bool \<Rightarrow> int \<Rightarrow> int \<Rightarrow> retryPolicy" where
  "NewRetryPolicy enabled maxCount baseDelay =
     \<lparr>rpEnabled = enabled, rpMaxCount = maxCount, rpBaseDelay = baseDelay,
      rpLogger = False, rpRetries = False\<rparr>"

definition withObservability :: "retryPolicy \<Rightarrow> retryPolicy" where
  "withObservability p = p\<lparr>rpLogger := True, rpRetries := True\<rparr>"

definition IsTransient :: "gerr option \<Rightarrow> bool" where
  "IsTransient err =
     (case err of
        None \<Rightarrow> False
      | Some e \<Rightarrow>
          if errIs e Canceled then False
          else if errIs e DeadlineExceeded then False
          else (case asPgError e of
                  Some code \<Rightarrow> map_of nonTransientSQLStates code = None
                | None \<Rightarrow> True))"

definition shouldRetry :: "retryPolicy \<Rightarrow> gerr option \<Rightarrow> nat \<Rightarrow> bool" where
  "shouldRetry p err attempt =
     (if \<not> rpEnabled p \<or> err = None \<or> rpMaxCount p \<le> int attempt then False
      else IsTransient err)"

text \<open>\<open>baseDelay << attempt\<close> on 64 bits.\<close>

definition backoffDelay :: "retryPolicy \<Rightarrow> nat \<Rightarrow> int" where
  "backoffDelay p attempt = wrap64 (rpBaseDelay p * 2 ^ attempt)"

text \<open>
  \<open>sleep\<close> waits on the timer and on the context, whichever is ready first; a timer with a
  non-positive delay is ready at once. It returns the context's error when the context won.
\<close>

definition sleep :: "retryPolicy \<Rightarrow> ctx \<Rightarrow> nat \<Rightarrow> 'd world \<Rightarrow> gerr option \<times> 'd world" where
  "sleep p c attempt w =
     (let s = env w; fire = clock s + max (backoffDelay p attempt) 0;
          wake = (\<lambda>t. w\<lparr>env := s\<lparr>clock := t\<rparr>\<rparr>)
      in case done_at s c of
           None \<Rightarrow> (None, wake fire)
         | Some (u, e) \<Rightarrow>
             (let ready = max u (clock s)
              in if ready < fire \<or> (ready = fire \<and> tie_done s) then (Some e, wake ready)
                 else (None, wake fire)))"

definition retryNotice :: "retryPolicy \<Rightarrow> 'd world \<Rightarrow> 'd world" where
  "retryNotice p w =
     w\<lparr>trace := trace w @ (if rpLogger p then [LogLine ''database transient error, retrying''] else [])
         @ (if rpRetries p then [RetryCounted] else [])\<rparr>"

function doLoop ::
  "retryPolicy \<Rightarrow> ctx \<Rightarrow> ('d world, 'a \<times> gerr option) act \<Rightarrow> nat \<Rightarrow> ('d world, 'a \<times> gerr option) act"
where
  "doLoop p c fn attempt w =
     (case fn w of
        (Panic q, w1) \<Rightarrow> (Panic q, w1)
      | (Ret (v, err), w1) \<Rightarrow>
          (case err of
             None \<Rightarrow> (Ret (v, None), w1)
           | Some e \<Rightarrow>
               if \<not> shouldRetry p (Some e) attempt then (Ret (v, Some e), w1)
               else (case sleep p c attempt (retryNotice p w1) of
                       (Some se, w2) \<Rightarrow>
                         (Ret (v, Some (Joined [e, wrapE ''database: retry aborted: '' se])), w2)
                     | (None, w2) \<Rightarrow> doLoop p c fn (Suc attempt) w2)))"
  by pat_completeness auto
termination
  by (relation "measure (\<lambda>(p, c, fn, attempt, w). nat (rpMaxCount p - int attempt))")
    (auto simp: shouldRetry_def split: if_splits)

declare doLoop.simps [simp del]

text \<open>\<open>do\<close> (and \<open>retried\<close> of core.go, which only adds the captured variable), \<open>Do\<close> and
  \<open>DoValue\<close>.\<close>

definition retryDo ::
  "ctx \<Rightarrow> retryPolicy \<Rightarrow> ('d world, 'a \<times> gerr option) act \<Rightarrow> ('d world, 'a \<times> gerr option) act" where
  "retryDo c p fn = (if \<not> rpEnabled p then fn else doLoop p c fn 0)"

definition DoFn :: "retryPolicy \<Rightarrow> ('d world, unit \<times> gerr option) act \<Rightarrow> ('d world, unit \<times> gerr option) act" where
  "DoFn p fn = retryDo Background p fn"

definition DoValue ::
  "'a \<Rightarrow> retryPolicy \<Rightarrow> ('d world, 'a \<times> gerr option) act \<Rightarrow> ('d world, 'a \<times> gerr option) act" where
  "DoValue zero p fn =
     andThen (retryDo Background p fn)
       (\<lambda>(out, err). if err \<noteq> None then ret (zero, err) else ret (out, err))"

section \<open>Classification of errors\<close>

lemma IsTransient_None [simp]: "\<not> IsTransient None"
  by (simp add: IsTransient_def)

lemma IsTransient_ctx:
  "errIs e Canceled \<or> errIs e DeadlineExceeded \<Longrightarrow> \<not> IsTransient (Some e)"
  by (auto simp: IsTransient_def)

lemma IsTransient_permanent:
  "asPgError e = Some code \<Longrightarrow> map_of nonTransientSQLStates code \<noteq> None \<Longrightarrow> \<not> IsTransient (Some e)"
  by (auto simp: IsTransient_def)

lemma shouldRetry_iff:
  "shouldRetry p (Some e) k \<longleftrightarrow> rpEnabled p \<and> int k < rpMaxCount p \<and> IsTransient (Some e)"
  by (auto simp: shouldRetry_def)

section \<open>The backoff\<close>

lemma sleep_trace [trace_simps]: "trace (snd (sleep p c k w)) = trace w"
  by (auto simp: sleep_def Let_def split: option.splits prod.splits)

lemma sleep_frame [frame_simps]:
  "regs (snd (sleep p c k w)) = regs w" "mcs (snd (sleep p c k w)) = mcs w"
  "fresh (snd (sleep p c k w)) = fresh w"
  by (auto simp: sleep_def Let_def split: option.splits prod.splits)

lemma backoffDelay_exact:
  assumes "0 \<le> rpBaseDelay p" and "rpBaseDelay p * 2 ^ k < 2 ^ 63"
  shows "backoffDelay p k = rpBaseDelay p * 2 ^ k"
proof -
  have "0 \<le> rpBaseDelay p * 2 ^ k" using assms(1) by simp
  with assms(2) have "in64 (rpBaseDelay p * 2 ^ k)" unfolding in64_def by linarith
  then show ?thesis by (simp add: backoffDelay_def)
qed

text \<open>A wait that ends with the timer lasts the whole delay; one that is interrupted reports the
  context's error, which holds when it returns.\<close>

lemma sleep_timer:
  assumes "sleep p c k w = (None, w')"
  shows "clock (env w') = clock (env w) + max (backoffDelay p k) 0"
  using assms by (auto simp: sleep_def Let_def split: option.splits if_splits)

lemma sleep_interrupted:
  assumes "sleep p c k w = (Some e, w')"
  shows "ctxErr (env w') c = Some e \<and> clock (env w') \<le> clock (env w) + max (backoffDelay p k) 0"
proof -
  have da: "done_at (s\<lparr>clock := t\<rparr>) c' = done_at s c'" for s :: "'d env" and t c'
    by (induction c') (auto split: option.splits)
  show ?thesis
    using assms by (auto simp: sleep_def Let_def ctxErr_def da split: option.splits if_splits)
qed

lemma retryNotice_trace [trace_simps]:
  "trace (retryNotice p w) =
     trace w @ (if rpLogger p then [LogLine ''database transient error, retrying''] else []) @ (if rpRetries p then [RetryCounted] else [])"
  by (simp add: retryNotice_def)

lemma retryNotice_frame [frame_simps]:
  "regs (retryNotice p w) = regs w" "mcs (retryNotice p w) = mcs w"
  "fresh (retryNotice p w) = fresh w" "env (retryNotice p w) = env w"
  by (simp_all add: retryNotice_def)

section \<open>The loop against an unbounded reference\<close>

text \<open>
  \<open>attemptWorld p c fn n w\<close> is the world in which the attempt number \<open>n\<close> starts when transient
  errors are retried without a bound; \<open>None\<close> when an earlier attempt ends the loop.
\<close>

primrec attemptWorld ::
  "retryPolicy \<Rightarrow> ctx \<Rightarrow> ('d world, 'a \<times> gerr option) act \<Rightarrow> nat \<Rightarrow> nat \<Rightarrow> 'd world \<Rightarrow> 'd world option"
where
  "attemptWorld p c fn k 0 w = Some w"
| "attemptWorld p c fn k (Suc n) w =
     (case fn w of
        (Ret (v, Some e), w1) \<Rightarrow>
          if IsTransient (Some e)
          then (case sleep p c k (retryNotice p w1) of
                  (None, w2) \<Rightarrow> attemptWorld p c fn (Suc k) n w2
                | (Some _, _) \<Rightarrow> None)
          else None
      | _ \<Rightarrow> None)"

text \<open>What the loop makes of its last attempt: an interrupted backoff joins the two errors.\<close>

definition lastAttempt ::
  "retryPolicy \<Rightarrow> ctx \<Rightarrow> ('d world, 'a \<times> gerr option) act \<Rightarrow> nat \<Rightarrow> ('d world, 'a \<times> gerr option) act" where
  "lastAttempt p c fn k w =
     (case fn w of
        (Ret (v, Some e), w1) \<Rightarrow>
          if shouldRetry p (Some e) k
          then (case sleep p c k (retryNotice p w1) of
                  (Some se, w2) \<Rightarrow>
                    (Ret (v, Some (Joined [e, wrapE ''database: retry aborted: '' se])), w2)
                | (None, w2) \<Rightarrow> (Ret (v, Some e), w1))
          else (Ret (v, Some e), w1)
      | other \<Rightarrow> other)"

lemma doLoop_reference:
  assumes "rpEnabled p"
  shows "\<exists>n wn. attemptWorld p c fn k n w = Some wn
     \<and> int n \<le> max 0 (rpMaxCount p - int k)
     \<and> doLoop p c fn k w = lastAttempt p c fn (k + n) wn
     \<and> (int (k + n) < rpMaxCount p \<longrightarrow> attemptWorld p c fn k (Suc n) w = None)"
  using assms
proof (induction p c fn k w rule: doLoop.induct)
  case (1 p c fn k w)
  show ?case
  proof (cases "\<exists>v e w1 w2. fn w = (Ret (v, Some e), w1) \<and> shouldRetry p (Some e) k
      \<and> sleep p c k (retryNotice p w1) = (None, w2)")
    case True
    then obtain v e w1 w2 where f: "fn w = (Ret (v, Some e), w1)"
      and r: "shouldRetry p (Some e) k" and s: "sleep p c k (retryNotice p w1) = (None, w2)"
      by blast
    from "1.IH" [OF f [symmetric] refl refl refl] r s "1.prems"
    obtain n wn where IH: "attemptWorld p c fn (Suc k) n w2 = Some wn"
      "int n \<le> max 0 (rpMaxCount p - int (Suc k))"
      "doLoop p c fn (Suc k) w2 = lastAttempt p c fn (Suc k + n) wn"
      "int (Suc k + n) < rpMaxCount p \<longrightarrow> attemptWorld p c fn (Suc k) (Suc n) w2 = None"
      by metis
    from r have k: "int k < rpMaxCount p" and t: "IsTransient (Some e)"
      by (auto simp: shouldRetry_iff)
    have "doLoop p c fn k w = doLoop p c fn (Suc k) w2"
      by (subst doLoop.simps) (simp add: f r s)
    with IH f s t k show ?thesis
      by (intro exI [of _ "Suc n"] exI [of _ wn]) auto
  next
    case False
    have "doLoop p c fn k w = lastAttempt p c fn k w"
      using False
      by (subst doLoop.simps)
        (auto simp: lastAttempt_def split: prod.splits outcome.splits option.splits)
    moreover have "attemptWorld p c fn k (Suc 0) w = None" if "int k < rpMaxCount p"
      using False that "1.prems"
      by (auto simp: shouldRetry_iff split: prod.splits outcome.splits option.splits)
    ultimately show ?thesis
      by (intro exI [of _ 0] exI [of _ w]) auto
  qed
qed

end
