(* ===== verification/Core.thy ===== *)
theory Core
  imports Metrics Resilience
begin

text \<open>
  core.go: the connection value shared by \<open>DB\<close>, \<open>Conn\<close> and \<open>Tx\<close>, the dispatch of hooks around
  every statement, the four statement runners (query, query row, scalar, exec) and the retrying
  public operations of \<open>DB\<close>. A Go function with results \<open>(T, error)\<close> delivers a pair of the
  value and an optional error. Mapping rows to values (\<open>pgx.CollectRows\<close> and its relatives) is
  the driver's and enters through a \<open>mapper\<close>.
\<close>

section \<open>The connection value\<close>

definition newObservability :: observability where
  "newObservability = \<lparr>obsLogger = True, obsTracer = True\<rparr>"

definition zeroObservability :: observability where
  "zeroObservability = \<lparr>obsLogger = False, obsTracer = False\<rparr>"

definition newConn :: "'d runner \<Rightarrow> 'd options \<Rightarrow> ctx \<Rightarrow> ('d world, 'd conn) act" where
  "newConn r1 o1 c =
     andThen (newHookRegistry o1) (\<lambda>a.
       ret \<lparr>connR = r1, connO = o1, connCtx = c, connHooks = Some a, connOps = None,
            connObs = newObservability\<rparr>)"

definition base :: "'d conn \<Rightarrow> ctx" where
  "base c = connCtx c"

definition derive :: "'d conn \<Rightarrow> 'd runner \<Rightarrow> 'd conn" where
  "derive c r1 =
     \<lparr>connR = r1, connO = connO c, connCtx = base c, connHooks = connHooks c,
      connOps = connOps c, connObs = connObs c\<rparr>"

text \<open>\<open>withSpan\<close>: the closure's error passes through the telemetry client, its captured value
  does not.\<close>

definition withSpan ::
  "'d conn \<Rightarrow> string \<Rightarrow> ('d world, 'a \<times> gerr option) act \<Rightarrow> ('d world, 'a \<times> gerr option) act" where
  "withSpan c operation fn =
     (case connOps c of
        None \<Rightarrow> fn
      | Some t \<Rightarrow>
          andThen (driver (\<lambda>s. ((), spanStart t (''db.'' @ operation) s))) (\<lambda>_.
          andThen fn (\<lambda>(v, err).
          andThen (driver (spanEnd t (''db.'' @ operation) err)) (\<lambda>err'. ret (v, err')))))"

definition connObserved :: "'d conn \<Rightarrow> 'd world \<Rightarrow> nat option" where
  "connObserved c w = observed (connHooks c) w"

text \<open>A call of a method on \<open>c.obs.logger\<close>: with a nil logger it is a nil dereference.\<close>

definition logWarn :: "'d conn \<Rightarrow> string \<Rightarrow> ('d world, unit) act" where
  "logWarn c msg =
     (if obsLogger (connObs c) then emit (LogLine msg)
      else panic ''invalid memory address or nil pointer dereference'')"

text \<open>\<open>c.logger()\<close> falls back to a logger that drops everything.\<close>

definition loggerLine :: "'d conn \<Rightarrow> string \<Rightarrow> ('d world, unit) act" where
  "loggerLine c msg = only_when (obsLogger (connObs c)) (emit (LogLine msg))"

section \<open>Hook dispatch\<close>

definition visibleArgs :: "'d options \<Rightarrow> gval list \<Rightarrow> gval list" where
  "visibleArgs o1 args = (if HideQueryArgs o1 then [] else args)"

definition callBefore :: "ctx \<Rightarrow> queryInfo \<Rightarrow> 'd hook \<Rightarrow> ('d world, unit) act" where
  "callBefore c info h =
     (case h of
        UserHook u \<Rightarrow>
          andThen (emit (HookCall Before (hookId u) info)) (\<lambda>_.
          andThen (userCode (BeforeHook u info)) (\<lambda>_.
          case contextual u of
            None \<Rightarrow> ret ()
          | Some (bef, aft) \<Rightarrow>
              andThen (emit (HookCtxCall Before (hookId u) c info)) (\<lambda>_. userCode (bef c info))))
      | MetricsHook a \<Rightarrow> mcBeforeHook (Some a) info)"

definition callAfter :: "ctx \<Rightarrow> queryInfo \<Rightarrow> 'd hook \<Rightarrow> ('d world, unit) act" where
  "callAfter c info h =
     (case h of
        UserHook u \<Rightarrow>
          andThen (emit (HookCall After (hookId u) info)) (\<lambda>_.
          andThen (userCode (AfterHook u info)) (\<lambda>_.
          case contextual u of
            None \<Rightarrow> ret ()
          | Some (bef, aft) \<Rightarrow>
              andThen (emit (HookCtxCall After (hookId u) c info)) (\<lambda>_. userCode (aft c info))))
      | MetricsHook a \<Rightarrow> mcAfterHook (Some a) info)"

definition eachHook :: "'d conn \<Rightarrow> ('d hook \<Rightarrow> ('d world, unit) act) \<Rightarrow> ('d world, unit) act" where
  "eachHook c fn = (\<lambda>w.
     for_each
       (\<lambda>h. recovering (fn h) (\<lambda>_. logWarn c ''database query hook panicked (recovered)''))
       (snapshot (connHooks c) w) w)"

definition beforeInfo :: "'d conn \<Rightarrow> string \<Rightarrow> string \<Rightarrow> gval list \<Rightarrow> queryInfo" where
  "beforeInfo c op1 sql args =
     \<lparr>qiOp = op1, qiSQL = sql, qiArgs = visibleArgs (connO c) args, qiDuration = 0,
      qiErr = None, qiRows = 0\<rparr>"

definition afterInfo ::
  "'d conn \<Rightarrow> string \<Rightarrow> string \<Rightarrow> gval list \<Rightarrow> int \<Rightarrow> gerr option \<Rightarrow> int \<Rightarrow> queryInfo" where
  "afterInfo c op1 sql args d err rows =
     \<lparr>qiOp = op1, qiSQL = sql, qiArgs = visibleArgs (connO c) args, qiDuration = d,
      qiErr = err, qiRows = rows\<rparr>"

definition fireBeforeContext ::
  "'d conn \<Rightarrow> ctx \<Rightarrow> string \<Rightarrow> string \<Rightarrow> gval list \<Rightarrow> ('d world, unit) act" where
  "fireBeforeContext c parent op1 sql args =
     eachHook c (callBefore parent (beforeInfo c op1 sql args))"

definition fireBefore :: "'d conn \<Rightarrow> string \<Rightarrow> string \<Rightarrow> gval list \<Rightarrow> ('d world, unit) act" where
  "fireBefore c op1 sql args = fireBeforeContext c (base c) op1 sql args"

definition fireAfterContext ::
  "'d conn \<Rightarrow> ctx \<Rightarrow> string \<Rightarrow> string \<Rightarrow> gval list \<Rightarrow> int \<Rightarrow> gerr option \<Rightarrow> int \<Rightarrow> ('d world, unit) act" where
  "fireAfterContext c parent op1 sql args d err rows =
     eachHook c (callAfter parent (afterInfo c op1 sql args d err rows))"

definition fireAfter ::
  "'d conn \<Rightarrow> string \<Rightarrow> string \<Rightarrow> gval list \<Rightarrow> int \<Rightarrow> gerr option \<Rightarrow> int \<Rightarrow> ('d world, unit) act" where
  "fireAfter c op1 sql args d err rows = fireAfterContext c (base c) op1 sql args d err rows"

section \<open>Deadlines and slow-query tracking\<close>

definition timeout :: "ctx \<Rightarrow> int \<Rightarrow> ('d world, ctx) act" where
  "timeout c d = reading (\<lambda>w. WithDeadline c (clock (env w) + d))"

definition freshRollbackCtx :: "ctx \<Rightarrow> 'd options \<Rightarrow> ('d world, ctx) act" where
  "freshRollbackCtx parent o1 = timeout (WithoutCancel parent) (CommandTimeout o1)"

definition rollbackCtx :: "ctx \<Rightarrow> 'd options \<Rightarrow> ('d world, ctx) act" where
  "rollbackCtx b o1 = (\<lambda>w.
     if ctxErr (env w) b \<noteq> None then freshRollbackCtx b o1 w
     else timeout b (CommandTimeout o1) w)"

definition track :: "'d conn \<Rightarrow> int \<Rightarrow> string \<Rightarrow> ('d world, unit) act" where
  "track c start sql =
     andThen (since start) (\<lambda>d.
       only_when (0 < SlowQuery (connO c) \<and> SlowQuery (connO c) < d)
         (logWarn c ''database slow query''))"

section \<open>The statement runners\<close>

record ('d, 't) mapper =
  zeroT :: 't
  collectRows :: "nat \<Rightarrow> ('d, 't list \<times> gerr option) drvcall"
  collectOneRow :: "nat \<Rightarrow> ('d, 't \<times> gerr option) drvcall"
  scanRow :: "nat \<Rightarrow> ('d, 't \<times> gerr option) drvcall"

text \<open>Statements sent to a runner, recorded in the trace.\<close>

definition callExec ::
  "'d runner \<Rightarrow> ctx \<Rightarrow> string \<Rightarrow> gval list \<Rightarrow> ('d world, int \<times> gerr option) act" where
  "callExec r1 c sql args =
     andThen (emit (Call (runner_id r1) ''Exec'' c sql args)) (\<lambda>_. driver (rExec r1 c sql args))"

definition callQuery ::
  "'d runner \<Rightarrow> ctx \<Rightarrow> string \<Rightarrow> gval list \<Rightarrow> ('d world, nat \<times> gerr option) act" where
  "callQuery r1 c sql args =
     andThen (emit (Call (runner_id r1) ''Query'' c sql args)) (\<lambda>_. driver (rQuery r1 c sql args))"

definition callQueryRow ::
  "'d runner \<Rightarrow> ctx \<Rightarrow> string \<Rightarrow> gval list \<Rightarrow> ('d world, nat) act" where
  "callQueryRow r1 c sql args =
     andThen (emit (Call (runner_id r1) ''QueryRow'' c sql args)) (\<lambda>_. driver (rQueryRow r1 c sql args))"

definition runQueryContext ::
  "('d, 't) mapper \<Rightarrow> ctx \<Rightarrow> 'd conn \<Rightarrow> string \<Rightarrow> gval list \<Rightarrow> ('d world, 't list \<times> gerr option) act" where
  "runQueryContext m parent c sql args =
     andThen (fireBeforeContext c parent OpQuery sql args) (\<lambda>_.
     andThen (timeout parent (CommandTimeout (connO c))) (\<lambda>cctx.
     andThen now (\<lambda>start.
     andThen (callQuery (connR c) cctx sql args) (\<lambda>(rows, err).
     case err of
       Some e \<Rightarrow>
         andThen (track c start sql) (\<lambda>_.
         andThen (since start) (\<lambda>d.
         andThen (fireAfterContext c parent OpQuery sql args d (Some e) rowsUnknown) (\<lambda>_.
         ret ([], Some e))))
     | None \<Rightarrow>
         andThen (driver (collectRows m rows)) (\<lambda>(out, err).
         andThen (track c start sql) (\<lambda>_.
         andThen (since start) (\<lambda>d.
         case err of
           Some e \<Rightarrow>
             andThen (fireAfterContext c parent OpQuery sql args d (Some e) rowsUnknown) (\<lambda>_.
             ret (out, Some e))
         | None \<Rightarrow>
             andThen (fireAfterContext c parent OpQuery sql args d None (int (length out))) (\<lambda>_.
             ret (out, None)))))))))"

definition runQuery ::
  "('d, 't) mapper \<Rightarrow> 'd conn \<Rightarrow> string \<Rightarrow> gval list \<Rightarrow> ('d world, 't list \<times> gerr option) act" where
  "runQuery m c sql args = runQueryContext m (base c) c sql args"

text \<open>\<open>runQueryRow\<close> delivers the value together with \<open>found\<close>; \<open>ErrNoRows\<close> is no error.\<close>

definition runQueryRowContext ::
  "('d, 't) mapper \<Rightarrow> ctx \<Rightarrow> 'd conn \<Rightarrow> string \<Rightarrow> gval list
     \<Rightarrow> ('d world, ('t \<times> bool) \<times> gerr option) act" where
  "runQueryRowContext m parent c sql args =
     andThen (fireBeforeContext c parent OpQueryRow sql args) (\<lambda>_.
     andThen (timeout parent (CommandTimeout (connO c))) (\<lambda>cctx.
     andThen now (\<lambda>start.
     andThen (callQuery (connR c) cctx sql args) (\<lambda>(rows, err).
     case err of
       Some e \<Rightarrow>
         andThen (track c start sql) (\<lambda>_.
         andThen (since start) (\<lambda>d.
         andThen (fireAfterContext c parent OpQueryRow sql args d (Some e) rowsUnknown) (\<lambda>_.
         ret ((zeroT m, False), Some e))))
     | None \<Rightarrow>
         andThen (driver (collectOneRow m rows)) (\<lambda>(val, err).
         andThen (track c start sql) (\<lambda>_.
         andThen (since start) (\<lambda>d.
         case err of
           Some e \<Rightarrow>
             if errIs e ErrNoRows
             then andThen (fireAfterContext c parent OpQueryRow sql args d None 0) (\<lambda>_.
                  ret ((zeroT m, False), None))
             else andThen (fireAfterContext c parent OpQueryRow sql args d (Some e) rowsUnknown) (\<lambda>_.
                  ret ((zeroT m, False), Some e))
         | None \<Rightarrow>
             andThen (fireAfterContext c parent OpQueryRow sql args d None 1) (\<lambda>_.
             ret ((val, True), None)))))))))"

definition runQueryRow ::
  "('d, 't) mapper \<Rightarrow> 'd conn \<Rightarrow> string \<Rightarrow> gval list \<Rightarrow> ('d world, ('t \<times> bool) \<times> gerr option) act" where
  "runQueryRow m c sql args = runQueryRowContext m (base c) c sql args"

definition runScalarContext ::
  "('d, 't) mapper \<Rightarrow> ctx \<Rightarrow> 'd conn \<Rightarrow> string \<Rightarrow> gval list \<Rightarrow> ('d world, 't \<times> gerr option) act" where
  "runScalarContext m parent c sql args =
     andThen (fireBeforeContext c parent OpScalar sql args) (\<lambda>_.
     andThen (timeout parent (CommandTimeout (connO c))) (\<lambda>cctx.
     andThen now (\<lambda>start.
     andThen (callQueryRow (connR c) cctx sql args) (\<lambda>row.
     andThen (driver (scanRow m row)) (\<lambda>(val, err).
     andThen (track c start sql) (\<lambda>_.
     andThen (since start) (\<lambda>d.
     andThen (fireAfterContext c parent OpScalar sql args d err rowsUnknown) (\<lambda>_.
     ret (val, err)))))))))"

definition runScalar ::
  "('d, 't) mapper \<Rightarrow> 'd conn \<Rightarrow> string \<Rightarrow> gval list \<Rightarrow> ('d world, 't \<times> gerr option) act" where
  "runScalar m c sql args = runScalarContext m (base c) c sql args"

definition connExecuteContext ::
  "'d conn \<Rightarrow> ctx \<Rightarrow> string \<Rightarrow> gval list \<Rightarrow> ('d world, int \<times> gerr option) act" where
  "connExecuteContext c parent sql args =
     andThen (fireBeforeContext c parent OpExec sql args) (\<lambda>_.
     andThen (timeout parent (CommandTimeout (connO c))) (\<lambda>cctx.
     andThen now (\<lambda>start.
     andThen (callExec (connR c) cctx sql args) (\<lambda>(n, err).
     andThen (track c start sql) (\<lambda>_.
     andThen (since start) (\<lambda>d.
     case err of
       Some e \<Rightarrow>
         andThen (fireAfterContext c parent OpExec sql args d (Some e) rowsUnknown) (\<lambda>_.
         ret (0, Some e))
     | None \<Rightarrow>
         andThen (fireAfterContext c parent OpExec sql args d None n) (\<lambda>_. ret (n, None))))))))"

definition connExecute :: "'d conn \<Rightarrow> string \<Rightarrow> gval list \<Rightarrow> ('d world, int \<times> gerr option) act" where
  "connExecute c sql args =
     andThen (fireBefore c OpExec sql args) (\<lambda>_.
     andThen (timeout (base c) (CommandTimeout (connO c))) (\<lambda>cctx.
     andThen now (\<lambda>start.
     andThen (callExec (connR c) cctx sql args) (\<lambda>(n, err).
     andThen (track c start sql) (\<lambda>_.
     andThen (since start) (\<lambda>d.
     case err of
       Some e \<Rightarrow> andThen (fireAfter c OpExec sql args d (Some e) rowsUnknown) (\<lambda>_. ret (0, Some e))
     | None \<Rightarrow> andThen (fireAfter c OpExec sql args d None n) (\<lambda>_. ret (n, None))))))))"

section \<open>DB: the retrying surface\<close>

text \<open>
  \<open>Pool\<close> beyond the runner surface, with the capabilities asserted on it (\<open>poolAcquirer\<close>,
  \<open>txLevelBeginner\<close>); an acquired \<open>*pgxpool.Conn\<close> is a runner with \<open>Release\<close> and \<open>Begin\<close>.
\<close>

record 'd pooledConn =
  pcRunner :: "'d runner"
  pcRelease :: "'d env \<Rightarrow> 'd env"
  pcBegin :: "ctx \<Rightarrow> ('d, gerr + 'd runner \<times> 'd txOps) drvcall"

record 'd pool =
  poolBegin :: "ctx \<Rightarrow> ('d, gerr + 'd runner \<times> 'd txOps) drvcall"
  poolPing :: "ctx \<Rightarrow> ('d, gerr option) drvcall"
  poolClose :: "'d env \<Rightarrow> 'd env"
  poolStat :: "'d env \<Rightarrow> poolStats"
  poolAcquire :: "(ctx \<Rightarrow> ('d, gerr + 'd pooledConn) drvcall) option"
  poolBeginTx :: "(ctx \<Rightarrow> string \<Rightarrow> ('d, gerr + 'd runner \<times> 'd txOps) drvcall) option"

record 'd db =
  dbConn :: "'d conn"
  dbPool :: "'d pool"
  dbRetry :: retryPolicy
  dbPoolMetrics :: "('d env \<Rightarrow> 'd env) option"

definition retried ::
  "ctx \<Rightarrow> retryPolicy \<Rightarrow> ('d world, 'a \<times> gerr option) act \<Rightarrow> ('d world, 'a \<times> gerr option) act" where
  "retried c p fn = retryDo c p fn"

definition dbExecute :: "'d db \<Rightarrow> string \<Rightarrow> gval list \<Rightarrow> ('d world, int \<times> gerr option) act" where
  "dbExecute d sql args =
     withSpan (dbConn d) ''execute''
       (retried (base (dbConn d)) (dbRetry d) (connExecute (dbConn d) sql args))"

definition dbQuery ::
  "('d, 't) mapper \<Rightarrow> 'd db \<Rightarrow> string \<Rightarrow> gval list \<Rightarrow> ('d world, 't list \<times> gerr option) act" where
  "dbQuery m d sql args =
     withSpan (dbConn d) ''query''
       (retried (base (dbConn d)) (dbRetry d) (runQuery m (dbConn d) sql args))"

definition dbQueryRow ::
  "('d, 't) mapper \<Rightarrow> 'd db \<Rightarrow> string \<Rightarrow> gval list \<Rightarrow> ('d world, ('t \<times> bool) \<times> gerr option) act" where
  "dbQueryRow m d sql args =
     withSpan (dbConn d) ''query''
       (retryDo (base (dbConn d)) (dbRetry d) (runQueryRow m (dbConn d) sql args))"

definition dbScalar ::
  "('d, 't) mapper \<Rightarrow> 'd db \<Rightarrow> string \<Rightarrow> gval list \<Rightarrow> ('d world, 't \<times> gerr option) act" where
  "dbScalar m d sql args =
     retried (base (dbConn d)) (dbRetry d) (runScalar m (dbConn d) sql args)"

text \<open>
  The \<open>...Context\<close> variants: a span around the retried runner, closed by a deferred function
  that reports the result; a nil tracer is a nil dereference.
\<close>

definition observeOperation :: "string \<Rightarrow> string \<Rightarrow> ('d world, unit) act" where
  "observeOperation operation result = emit (OpObserved operation result)"

definition tracedOperation ::
  "'d db \<Rightarrow> ctx \<Rightarrow> string \<Rightarrow> string \<Rightarrow> (ctx \<Rightarrow> ('d world, 'a \<times> gerr option) act)
     \<Rightarrow> ('d world, 'a \<times> gerr option) act" where
  "tracedOperation d c span operation body =
     (if obsTracer (connObs (dbConn d))
      then andThen (emit (SpanLine span)) (\<lambda>_.
           deferring (body (WithSpan c span))
             (\<lambda>r. observeOperation operation
                (case r of Ret (v, Some e) \<Rightarrow> ''error'' | _ \<Rightarrow> ''success'')))
      else panic ''invalid memory address or nil pointer dereference'')"

definition dbExecuteContext ::
  "'d db \<Rightarrow> ctx \<Rightarrow> string \<Rightarrow> gval list \<Rightarrow> ('d world, int \<times> gerr option) act" where
  "dbExecuteContext d c sql args =
     tracedOperation d c ''db.execute'' ''execute''
       (\<lambda>c'. retried c' (dbRetry d) (connExecuteContext (dbConn d) c' sql args))"

definition dbQueryContext ::
  "('d, 't) mapper \<Rightarrow> ctx \<Rightarrow> 'd db \<Rightarrow> string \<Rightarrow> gval list \<Rightarrow> ('d world, 't list \<times> gerr option) act" where
  "dbQueryContext m c d sql args =
     tracedOperation d c ''db.query'' ''query''
       (\<lambda>c'. retried c' (dbRetry d) (runQueryContext m c' (dbConn d) sql args))"

definition dbQueryRowContext ::
  "('d, 't) mapper \<Rightarrow> ctx \<Rightarrow> 'd db \<Rightarrow> string \<Rightarrow> gval list
     \<Rightarrow> ('d world, ('t \<times> bool) \<times> gerr option) act" where
  "dbQueryRowContext m c d sql args =
     tracedOperation d c ''db.query'' ''query''
       (\<lambda>c'. retryDo c' (dbRetry d) (runQueryRowContext m c' (dbConn d) sql args))"

definition dbScalarContext ::
  "('d, 't) mapper \<Rightarrow> ctx \<Rightarrow> 'd db \<Rightarrow> string \<Rightarrow> gval list \<Rightarrow> ('d world, 't \<times> gerr option) act" where
  "dbScalarContext m c d sql args =
     tracedOperation d c ''db.scalar'' ''scalar''
       (\<lambda>c'. retried c' (dbRetry d) (runScalarContext m c' (dbConn d) sql args))"

section \<open>Elementary facts\<close>

text \<open>The two bodies of \<open>Execute\<close> agree.\<close>

lemma connExecute_Context: "connExecute c sql args = connExecuteContext c (base c) sql args"
  unfolding connExecute_def connExecuteContext_def fireBefore_def fireAfter_def ..

lemma timeout_app [act_simps]:
  "timeout c d w = (Ret (WithDeadline c (clock (env w) + d)), w)"
  by (simp add: timeout_def act_simps)

lemma freshRollbackCtx_app [act_simps]:
  "freshRollbackCtx c o1 w = (Ret (WithDeadline (WithoutCancel c) (clock (env w) + CommandTimeout o1)), w)"
  by (simp add: freshRollbackCtx_def act_simps)

lemma derive_simps [simp]:
  "connR (derive c r1) = r1" "connO (derive c r1) = connO c" "connCtx (derive c r1) = connCtx c"
  "connHooks (derive c r1) = connHooks c" "connObs (derive c r1) = connObs c"
  "connOps (derive c r1) = connOps c"
  by (simp_all add: derive_def base_def)

end
