(* ===== verification/Fixtures.thy ===== *)
theory Fixtures
  imports Core
begin

text \<open>
  Concrete worlds and drivers on which the witnesses of the development evaluate its theorems: a
  scripted driver whose statements end, one after the other, with the errors of a list, and a
  connection and a \<open>DB\<close> on top of it.
\<close>

definition popScript :: "(gerr option list, gerr option) drvcall" where
  "popScript s = (case drv s of [] \<Rightarrow> (None, s) | e # es \<Rightarrow> (e, s\<lparr>drv := es\<rparr>))"

definition scriptTx :: "gerr option list txOps" where
  "scriptTx = \<lparr>txCommit = (\<lambda>c. popScript), txRollback = (\<lambda>c. popScript)\<rparr>"

definition scriptRunner :: "nat \<Rightarrow> gerr option list runner" where
  "scriptRunner i = Runner i
     (\<lambda>c sql args s. case popScript s of (e, s') \<Rightarrow> ((if e = None then 1 else 0, e), s'))
     (\<lambda>c sql args s. case popScript s of (e, s') \<Rightarrow> ((0, e), s'))
     (\<lambda>c sql args s. (0, s))
     (Some scriptTx) None None None None None"

definition sampleOptions :: "'d options" where
  "sampleOptions =
     \<lparr>Host = ''db'', Port = 5432, Database = ''app'', Username = ''u'', Password = ''p'',
      PoolMinSize = 1, PoolMaxSize = 2, CommandTimeout = 30 * Second, ConnectionTimeout = 15 * Second,
      RetryEnabled = True, RetryMaxCount = 3, RetryBaseDelay = 100 * Millisecond,
      SlowQuery = 500 * Millisecond, QueryHooks = [], HideQueryArgs = False, instrumentation = None\<rparr>"

text \<open>A hook that panics in both phases.\<close>

definition panickyHook :: "'d userHook" where
  "panickyHook =
     \<lparr>hookId = 7, BeforeHook = (\<lambda>_. panic ''boom''), AfterHook = (\<lambda>_. panic ''boom''), contextual = None\<rparr>"

definition sampleConn :: "gerr option list conn" where
  "sampleConn =
     \<lparr>connR = scriptRunner 1, connO = sampleOptions, connCtx = Background, connHooks = Some 0,
      connOps = None, connObs = newObservability\<rparr>"

definition samplePool1 :: "gerr option list pool" where
  "samplePool1 =
     \<lparr>poolBegin = (\<lambda>c s. case popScript s of (None, s') \<Rightarrow> (Inr (scriptRunner 2, scriptTx), s') | (Some e, s') \<Rightarrow> (Inl e, s')),
      poolPing = (\<lambda>c. popScript), poolClose = (\<lambda>s. s), poolStat = (\<lambda>s. \<lparr>InUse = 1, Idle = 1, MaxC = 2\<rparr>),
      poolAcquire = None, poolBeginTx = None\<rparr>"

definition sampleDB :: "gerr option list db" where
  "sampleDB =
     \<lparr>dbConn = sampleConn, dbPool = samplePool1, dbRetry = NewRetryPolicy True 3 (100 * Millisecond),
      dbPoolMetrics = None\<rparr>"

definition sampleEnv :: "'d \<Rightarrow> 'd env" where
  "sampleEnv d = \<lparr>clock = 0, cancel_at = (\<lambda>_. None), tie_done = False, drv = d\<rparr>"

definition sampleCollector :: collector where
  "sampleCollector = NewMetricsCollector 0"

definition sampleWorld :: "'d hook list \<Rightarrow> 'd \<Rightarrow> 'd world" where
  "sampleWorld xs d =
     \<lparr>env = sampleEnv d, regs = (\<lambda>_. \<lparr>hs = xs, met = None\<rparr>), mcs = (\<lambda>_. sampleCollector),
      fresh = 1, trace = []\<rparr>"

definition sampleMapper :: "(gerr option list, nat) mapper" where
  "sampleMapper =
     \<lparr>zeroT = 0, collectRows = (\<lambda>r s. (([1, 2], None), s)), collectOneRow = (\<lambda>r s. ((1, None), s)),
      scanRow = (\<lambda>r s. case popScript s of (e, s') \<Rightarrow> ((5, e), s'))\<rparr>"

lemmas fixture_defs = popScript_def scriptTx_def scriptRunner_def sampleOptions_def panickyHook_def
  sampleConn_def samplePool1_def sampleDB_def sampleEnv_def sampleCollector_def sampleWorld_def
  sampleMapper_def newObservability_def NewRetryPolicy_def

lemma sample_simps [simp]:
  "connObs sampleConn = newObservability" "connOps sampleConn = None" "dbConn sampleDB = sampleConn"
  "rpEnabled (dbRetry sampleDB)" "rpMaxCount (dbRetry sampleDB) = 3"
  "obsLogger newObservability" "obsTracer newObservability"
  by (simp_all add: fixture_defs)

end
