(* ===== verification/Statements.thy ===== *)
theory Statements
  imports Fixtures
begin

text \<open>
  The laws of a statement, that is of one attempt of any of the four runners of core.go: the
  hooks registered when it starts are called before and after it, in order and whether they panic
  or not; exactly one statement goes to the runner, with a context that is the caller's bounded
  by \<open>CommandTimeout\<close>; and the error the hooks are told is the one that is returned. The
  interface \<open>statement_op\<close> states them once, the retrying operations are proved against it, and
  each runner is an interpretation.
\<close>

section \<open>What is visible of a statement\<close>

text \<open>The statements and the hook calls of a trace, without log lines, spans and counters.\<close>

fun isVisible :: "event \<Rightarrow> bool" where
  "isVisible (Call i meth c sql args) = True"
| "isVisible (HookCall ph i info) = True"
| "isVisible _ = False"

definition visible :: "event list \<Rightarrow> event list" where
  "visible = filter isVisible"

fun isCall :: "event \<Rightarrow> bool" where
  "isCall (Call i meth c sql args) = True"
| "isCall _ = False"

definition calls :: "event list \<Rightarrow> event list" where
  "calls = filter isCall"

definition hookIds :: "'d hook list \<Rightarrow> nat list" where
  "hookIds xs = concat (map (\<lambda>h. case h of UserHook u \<Rightarrow> [hookId u] | MetricsHook a \<Rightarrow> []) xs)"

definition callHooks :: "phase \<Rightarrow> queryInfo \<Rightarrow> 'd hook list \<Rightarrow> event list" where
  "callHooks ph info xs = map (\<lambda>i. HookCall ph i info) (hookIds xs)"

text \<open>The effect of the after phase on the collectors among the hooks.\<close>

definition countHook :: "queryInfo \<Rightarrow> 'd hook \<Rightarrow> (nat \<Rightarrow> collector) \<Rightarrow> (nat \<Rightarrow> collector)" where
  "countHook info h ms =
     (case h of UserHook u \<Rightarrow> ms | MetricsHook a \<Rightarrow> ms(a := countQuery info (ms a)))"

text \<open>The attempts \<open>errs\<close> of the operation \<open>op1\<close> under the hooks \<open>xs\<close>, as every collector tallies them:
  one count under the status of each attempt and one duration, each as often as the collector is
  registered.\<close>

definition tally ::
  "string \<Rightarrow> 'd hook list \<Rightarrow> gerr option list \<Rightarrow> (nat \<Rightarrow> collector) \<Rightarrow> (nat \<Rightarrow> collector) \<Rightarrow> bool" where
  "tally op1 xs errs ms ms' \<longleftrightarrow>
     (\<forall>a. (\<forall>op2 s. queriesTotal (ms' a) (op2, s) = queriesTotal (ms a) (op2, s)
            + (if op2 = op1
               then count_list xs (MetricsHook a) * length (filter (\<lambda>e. statusLabel e = s) errs) else 0))
        \<and> map fst (queryDuration (ms' a)) = map fst (queryDuration (ms a))
            @ replicate (count_list xs (MetricsHook a) * length errs) op1)"

lemma visible_append [simp]: "visible (xs @ ys) = visible xs @ visible ys"
  by (simp add: visible_def)

lemma visible_simps [simp]:
  "visible [] = []"
  "visible (e # es) = (if isVisible e then e # visible es else visible es)"
  by (simp_all add: visible_def)

lemma calls_append [simp]: "calls (xs @ ys) = calls xs @ calls ys"
  by (simp add: calls_def)

lemma calls_visible: "calls (visible t) = calls t"
  by (induction t rule: rev_induct)
    (auto simp: calls_def visible_def elim!: isVisible.elims isCall.elims)

lemma calls_after:
  assumes "visible t' = visible t @ b"
  shows "length (calls t') = length (calls t) + length (calls b)"
proof -
  have "calls t' = calls t @ calls b"
    using arg_cong [OF assms, of calls] by (simp add: calls_visible)
  then show ?thesis by simp
qed

lemma calls_callHooks [simp]: "calls (callHooks ph info xs) = []"
  by (simp add: calls_def callHooks_def)

lemma callHooks_simps [simp]:
  "callHooks ph info [] = []"
  "callHooks ph info (h # xs) =
     (case h of UserHook u \<Rightarrow> [HookCall ph (hookId u) info] | MetricsHook a \<Rightarrow> []) @ callHooks ph info xs"
  by (auto simp: callHooks_def hookIds_def split: hook.splits)

lemma tally_none: "tally op1 xs [] ms ms"
  by (simp add: tally_def)

lemma tally_more:
  assumes "tally op1 xs errs ms ms'" and "tally op1 xs errs' ms' ms''"
  shows "tally op1 xs (errs @ errs') ms ms''"
  using assms by (auto simp: tally_def algebra_simps replicate_add)

lemma tally_more_hooks:
  assumes "tally op1 xs errs ms ms'" and "tally op1 ys errs ms' ms''"
  shows "tally op1 (xs @ ys) errs ms ms''"
  using assms by (auto simp: tally_def algebra_simps replicate_add)

lemma tally_hook:
  assumes "qiOp info = op1" and "qiErr info = err"
  shows "tally op1 [h] [err] ms (countHook info h ms)"
  using assms by (cases h) (auto simp: tally_def countHook_def countQuery_def Let_def)

lemma tally_hooks:
  assumes "qiOp info = op1" and "qiErr info = err"
  shows "tally op1 xs [err] ms (fold (countHook info) xs ms)"
proof (induction xs arbitrary: ms)
  case Nil
  then show ?case by (simp add: tally_def)
next
  case (Cons h xs)
  then show ?case
    using tally_more_hooks [OF tally_hook [OF assms, of h ms]] by simp
qed

section \<open>Dispatch\<close>

lemma callBefore_effect:
  "visible (trace (snd (callBefore c info h w))) = visible (trace w) @ callHooks Before info [h]"
  "regs (snd (callBefore c info h w)) = regs w"
  "mcs (snd (callBefore c info h w)) = mcs w"
  "fresh (snd (callBefore c info h w)) = fresh w"
  by (auto simp: callBefore_def act_simps split: hook.splits option.splits prod.splits outcome.splits)

lemma callAfter_effect:
  "visible (trace (snd (callAfter c info h w))) = visible (trace w) @ callHooks After info [h]"
  "regs (snd (callAfter c info h w)) = regs w"
  "mcs (snd (callAfter c info h w)) = countHook info h (mcs w)"
  "fresh (snd (callAfter c info h w)) = fresh w"
  by (auto simp: callAfter_def countHook_def mcAfterHook_def act_simps
      split: hook.splits option.splits prod.splits outcome.splits)

text \<open>
  The dispatch loop with a live logger: every hook is served, a panic of one changes nothing for
  the others and never reaches the statement.
\<close>

lemma for_each_recover:
  assumes log: "obsLogger (connObs c)"
    and vis: "\<And>h w. visible (trace (snd (fn h w))) = visible (trace w) @ callHooks ph info [h]"
    and reg: "\<And>h w. regs (snd (fn h w)) = regs w"
    and mc: "\<And>h w. mcs (snd (fn h w)) = g h (mcs w)"
    and fr: "\<And>h w. fresh (snd (fn h w)) = fresh w"
  shows "\<exists>w'. for_each (\<lambda>h. recovering (fn h) (\<lambda>_. logWarn c msg)) xs w = (Ret (), w')
     \<and> regs w' = regs w \<and> mcs w' = fold g xs (mcs w) \<and> fresh w' = fresh w
     \<and> visible (trace w') = visible (trace w) @ callHooks ph info xs"
proof (induction xs arbitrary: w)
  case Nil
  show ?case by (simp add: act_simps)
next
  case (Cons h xs)
  obtain r w1 where f: "fn h w = (r, w1)" by fastforce
  define w2 where "w2 = (case r of Ret _ \<Rightarrow> w1 | Panic _ \<Rightarrow> w1\<lparr>trace := trace w1 @ [LogLine msg]\<rparr>)"
  have step: "recovering (fn h) (\<lambda>_. logWarn c msg) w = (Ret (), w2)"
    using f log by (cases r) (simp_all add: w2_def logWarn_def act_simps)
  have eff: "regs w2 = regs w" "mcs w2 = g h (mcs w)" "fresh w2 = fresh w"
    "visible (trace w2) = visible (trace w) @ callHooks ph info [h]"
    using vis [of h w] reg [of h w] mc [of h w] fr [of h w]
    by (simp_all add: f w2_def split: outcome.splits)
  from Cons.IH [of w2] eff step show ?case
    by (simp add: act_simps)
qed

lemma fireBefore_ok:
  assumes "obsLogger (connObs c)"
  shows "\<exists>w'. fireBeforeContext c parent op1 sql args w = (Ret (), w')
     \<and> regs w' = regs w \<and> mcs w' = mcs w \<and> fresh w' = fresh w
     \<and> visible (trace w') = visible (trace w)
         @ callHooks Before (beforeInfo c op1 sql args) (snapshot (connHooks c) w)"
proof -
  have "fold (\<lambda>_ ms. ms) xs ms = ms" for xs :: "'a hook list" and ms :: "nat \<Rightarrow> collector"
    by (induction xs) auto
  then show ?thesis
    using for_each_recover [OF assms, where fn = "callBefore parent (beforeInfo c op1 sql args)"
        and g = "\<lambda>_ ms. ms" and xs = "snapshot (connHooks c) w" and w = w
        and ph = Before and info = "beforeInfo c op1 sql args"]
    by (auto simp: fireBeforeContext_def eachHook_def callBefore_effect simp del: callHooks_simps)
qed

lemma fireAfter_ok:
  assumes "obsLogger (connObs c)"
  shows "\<exists>w'. fireAfterContext c parent op1 sql args d err rows w = (Ret (), w')
     \<and> regs w' = regs w \<and> fresh w' = fresh w
     \<and> mcs w' = fold (countHook (afterInfo c op1 sql args d err rows)) (snapshot (connHooks c) w) (mcs w)
     \<and> visible (trace w') = visible (trace w)
         @ callHooks After (afterInfo c op1 sql args d err rows) (snapshot (connHooks c) w)"
  using for_each_recover [OF assms,
      where fn = "callAfter parent (afterInfo c op1 sql args d err rows)"
        and g = "countHook (afterInfo c op1 sql args d err rows)"
        and xs = "snapshot (connHooks c) w" and w = w
        and ph = After and info = "afterInfo c op1 sql args d err rows"]
  by (auto simp: fireAfterContext_def eachHook_def callAfter_effect simp del: callHooks_simps)

lemma track_ok:
  assumes "obsLogger (connObs c)"
  shows "\<exists>l. track c start sql w = (Ret (), w\<lparr>trace := trace w @ l\<rparr>) \<and> visible l = []"
  using assms
  by (auto simp: track_def logWarn_def act_simps only_when_def intro: exI [of _ "[]"])

section \<open>One attempt of a statement\<close>

text \<open>
  \<open>bracketed c parent op meth sql args w w' err\<close>: from \<open>w\<close> to \<open>w'\<close> the hooks of \<open>c\<close> and the
  runner saw exactly one statement, the hooks were told the error \<open>err\<close>, and the registries were
  left alone. The deadline of the statement's context is counted from the end of the before
  phase.
\<close>

definition stmtCtx ::
  "'d conn \<Rightarrow> ctx \<Rightarrow> string \<Rightarrow> string \<Rightarrow> gval list \<Rightarrow> 'd world \<Rightarrow> ctx" where
  "stmtCtx c parent op1 sql args w =
     WithDeadline parent
       (clock (env (snd (fireBeforeContext c parent op1 sql args w))) + CommandTimeout (connO c))"

definition bracketed ::
  "'d conn \<Rightarrow> ctx \<Rightarrow> string \<Rightarrow> string \<Rightarrow> string \<Rightarrow> gval list \<Rightarrow> 'd world \<Rightarrow> 'd world \<Rightarrow> gerr option \<Rightarrow> bool"
where
  "bracketed c parent op1 meth sql args w w' err \<longleftrightarrow>
     regs w' = regs w \<and>
     (\<exists>d rows. visible (trace w') = visible (trace w)
        @ callHooks Before (beforeInfo c op1 sql args) (snapshot (connHooks c) w)
        @ [Call (runner_id (connR c)) meth (stmtCtx c parent op1 sql args w) sql args]
        @ callHooks After (afterInfo c op1 sql args d err rows) (snapshot (connHooks c) w)
      \<and> mcs w' = fold (countHook (afterInfo c op1 sql args d err rows))
                  (snapshot (connHooks c) w) (mcs w))"

text \<open>The tail every runner ends with: the slow-query line and the after phase.\<close>

lemma after_phase:
  assumes "obsLogger (connObs c)"
  shows "\<exists>w' d. andThen (track c start sql) (\<lambda>_. andThen (since start) (\<lambda>d.
       andThen (fireAfterContext c parent op1 sql args d err rows) (\<lambda>_. ret x))) w = (Ret x, w')
     \<and> regs w' = regs w \<and> fresh w' = fresh w
     \<and> mcs w' = fold (countHook (afterInfo c op1 sql args d err rows)) (snapshot (connHooks c) w) (mcs w)
     \<and> visible (trace w') = visible (trace w)
         @ callHooks After (afterInfo c op1 sql args d err rows) (snapshot (connHooks c) w)"
proof -
  obtain l where l: "track c start sql w = (Ret (), w\<lparr>trace := trace w @ l\<rparr>)" "visible l = []"
    using track_ok [OF assms] by blast
  show ?thesis
    using fireAfter_ok [OF assms, of parent op1 sql args "clock (env w) - start" err rows
        "w\<lparr>trace := trace w @ l\<rparr>"] l
    by (fastforce simp: act_simps)
qed

text \<open>
  Every runner has this shape: the before phase, the deadline, the start time, a body that sends
  one statement, and the tail above.
\<close>

lemma statement_shape:
  fixes body :: "ctx \<Rightarrow> int \<Rightarrow> ('d world, 'a \<times> gerr option) act"
  assumes log: "obsLogger (connObs c)"
    and body: "\<And>cc start w1. \<exists>w2 v err rows. regs w2 = regs w1 \<and> mcs w2 = mcs w1
      \<and> visible (trace w2) = visible (trace w1) @ [Call (runner_id (connR c)) meth cc sql args]
      \<and> body cc start w1 = andThen (track c start sql) (\<lambda>_. andThen (since start) (\<lambda>d.
           andThen (fireAfterContext c parent op1 sql args d err rows) (\<lambda>_. ret (v, err)))) w2"
  shows "\<exists>r w'. andThen (fireBeforeContext c parent op1 sql args) (\<lambda>_.
       andThen (timeout parent (CommandTimeout (connO c))) (\<lambda>cctx. andThen now (body cctx))) w = (Ret r, w')
     \<and> bracketed c parent op1 meth sql args w w' (snd r)"
proof -
  let ?cc = "stmtCtx c parent op1 sql args w"
  obtain w1 where f: "fireBeforeContext c parent op1 sql args w = (Ret (), w1)"
    and w1: "regs w1 = regs w" "mcs w1 = mcs w"
    "visible (trace w1) = visible (trace w)
       @ callHooks Before (beforeInfo c op1 sql args) (snapshot (connHooks c) w)"
    using fireBefore_ok [OF log] by blast
  obtain w2 v err rows where w2: "regs w2 = regs w1" "mcs w2 = mcs w1"
    "visible (trace w2) = visible (trace w1) @ [Call (runner_id (connR c)) meth ?cc sql args]"
    and b: "body ?cc (clock (env w1)) w1 =
       andThen (track c (clock (env w1)) sql) (\<lambda>_. andThen (since (clock (env w1))) (\<lambda>d.
         andThen (fireAfterContext c parent op1 sql args d err rows) (\<lambda>_. ret (v, err)))) w2"
    using body [of w1 ?cc "clock (env w1)"] by blast
  obtain w' d where a: "andThen (track c (clock (env w1)) sql) (\<lambda>_.
        andThen (since (clock (env w1))) (\<lambda>d.
        andThen (fireAfterContext c parent op1 sql args d err rows) (\<lambda>_. ret (v, err)))) w2
      = (Ret (v, err), w')"
    and w': "regs w' = regs w2"
    "mcs w' = fold (countHook (afterInfo c op1 sql args d err rows)) (snapshot (connHooks c) w2) (mcs w2)"
    "visible (trace w') = visible (trace w2)
       @ callHooks After (afterInfo c op1 sql args d err rows) (snapshot (connHooks c) w2)"
    using after_phase [OF log, of "clock (env w1)" sql parent op1 args err rows "(v, err)" w2]
    by blast
  have snap: "snapshot (connHooks c) w2 = snapshot (connHooks c) w"
    by (rule snapshot_regs) (simp add: w1(1) w2(1))
  have "bracketed c parent op1 meth sql args w w' err"
    unfolding bracketed_def
    using w'(2,3) w1 w2 w'(1) by (intro conjI exI [of _ d] exI [of _ rows]) (simp_all only: snap append_assoc)
  moreover have "?cc = WithDeadline parent (clock (env w1) + CommandTimeout (connO c))"
    by (simp add: stmtCtx_def f)
  ultimately show ?thesis
    using b a by (simp add: andThen_app [of "fireBeforeContext _ _ _ _ _"] f
        andThen_app [of "timeout _ _"] andThen_app [of now] timeout_app now_app)
qed

lemmas call_simps = andThen_assoc andThen_app [of "emit _"] andThen_app [of "driver _"]
  emit_app driver_app callExec_def callQuery_def callQueryRow_def

lemma exec_bracket:
  assumes "obsLogger (connObs c)"
  shows "\<exists>r w'. connExecuteContext c parent sql args w = (Ret r, w')
     \<and> bracketed c parent OpExec ''Exec'' sql args w w' (snd r)"
  unfolding connExecuteContext_def
proof (rule statement_shape [OF assms], goal_cases)
  case (1 cc start w1)
  obtain n err s where "rExec (connR c) cc sql args (env w1) = ((n, err), s)"
    by (metis surj_pair)
  then show ?case
    by (intro exI [of _ "w1\<lparr>trace := trace w1 @ [Call (runner_id (connR c)) ''Exec'' cc sql args], env := s\<rparr>"]
        exI [of _ "if err = None then n else 0"] exI [of _ err]
        exI [of _ "if err = None then n else rowsUnknown"])
      (cases err; simp add: call_simps)
qed

lemma scalar_bracket:
  assumes "obsLogger (connObs c)"
  shows "\<exists>r w'. runScalarContext m parent c sql args w = (Ret r, w')
     \<and> bracketed c parent OpScalar ''QueryRow'' sql args w w' (snd r)"
  unfolding runScalarContext_def
proof (rule statement_shape [OF assms], goal_cases)
  case (1 cc start w1)
  obtain row s where "rQueryRow (connR c) cc sql args (env w1) = (row, s)"
    by (metis surj_pair)
  moreover obtain v err s' where "scanRow m row s = ((v, err), s')"
    by (metis surj_pair)
  ultimately show ?case
    by (intro exI [of _ "w1\<lparr>trace := trace w1 @ [Call (runner_id (connR c)) ''QueryRow'' cc sql args], env := s'\<rparr>"]
        exI [of _ v] exI [of _ err] exI [of _ rowsUnknown])
      (simp add: call_simps)
qed

lemma query_bracket:
  assumes "obsLogger (connObs c)"
  shows "\<exists>r w'. runQueryContext m parent c sql args w = (Ret r, w')
     \<and> bracketed c parent OpQuery ''Query'' sql args w w' (snd r)"
  unfolding runQueryContext_def
proof (rule statement_shape [OF assms], goal_cases)
  case (1 cc start w1)
  obtain rows err s where q: "rQuery (connR c) cc sql args (env w1) = ((rows, err), s)"
    by (metis surj_pair)
  obtain out err' s' where r: "collectRows m rows s = ((out, err'), s')"
    by (metis surj_pair)
  show ?case
  proof (cases err)
    case (Some e)
    with q show ?thesis
      by (intro exI [of _ "w1\<lparr>trace := trace w1 @ [Call (runner_id (connR c)) ''Query'' cc sql args], env := s\<rparr>"]
          exI [of _ "[]"] exI [of _ err] exI [of _ rowsUnknown])
        (simp add: call_simps)
  next
    case None
    with q r show ?thesis
      by (intro exI [of _ "w1\<lparr>trace := trace w1 @ [Call (runner_id (connR c)) ''Query'' cc sql args], env := s'\<rparr>"]
          exI [of _ out] exI [of _ err']
          exI [of _ "if err' = None then int (length out) else rowsUnknown"])
        (cases err'; simp add: call_simps)
  qed
qed

lemma query_row_bracket:
  assumes "obsLogger (connObs c)"
  shows "\<exists>r w'. runQueryRowContext m parent c sql args w = (Ret r, w')
     \<and> bracketed c parent OpQueryRow ''Query'' sql args w w' (snd r)"
  unfolding runQueryRowContext_def
proof (rule statement_shape [OF assms], goal_cases)
  case (1 cc start w1)
  obtain rows err s where q: "rQuery (connR c) cc sql args (env w1) = ((rows, err), s)"
    by (metis surj_pair)
  obtain val err' s' where r: "collectOneRow m rows s = ((val, err'), s')"
    by (metis surj_pair)
  show ?case
  proof (cases err)
    case (Some e)
    with q show ?thesis
      by (intro exI [of _ "w1\<lparr>trace := trace w1 @ [Call (runner_id (connR c)) ''Query'' cc sql args], env := s\<rparr>"]
          exI [of _ "(zeroT m, False)"] exI [of _ err] exI [of _ rowsUnknown])
        (simp add: call_simps)
  next
    case None
    define norows where "norows = (\<exists>e. err' = Some e \<and> errIs e ErrNoRows)"
    from None q r show ?thesis
      by (intro exI [of _ "w1\<lparr>trace := trace w1 @ [Call (runner_id (connR c)) ''Query'' cc sql args], env := s'\<rparr>"]
          exI [of _ "if err' = None then (val, True) else (zeroT m, False)"]
          exI [of _ "if norows then None else err'"]
          exI [of _ "if err' = None then 1 else if norows then 0 else rowsUnknown"])
        (cases err'; simp add: call_simps norows_def)
  qed
qed

section \<open>The interface of a statement and its retries\<close>

text \<open>
  \<open>attemptsTrace c parent op meth sql args xs errs t\<close>: the visible trace \<open>t\<close> of a sequence of
  attempts of one statement under the hooks \<open>xs\<close>, one bracket per attempt, the attempts ending
  with the errors \<open>errs\<close>.
\<close>

inductive attemptsTrace ::
  "'d conn \<Rightarrow> ctx \<Rightarrow> string \<Rightarrow> string \<Rightarrow> string \<Rightarrow> gval list \<Rightarrow> 'd hook list
     \<Rightarrow> gerr option list \<Rightarrow> event list \<Rightarrow> bool"
  for c parent op1 meth sql args xs where
  no_attempt: "attemptsTrace c parent op1 meth sql args xs [] []"
| one_more: "attemptsTrace c parent op1 meth sql args xs errs t \<Longrightarrow>
     attemptsTrace c parent op1 meth sql args xs (err # errs)
       (callHooks Before (beforeInfo c op1 sql args) xs
        @ [Call (runner_id (connR c)) meth (WithDeadline parent dl) sql args]
        @ callHooks After (afterInfo c op1 sql args d err rows) xs @ t)"

text \<open>How a retry loop that ran the attempts \<open>errs\<close> (from number \<open>k\<close> on) may end with \<open>e\<close>: with the
  last attempt's result, permanent or out of attempts, or interrupted in a backoff.\<close>

definition loopEnd :: "retryPolicy \<Rightarrow> nat \<Rightarrow> gerr option list \<Rightarrow> gerr option \<Rightarrow> bool" where
  "loopEnd p k errs e \<longleftrightarrow>
     errs \<noteq> [] \<and> list_all IsTransient (butlast errs) \<and>
     int (length errs) \<le> max 0 (rpMaxCount p - int k) + 1 \<and>
     (e = last errs \<and> (\<not> IsTransient e \<or> rpMaxCount p < int k + int (length errs))
      \<or> (\<exists>x se. last errs = Some x \<and> IsTransient (Some x) \<and>
           e = Some (Joined [x, wrapE ''database: retry aborted: '' se])))"

lemma attemptsTrace_calls:
  assumes "attemptsTrace c parent op1 meth sql args xs errs t"
  shows "length (calls t) = length errs"
  using assms by induction (simp_all add: calls_def callHooks_def)

lemma loopEnd_Cons:
  assumes "loopEnd p (Suc k) errs e" and "IsTransient x" and "int k < rpMaxCount p"
  shows "loopEnd p k (x # errs) e"
  using assms by (auto simp: loopEnd_def)

locale statement_op =
  fixes run :: "('d world, 'a \<times> gerr option) act"
    and c :: "'d conn" and parent :: ctx
    and op1 :: string and meth :: string and sql :: string and args :: "gval list"
  assumes bracket: "obsLogger (connObs c) \<Longrightarrow>
    \<exists>r w'. run w = (Ret r, w') \<and> bracketed c parent op1 meth sql args w w' (snd r)"
begin

lemma run_attempt:
  assumes "obsLogger (connObs c)"
  obtains v err w' b where "run w = (Ret (v, err), w')" "regs w' = regs w"
    "visible (trace w') = visible (trace w) @ b"
    "tally op1 (snapshot (connHooks c) w) [err] (mcs w) (mcs w')"
    "\<And>errs t. attemptsTrace c parent op1 meth sql args (snapshot (connHooks c) w) errs t \<Longrightarrow>
       attemptsTrace c parent op1 meth sql args (snapshot (connHooks c) w) (err # errs) (b @ t)"
proof -
  obtain v err w' where r: "run w = (Ret (v, err), w')"
    and b: "bracketed c parent op1 meth sql args w w' err"
    using bracket [OF assms, of w] by (metis prod.collapse)
  from b obtain d rows where "regs w' = regs w" "visible (trace w') = visible (trace w)
        @ callHooks Before (beforeInfo c op1 sql args) (snapshot (connHooks c) w)
        @ [Call (runner_id (connR c)) meth (stmtCtx c parent op1 sql args w) sql args]
        @ callHooks After (afterInfo c op1 sql args d err rows) (snapshot (connHooks c) w)"
    and mc: "mcs w' = fold (countHook (afterInfo c op1 sql args d err rows)) (snapshot (connHooks c) w) (mcs w)"
    unfolding bracketed_def by blast
  moreover have "tally op1 (snapshot (connHooks c) w) [err] (mcs w) (mcs w')"
    unfolding mc by (rule tally_hooks) (simp_all add: afterInfo_def)
  ultimately show thesis
    using r by (intro that) (auto simp: stmtCtx_def intro: attemptsTrace.one_more [simplified])
qed

lemma doLoop_attempts:
  assumes "rpEnabled p" and log: "obsLogger (connObs c)"
  shows "\<exists>v e w' errs t. doLoop p b run k w = (Ret (v, e), w') \<and> regs w' = regs w
     \<and> visible (trace w') = visible (trace w) @ t
     \<and> attemptsTrace c parent op1 meth sql args (snapshot (connHooks c) w) errs t
     \<and> loopEnd p k errs e \<and> tally op1 (snapshot (connHooks c) w) errs (mcs w) (mcs w')"
  using assms(1)
proof (induction "nat (rpMaxCount p - int k)" arbitrary: k w rule: less_induct)
  case less
  obtain v err w1 br where r: "run w = (Ret (v, err), w1)" "regs w1 = regs w"
    "visible (trace w1) = visible (trace w) @ br"
    and tl: "tally op1 (snapshot (connHooks c) w) [err] (mcs w) (mcs w1)"
    and r4:
    "\<And>errs t. attemptsTrace c parent op1 meth sql args (snapshot (connHooks c) w) errs t \<Longrightarrow>
       attemptsTrace c parent op1 meth sql args (snapshot (connHooks c) w) (err # errs) (br @ t)"
    using run_attempt [OF log] by metis
  have one: "attemptsTrace c parent op1 meth sql args (snapshot (connHooks c) w) [err] br"
    using r4 [OF attemptsTrace.no_attempt] by simp
  show ?case
  proof (cases "shouldRetry p err k")
    case False
    then have "doLoop p b run k w = (Ret (v, err), w1)"
      by (subst doLoop.simps) (cases err; simp add: r(1))
    moreover have "loopEnd p k [err] err"
      using False less.prems by (cases err) (auto simp: loopEnd_def shouldRetry_iff)
    ultimately show ?thesis using one r(2,3) tl by blast
  next
    case True
    then obtain e where e: "err = Some e" and k: "int k < rpMaxCount p" "IsTransient err"
      by (auto simp: shouldRetry_def split: if_splits)
    obtain se w2 where s: "sleep p b k (retryNotice p w1) = (se, w2)" by fastforce
    have w2: "regs w2 = regs w" "mcs w2 = mcs w1" "visible (trace w2) = visible (trace w) @ br"
      using sleep_frame(1,2) [of p b k "retryNotice p w1"] sleep_trace [of p b k "retryNotice p w1"] r(2,3)
      by (simp_all add: s retryNotice_frame retryNotice_trace)
    show ?thesis
    proof (cases se)
      case (Some x)
      then have "doLoop p b run k w =
          (Ret (v, Some (Joined [e, wrapE ''database: retry aborted: '' x])), w2)"
        using True by (subst doLoop.simps) (simp add: r(1) e s)
      moreover have "loopEnd p k [err] (Some (Joined [e, wrapE ''database: retry aborted: '' x]))"
        using k by (auto simp: loopEnd_def e)
      ultimately show ?thesis using one w2 tl by metis
    next
      case None
      then have d: "doLoop p b run k w = doLoop p b run (Suc k) w2"
        using True by (subst doLoop.simps) (simp add: r(1) e s)
      have "nat (rpMaxCount p - int (Suc k)) < nat (rpMaxCount p - int k)"
        using k by simp
      from less.hyps [OF this less.prems, of w2] obtain v' e' w' errs t
        where "doLoop p b run (Suc k) w2 = (Ret (v', e'), w')" "regs w' = regs w2"
          "visible (trace w') = visible (trace w2) @ t"
          "attemptsTrace c parent op1 meth sql args (snapshot (connHooks c) w2) errs t"
          "loopEnd p (Suc k) errs e'"
          "tally op1 (snapshot (connHooks c) w2) errs (mcs w2) (mcs w')"
        by blast
      moreover have "snapshot (connHooks c) w2 = snapshot (connHooks c) w"
        by (rule snapshot_regs) (rule w2(1))
      ultimately show ?thesis
        using d r4 loopEnd_Cons [OF _ k(2,1)] w2 tally_more [OF tl] by (metis append_Cons append_Nil append_assoc)
    qed
  qed
qed

lemma retry_attempts:
  assumes "rpEnabled p" and "obsLogger (connObs c)"
  shows "\<exists>v e w' errs t. retryDo b p run w = (Ret (v, e), w') \<and> regs w' = regs w
     \<and> visible (trace w') = visible (trace w) @ t
     \<and> attemptsTrace c parent op1 meth sql args (snapshot (connHooks c) w) errs t
     \<and> loopEnd p 0 errs e \<and> tally op1 (snapshot (connHooks c) w) errs (mcs w) (mcs w')"
  using doLoop_attempts [OF assms] assms(1) by (simp add: retryDo_def)

lemma retry_calls:
  assumes "obsLogger (connObs c)"
  shows "\<exists>n. length (calls (trace (snd (retryDo b p run w)))) = length (calls (trace w)) + n
     \<and> 1 \<le> n \<and> int n \<le> (if rpEnabled p then max 0 (rpMaxCount p) else 0) + 1"
proof (cases "rpEnabled p")
  case True
  from retry_attempts [OF this assms] obtain v e w' errs t where
    "retryDo b p run w = (Ret (v, e), w')" "visible (trace w') = visible (trace w) @ t"
    "attemptsTrace c parent op1 meth sql args (snapshot (connHooks c) w) errs t"
    and l: "loopEnd p 0 errs e"
    by blast
  then have "length (calls (trace w')) = length (calls (trace w)) + length errs"
    by (simp add: attemptsTrace_calls calls_after)
  moreover from l have "1 \<le> length errs" "int (length errs) \<le> max 0 (rpMaxCount p) + 1"
    by (auto simp: loopEnd_def Suc_le_eq)
  ultimately show ?thesis
    using True \<open>retryDo b p run w = (Ret (v, e), w')\<close> by auto
next
  case False
  obtain v err w' br where r: "run w = (Ret (v, err), w')" "visible (trace w') = visible (trace w) @ br"
    "\<And>errs t. attemptsTrace c parent op1 meth sql args (snapshot (connHooks c) w) errs t \<Longrightarrow>
       attemptsTrace c parent op1 meth sql args (snapshot (connHooks c) w) (err # errs) (br @ t)"
    using run_attempt [OF assms] by metis
  have "length (calls (br @ [])) = length [err]"
    by (rule attemptsTrace_calls) (rule r(3) [OF attemptsTrace.no_attempt])
  with r(2) have "length (calls (trace w')) = length (calls (trace w)) + 1"
    by (simp add: calls_after)
  with False r(1) show ?thesis
    by (intro exI [of _ 1]) (simp add: retryDo_def)
qed

end

interpretation exec: statement_op "connExecuteContext c parent sql args" c parent OpExec "''Exec''" sql args
  for c parent sql args
  by unfold_locales (rule exec_bracket)

interpretation query: statement_op "runQueryContext m parent c sql args" c parent OpQuery "''Query''" sql args
  for m c parent sql args
  by unfold_locales (rule query_bracket)

interpretation query_row: statement_op "runQueryRowContext m parent c sql args" c parent OpQueryRow "''Query''" sql args
  for m c parent sql args
  by unfold_locales (rule query_row_bracket)

interpretation scalar: statement_op "runScalarContext m parent c sql args" c parent OpScalar "''QueryRow''" sql args
  for m c parent sql args
  by unfold_locales (rule scalar_bracket)

end
