(* ===== verification/Retry_Properties.thy ===== *)
theory Retry_Properties
  imports Statements
begin

text \<open>
  The properties of the retry policy (resilience.go) and of the statements that run under it
  (core.go).
\<close>

section \<open>Attempts of the public operations\<close>

lemma withSpan_calls:
  "calls (trace (snd (withSpan c operation fn w))) =
     calls (trace (snd (fn (case connOps c of None \<Rightarrow> w
        | Some t \<Rightarrow> w\<lparr>env := spanStart t (''db.'' @ operation) (env w)\<rparr>))))"
  by (auto simp: withSpan_def act_simps split: option.splits prod.splits outcome.splits)

lemmas db_op_defs = dbExecute_def dbQuery_def dbQueryRow_def dbScalar_def retried_def
  connExecute_Context runQuery_def runQueryRow_def runScalar_def

lemma execute_tally:
  assumes "obsLogger (connObs (dbConn d))" and "connOps (dbConn d) = None" and "rpEnabled (dbRetry d)"
  obtains n e w' errs t where "dbExecute d sql args w = (Ret (n, e), w')" "regs w' = regs w"
    "visible (trace w') = visible (trace w) @ t"
    "attemptsTrace (dbConn d) (base (dbConn d)) OpExec ''Exec'' sql args
       (snapshot (connHooks (dbConn d)) w) errs t"
    "loopEnd (dbRetry d) 0 errs e"
    "tally OpExec (snapshot (connHooks (dbConn d)) w) errs (mcs w) (mcs w')"
proof -
  let ?b = "base (dbConn d)"
  have "dbExecute d sql args = retryDo ?b (dbRetry d) (connExecuteContext (dbConn d) ?b sql args)"
    using assms(2) by (simp add: db_op_defs withSpan_def)
  then show thesis
    using exec.retry_attempts [OF assms(3,1), where parent = ?b and b = ?b and sql = sql
        and args = args and w = w] that by auto
qed

text \<open>C1: an enabled \<open>DB.Execute\<close> always returns. What it did is a sequence of attempts, each one
  the before calls of all hooks, one \<open>Exec\<close> with the caller's context bounded by a deadline,
  and the after calls with the error of that attempt. Every attempt but the last failed with a
  transient error, there are at most \<open>RetryMaxCount + 1\<close>, and the result is the last attempt's
  unless a backoff was interrupted, which joins both errors.\<close>
theorem execute_attempts:
  assumes "obsLogger (connObs (dbConn d))" and "connOps (dbConn d) = None"
    and "rpEnabled (dbRetry d)"
  shows "\<exists>n e w' errs t. dbExecute d sql args w = (Ret (n, e), w')
     \<and> visible (trace w') = visible (trace w) @ t
     \<and> attemptsTrace (dbConn d) (base (dbConn d)) OpExec ''Exec'' sql args
         (snapshot (connHooks (dbConn d)) w) errs t
     \<and> loopEnd (dbRetry d) 0 errs e"
  using execute_tally [OF assms] by metis

theorem execute_attempts_witness:
  "\<exists>n e w' errs t. dbExecute sampleDB ''DELETE'' [] (sampleWorld [UserHook panickyHook] [Some (Msg ''eof''), None])
        = (Ret (n, e), w')
     \<and> visible (trace w') = [] @ t
     \<and> attemptsTrace sampleConn (base sampleConn) OpExec ''Exec'' ''DELETE'' []
         [UserHook panickyHook] errs t
     \<and> loopEnd (dbRetry sampleDB) 0 errs e"
  using execute_attempts [of sampleDB "''DELETE''" "[]"
      "sampleWorld [UserHook panickyHook] [Some (Msg ''eof''), None]"]
  by (simp add: sampleWorld_def snapshot_def hr_snapshot_def sampleConn_def)

lemma withSpan_bounded:
  assumes "\<And>w. \<exists>n. length (calls (trace (snd (fn w)))) = length (calls (trace w)) + n \<and> P n"
  shows "\<exists>n. length (calls (trace (snd (withSpan c operation fn w)))) = length (calls (trace w)) + n \<and> P n"
  unfolding withSpan_calls
  by (cases "connOps c") (use assms [of w] assms [of "w\<lparr>env := s\<rparr>" for s] in simp_all)

text \<open>C3: whatever the telemetry client and the hooks do, each of \<open>Execute\<close>, \<open>Query\<close>, \<open>QueryRow\<close>
  and \<open>Scalar\<close> sends at least one and at most \<open>RetryMaxCount + 1\<close> statements to the pool, and
  exactly one when the policy is disabled.\<close>
theorem db_statements_bounded:
  assumes "obsLogger (connObs (dbConn d))"
    and "w' \<in> {snd (dbExecute d sql args w), snd (dbQuery m1 d sql args w),
      snd (dbQueryRow m2 d sql args w), snd (dbScalar m3 d sql args w)}"
  shows "\<exists>n. length (calls (trace w')) = length (calls (trace w)) + n
     \<and> 1 \<le> n \<and> int n \<le> (if rpEnabled (dbRetry d) then max 0 (rpMaxCount (dbRetry d)) else 0) + 1"
proof -
  let ?P = "\<lambda>n. 1 \<le> n \<and> int n \<le> (if rpEnabled (dbRetry d) then max 0 (rpMaxCount (dbRetry d)) else 0) + 1"
  note spanned = withSpan_bounded [where P = ?P]
  have "\<exists>n. length (calls (trace (snd (dbExecute d sql args w)))) = length (calls (trace w)) + n \<and> ?P n"
    unfolding db_op_defs by (rule spanned) (rule exec.retry_calls [OF assms(1)])
  moreover have "\<exists>n. length (calls (trace (snd (dbQuery m1 d sql args w)))) = length (calls (trace w)) + n \<and> ?P n"
    unfolding db_op_defs by (rule spanned) (rule query.retry_calls [OF assms(1)])
  moreover have "\<exists>n. length (calls (trace (snd (dbQueryRow m2 d sql args w)))) = length (calls (trace w)) + n \<and> ?P n"
    unfolding db_op_defs by (rule spanned) (rule query_row.retry_calls [OF assms(1)])
  moreover have "\<exists>n. length (calls (trace (snd (dbScalar m3 d sql args w)))) = length (calls (trace w)) + n \<and> ?P n"
    unfolding db_op_defs by (rule scalar.retry_calls [OF assms(1)])
  ultimately show ?thesis using assms(2) by blast
qed

theorem db_statements_bounded_witness:
  "\<exists>n. length (calls (trace (snd (dbScalar sampleMapper sampleDB ''SELECT 1'' [] (sampleWorld [] [])))))
     = length (calls (trace (sampleWorld [] ([] :: gerr option list)))) + n \<and> 1 \<le> n \<and> int n \<le> 4"
  using db_statements_bounded [of sampleDB
      "snd (dbScalar sampleMapper sampleDB ''SELECT 1'' [] (sampleWorld [] []))"
      "''SELECT 1''" "[]" "sampleWorld [] []" sampleMapper sampleMapper sampleMapper]
  by simp

section \<open>Permanent errors\<close>

text \<open>C6: an error that carries one of the permanent SQLSTATEs, or that is a cancellation or a
  missed deadline however deeply wrapped or joined, ends the operation at the first attempt: the
  policy adds no attempt, no wait and no event.\<close>
theorem permanent_error_not_retried:
  assumes "fn w = (Ret (v, Some e), w')"
    and "errIs e Canceled \<or> errIs e DeadlineExceeded
      \<or> (\<exists>code \<in> {''42601'', ''23505'', ''23503'', ''42501'', ''42P01'', ''42703''}. asPgError e = Some code)"
  shows "retryDo c p fn w = (Ret (v, Some e), w')"
proof -
  have "\<not> IsTransient (Some e)"
    using assms(2) by (auto simp: IsTransient_def nonTransientSQLStates_def)
  then have "\<not> shouldRetry p (Some e) 0" by (simp add: shouldRetry_iff)
  then show ?thesis
    using assms(1) by (simp add: retryDo_def doLoop.simps [of p c fn 0 w])
qed

theorem permanent_error_not_retried_witness:
  "retryDo Background (NewRetryPolicy True 3 1)
     (\<lambda>w. (Ret ((), Some (wrapE ''db: '' (PgError ''23505'' ''dup''))), w)) (sampleWorld [] ())
   = (Ret ((), Some (wrapE ''db: '' (PgError ''23505'' ''dup''))), sampleWorld [] ())"
  by (rule permanent_error_not_retried) simp_all

section \<open>The bounded loop is the unbounded one, cut off\<close>

text \<open>C7: with the policy enabled, \<open>do\<close> is the loop that retries transient errors without a bound,
  stopped after \<open>maxCount\<close> retries: its result is what the attempt number \<open>n\<close> of that loop
  gives, for an \<open>n\<close> that is at most \<open>maxCount\<close> and is smaller only when the unbounded loop has no
  further attempt.\<close>
theorem retry_is_truncated_loop:
  assumes "rpEnabled p"
  shows "\<exists>n wn. attemptWorld p c fn 0 n w = Some wn \<and> int n \<le> max 0 (rpMaxCount p)
     \<and> retryDo c p fn w = lastAttempt p c fn n wn
     \<and> (int n < rpMaxCount p \<longrightarrow> attemptWorld p c fn 0 (Suc n) w = None)"
  using doLoop_reference [OF assms, of c fn 0 w] assms by (simp add: retryDo_def)

theorem retry_is_truncated_loop_witness:
  "\<exists>n wn. attemptWorld (NewRetryPolicy True 3 1) Background (\<lambda>w. (Ret ((), Some (Msg ''eof'')), w)) 0 n
        (sampleWorld [] ()) = Some wn \<and> int n \<le> 3
     \<and> retryDo Background (NewRetryPolicy True 3 1) (\<lambda>w. (Ret ((), Some (Msg ''eof'')), w)) (sampleWorld [] ())
        = lastAttempt (NewRetryPolicy True 3 1) Background (\<lambda>w. (Ret ((), Some (Msg ''eof'')), w)) n wn"
  using retry_is_truncated_loop [of "NewRetryPolicy True 3 1" Background
      "\<lambda>w. (Ret ((), Some (Msg ''eof'')), w)" "sampleWorld [] ()"]
  by (auto simp: NewRetryPolicy_def)

section \<open>Backoff\<close>

lemma doLoop_all_transient:
  assumes fn: "\<And>w. fst (fn w) = Ret (v, Some e)" "\<And>w. clock (env (snd (fn w))) = clock (env w)"
    and e: "IsTransient (Some e)" and p: "rpEnabled p" "0 \<le> rpBaseDelay p"
    and fits: "rpBaseDelay p * 2 ^ nat (rpMaxCount p) < 2 ^ 63" and k: "int k \<le> rpMaxCount p"
  shows "fst (doLoop p Background fn k w) = Ret (v, Some e)
     \<and> clock (env (snd (doLoop p Background fn k w)))
        = clock (env w) + rpBaseDelay p * (2 ^ nat (rpMaxCount p) - 2 ^ k)"
  using k
proof (induction "nat (rpMaxCount p - int k)" arbitrary: k w rule: less_induct)
  case less
  obtain w1 where w1: "fn w = (Ret (v, Some e), w1)" and c1: "clock (env w1) = clock (env w)"
    using fn by (metis prod.collapse)
  show ?case
  proof (cases "int k < rpMaxCount p")
    case False
    with less.prems have "k = nat (rpMaxCount p)" by simp
    moreover have "doLoop p Background fn k w = (Ret (v, Some e), w1)"
      using False by (subst doLoop.simps) (simp add: w1 shouldRetry_iff)
    ultimately show ?thesis by (simp add: c1)
  next
    case True
    obtain w2 where s: "sleep p Background k (retryNotice p w1) = (None, w2)"
      by (simp add: sleep_def Let_def)
    have "(2 :: int) ^ k \<le> 2 ^ nat (rpMaxCount p)"
      using True by (intro power_increasing) simp_all
    then have "rpBaseDelay p * 2 ^ k \<le> rpBaseDelay p * 2 ^ nat (rpMaxCount p)"
      using p(2) by (rule mult_left_mono)
    then have "rpBaseDelay p * 2 ^ k < 2 ^ 63" using fits by (rule le_less_trans)
    then have c2: "clock (env w2) = clock (env w) + rpBaseDelay p * 2 ^ k"
      using sleep_timer [OF s] backoffDelay_exact [OF p(2), of k] p(2)
      by (simp add: retryNotice_frame c1)
    have "doLoop p Background fn k w = doLoop p Background fn (Suc k) w2"
      using True e p(1) by (subst doLoop.simps) (simp add: w1 shouldRetry_iff s)
    with less.hyps [of "Suc k" w2] True c2 show ?thesis
      by (simp add: algebra_simps)
  qed
qed

text \<open>The waits double. When every attempt fails with a transient error and takes no time,
  an enabled policy gives up with that error after waiting
  \<open>baseDelay * (1 + 2 + ... + 2^(maxCount-1))\<close> in total, provided the last delay fits 63 bits.\<close>
theorem retry_total_backoff:
  assumes "\<And>w. fst (fn w) = Ret (v, Some e)" "\<And>w. clock (env (snd (fn w))) = clock (env w)"
    and "IsTransient (Some e)" "rpEnabled p" "0 \<le> rpBaseDelay p" "0 \<le> rpMaxCount p"
    and "rpBaseDelay p * 2 ^ nat (rpMaxCount p) < 2 ^ 63"
  shows "fst (retryDo Background p fn w) = Ret (v, Some e)
     \<and> clock (env (snd (retryDo Background p fn w)))
        = clock (env w) + rpBaseDelay p * (2 ^ nat (rpMaxCount p) - 1)"
  using doLoop_all_transient [OF assms(1-5,7), of 0 w] assms(4,6) by (simp add: retryDo_def)

theorem retry_total_backoff_witness:
  "clock (env (snd (retryDo Background (NewRetryPolicy True 3 100)
      (\<lambda>w. (Ret ((), Some (Msg ''eof'')), w)) (sampleWorld [] ())))) = 700"
  using retry_total_backoff [of "\<lambda>w :: unit world. (Ret ((), Some (Msg ''eof'')), w)" "()" "Msg ''eof''"
      "NewRetryPolicy True 3 100" "sampleWorld [] ()"]
  by (simp add: NewRetryPolicy_def IsTransient_def Canceled_def DeadlineExceeded_def sampleWorld_def
      sampleEnv_def)

text \<open>The loop gets to every attempt of the unbounded one that it may still make.\<close>

lemma doLoop_attempt:
  assumes "attemptWorld p c fn k n w = Some wn" and "rpEnabled p" and "int (k + n) \<le> rpMaxCount p"
  shows "doLoop p c fn k w = doLoop p c fn (k + n) wn"
  using assms(1,3)
proof (induction n arbitrary: k w)
  case (Suc n)
  then obtain v e w1 w2 where a: "fn w = (Ret (v, Some e), w1)" "IsTransient (Some e)"
    "sleep p c k (retryNotice p w1) = (None, w2)" "attemptWorld p c fn (Suc k) n w2 = Some wn"
    by (auto split: prod.splits outcome.splits option.splits if_splits)
  have "doLoop p c fn k w = doLoop p c fn (Suc k) w2"
    using a assms(2) Suc.prems(2) by (simp add: doLoop.simps [of p c fn k w] shouldRetry_iff)
  with Suc.IH [OF a(4)] Suc.prems(2) show ?case by simp
qed simp

text \<open>C8: an interrupted backoff hides neither failure. Whichever attempt fails with a transient error while
  another is allowed, when the context is done before the delay after it has passed, \<open>do\<close> returns then, with the
  value of that attempt and with the errors of that attempt and of the context joined, so that
  \<open>errors.Is\<close> finds everything it finds in either; nothing further is attempted.\<close>
theorem retry_abort_keeps_both_errors:
  assumes "rpEnabled p" "int n < rpMaxCount p" "attemptWorld p c fn 0 n w = Some wn"
    and "fn wn = (Ret (v, Some e), w1)" "IsTransient (Some e)" and "0 < backoffDelay p n"
    and "done_at (env w1) c = Some (u, ce)" "u < clock (env w1) + backoffDelay p n"
  shows "\<exists>w'. retryDo c p fn w = (Ret (v, Some (Joined [e, wrapE ''database: retry aborted: '' ce])), w')
     \<and> (\<forall>t. errIs e t \<or> errIs ce t \<longrightarrow> errIs (Joined [e, wrapE ''database: retry aborted: '' ce]) t)
     \<and> calls (trace w') = calls (trace w1) \<and> ctxErr (env w') c = Some ce
     \<and> clock (env w') = max u (clock (env w1))"
proof -
  let ?n = "retryNotice p w1"
  have s: "fst (sleep p c n ?n) = Some ce" "clock (env (snd (sleep p c n ?n))) = max u (clock (env w1))"
    using assms(6-8) by (simp_all add: sleep_def Let_def retryNotice_frame)
  then obtain w2 where w2: "sleep p c n ?n = (Some ce, w2)" by (metis prod.collapse)
  have "retryDo c p fn w = doLoop p c fn n wn"
    using doLoop_attempt [OF assms(3,1)] assms(1,2) by (simp add: retryDo_def)
  also have "\<dots> = (Ret (v, Some (Joined [e, wrapE ''database: retry aborted: '' ce])), w2)"
    using assms(1,2,4,5) by (simp add: doLoop.simps [of p c fn n wn] shouldRetry_iff w2)
  finally have "retryDo c p fn w = (Ret (v, Some (Joined [e, wrapE ''database: retry aborted: '' ce])), w2)" .
  moreover have "calls (trace w2) = calls (trace w1)"
    using sleep_trace [of p c n ?n] by (simp add: w2 retryNotice_trace calls_def)
  ultimately show ?thesis using sleep_interrupted [OF w2] s(2) w2 by auto
qed

text \<open>An operation that fails with another error each time, cancelled during the backoff after the second
  attempt.\<close>

definition failingAnew :: "(nat world, unit \<times> gerr option) act" where
  "failingAnew w = (Ret ((), Some (Msg (replicate (drv (env w)) CHR ''x''))), w\<lparr>env := (env w)\<lparr>drv := Suc (drv (env w))\<rparr>\<rparr>)"

definition cancelledAt150 :: "nat world" where
  "cancelledAt150 = (sampleWorld [] 0)\<lparr>env := (sampleEnv 0)\<lparr>cancel_at := (\<lambda>_. Some (150, Canceled))\<rparr>\<rparr>"

theorem retry_abort_keeps_both_errors_witness:
  "\<exists>w'. retryDo (Caller 0) (NewRetryPolicy True 3 100) failingAnew cancelledAt150
      = (Ret ((), Some (Joined [Msg ''x'', wrapE ''database: retry aborted: '' Canceled])), w')
     \<and> clock (env w') = 150"
proof -
  let ?p = "NewRetryPolicy True 3 100"
  let ?w = "(retryNotice ?p cancelledAt150)\<lparr>env := (env cancelledAt150)\<lparr>drv := Suc 0, clock := 100\<rparr>\<rparr>"
  have "attemptWorld ?p (Caller 0) failingAnew 0 1 cancelledAt150 = Some ?w"
    by (simp add: failingAnew_def cancelledAt150_def sampleWorld_def sampleEnv_def sleep_def Let_def retryNotice_def
        NewRetryPolicy_def IsTransient_def Canceled_def DeadlineExceeded_def backoffDelay_def wrap64_def)
  moreover have "failingAnew ?w = (Ret ((), Some (Msg ''x'')), ?w\<lparr>env := (env ?w)\<lparr>drv := Suc (Suc 0)\<rparr>\<rparr>)"
    by (simp add: failingAnew_def)
  ultimately show ?thesis
    using retry_abort_keeps_both_errors [of ?p 1 "Caller 0" failingAnew cancelledAt150 ?w "()" "Msg ''x''" _ 150 Canceled]
    by (auto simp: NewRetryPolicy_def IsTransient_def Canceled_def DeadlineExceeded_def cancelledAt150_def sampleWorld_def
      sampleEnv_def backoffDelay_def wrap64_def)
qed

section \<open>Hooks around statements\<close>

text \<open>C10: hooks cannot disturb a statement. With a live logger, and whichever hooks are registered
  and panic, \<open>Execute\<close> returns exactly what the driver returned for the statement (no rows with
  an error), never panics, leaves the registries as they are, and calls every hook once before
  and once after the statement, in registration order.\<close>
theorem hooks_cannot_disturb_execute:
  assumes "obsLogger (connObs c)"
  shows "\<exists>w' d rows. connExecuteContext c parent sql args w
      = (Ret (case fst (rExec (connR c) (stmtCtx c parent OpExec sql args w) sql args
                 (env (snd (fireBeforeContext c parent OpExec sql args w)))) of
                (n, None) \<Rightarrow> (n, None) | (n, Some e) \<Rightarrow> (0, Some e)), w')
     \<and> regs w' = regs w
     \<and> visible (trace w') = visible (trace w)
        @ map (\<lambda>i. HookCall Before i (beforeInfo c OpExec sql args)) (hookIds (snapshot (connHooks c) w))
        @ [Call (runner_id (connR c)) ''Exec'' (stmtCtx c parent OpExec sql args w) sql args]
        @ map (\<lambda>i. HookCall After i (afterInfo c OpExec sql args d
              (snd (fst (rExec (connR c) (stmtCtx c parent OpExec sql args w) sql args
                 (env (snd (fireBeforeContext c parent OpExec sql args w)))))) rows))
            (hookIds (snapshot (connHooks c) w))"
proof -
  obtain w1 where f: "fireBeforeContext c parent OpExec sql args w = (Ret (), w1)"
    using fireBefore_ok [OF assms] by blast
  let ?r = "rExec (connR c) (stmtCtx c parent OpExec sql args w) sql args (env w1)"
  have cc: "WithDeadline parent (clock (env w1) + CommandTimeout (connO c)) = stmtCtx c parent OpExec sql args w"
    by (simp add: stmtCtx_def f)
  obtain n err s where r: "?r = ((n, err), s)" by (metis surj_pair)
  let ?w2 = "w1\<lparr>trace := trace w1 @ [Call (runner_id (connR c)) ''Exec''
      (stmtCtx c parent OpExec sql args w) sql args], env := s\<rparr>"
  have "connExecuteContext c parent sql args w =
      andThen (track c (clock (env w1)) sql) (\<lambda>_. andThen (since (clock (env w1))) (\<lambda>d.
        andThen (fireAfterContext c parent OpExec sql args d err (if err = None then n else rowsUnknown))
          (\<lambda>_. ret (if err = None then n else 0, err)))) ?w2"
    by (cases err)
      (simp_all add: connExecuteContext_def andThen_app [of "fireBeforeContext _ _ _ _ _"] f
        andThen_app [of "timeout _ _"] andThen_app [of now] timeout_app now_app cc call_simps r)
  then have x: "fst (connExecuteContext c parent sql args w) = Ret (if err = None then n else 0, err)"
    using after_phase [OF assms, of "clock (env w1)" sql parent OpExec args err
        "if err = None then n else rowsUnknown" "(if err = None then n else 0, err)" ?w2]
    by auto
  from exec_bracket [OF assms, of parent sql args w] obtain q w' d rows where
    "connExecuteContext c parent sql args w = (Ret q, w')" "regs w' = regs w"
    "visible (trace w') = visible (trace w)
        @ callHooks Before (beforeInfo c OpExec sql args) (snapshot (connHooks c) w)
        @ [Call (runner_id (connR c)) ''Exec'' (stmtCtx c parent OpExec sql args w) sql args]
        @ callHooks After (afterInfo c OpExec sql args d (snd q) rows) (snapshot (connHooks c) w)"
    unfolding bracketed_def by blast
  with x f r show ?thesis
    by (intro exI [of _ w'] exI [of _ d] exI [of _ rows])
      (auto simp: callHooks_def split: option.splits)
qed

theorem hooks_cannot_disturb_execute_witness:
  "\<exists>w' d rows. connExecuteContext sampleConn Background ''DELETE'' []
        (sampleWorld [UserHook panickyHook] [Some (Msg ''eof'')])
      = (Ret (0, Some (Msg ''eof'')), w')
     \<and> visible (trace w') =
        [HookCall Before 7 (beforeInfo sampleConn OpExec ''DELETE'' []),
         Call 1 ''Exec'' (WithDeadline Background (30 * Second)) ''DELETE'' [],
         HookCall After 7 (afterInfo sampleConn OpExec ''DELETE'' [] d (Some (Msg ''eof'')) rows)]"
proof -
  let ?w = "sampleWorld [UserHook panickyHook] [Some (Msg ''eof'')]"
  have e: "env (snd (fireBeforeContext sampleConn Background OpExec ''DELETE'' [] ?w)) = sampleEnv [Some (Msg ''eof'')]"
    by (simp add: fireBeforeContext_def eachHook_def snapshot_def hr_snapshot_def callBefore_def
        logWarn_def act_simps fixture_defs)
  have h: "hookIds (snapshot (connHooks sampleConn) ?w) = [7]"
    by (simp add: snapshot_def hr_snapshot_def hookIds_def fixture_defs)
  have c: "stmtCtx sampleConn Background OpExec ''DELETE'' [] ?w = WithDeadline Background (30 * Second)"
    unfolding stmtCtx_def e by (simp add: fixture_defs)
  have r: "fst (rExec (connR sampleConn) cc sql args (sampleEnv [Some (Msg ''eof'')])) = (0, Some (Msg ''eof''))"
    for cc sql args
    by (simp add: fixture_defs)
  show ?thesis
    using hooks_cannot_disturb_execute [of sampleConn Background "''DELETE''" "[]" ?w]
    unfolding e h c r by (auto simp: sampleWorld_def sampleConn_def scriptRunner_def)
qed

end
