(* ===== verification/Transaction.thy ===== *)
theory Transaction
  imports Statements
begin

text \<open>
  transaction.go: transaction-scoped operations and \<open>runTransactional\<close>, the shared body of every
  \<open>Transactional\<close> method, with its compensating rollbacks, its outcome metrics and the deferred
  function that runs when the callback panics. A \<open>Tx\<close> is a connection value whose runner is the
  live \<open>pgx.Tx\<close>. The callback is code of the caller: any action on the world.
\<close>

type_synonym 'd tx = "'d conn"

type_synonym 'd beginFn = "ctx \<Rightarrow> ('d world, gerr + 'd runner \<times> 'd txOps) act"

section \<open>Operations of a transaction\<close>

definition txExecute :: "'d tx \<Rightarrow> string \<Rightarrow> gval list \<Rightarrow> ('d world, int \<times> gerr option) act" where
  "txExecute tx sql args = withSpan tx ''execute'' (connExecute tx sql args)"

definition txExecuteContext :: "'d tx \<Rightarrow> ctx \<Rightarrow> string \<Rightarrow> gval list \<Rightarrow> ('d world, int \<times> gerr option) act" where
  "txExecuteContext tx c sql args = connExecuteContext tx c sql args"

definition txQuery :: "('d, 't) mapper \<Rightarrow> 'd tx \<Rightarrow> string \<Rightarrow> gval list \<Rightarrow> ('d world, 't list \<times> gerr option) act" where
  "txQuery m tx sql args = withSpan tx ''query'' (runQuery m tx sql args)"

definition txQueryContext ::
  "('d, 't) mapper \<Rightarrow> ctx \<Rightarrow> 'd tx \<Rightarrow> string \<Rightarrow> gval list \<Rightarrow> ('d world, 't list \<times> gerr option) act" where
  "txQueryContext m c tx sql args = runQueryContext m c tx sql args"

definition txQueryRow ::
  "('d, 't) mapper \<Rightarrow> 'd tx \<Rightarrow> string \<Rightarrow> gval list \<Rightarrow> ('d world, ('t \<times> bool) \<times> gerr option) act" where
  "txQueryRow m tx sql args = withSpan tx ''query'' (runQueryRow m tx sql args)"

definition txQueryRowContext ::
  "('d, 't) mapper \<Rightarrow> ctx \<Rightarrow> 'd tx \<Rightarrow> string \<Rightarrow> gval list \<Rightarrow> ('d world, ('t \<times> bool) \<times> gerr option) act" where
  "txQueryRowContext m c tx sql args = runQueryRowContext m c tx sql args"

definition txScalar :: "('d, 't) mapper \<Rightarrow> 'd tx \<Rightarrow> string \<Rightarrow> gval list \<Rightarrow> ('d world, 't \<times> gerr option) act" where
  "txScalar m tx sql args = withSpan tx ''query'' (runScalar m tx sql args)"

definition txScalarContext ::
  "('d, 't) mapper \<Rightarrow> ctx \<Rightarrow> 'd tx \<Rightarrow> string \<Rightarrow> gval list \<Rightarrow> ('d world, 't \<times> gerr option) act" where
  "txScalarContext m c tx sql args = runScalarContext m c tx sql args"

text \<open>Transaction control sent to the driver, recorded in the trace.\<close>

definition callCommit :: "nat \<Rightarrow> 'd txOps \<Rightarrow> ctx \<Rightarrow> ('d world, gerr option) act" where
  "callCommit i ops1 c = andThen (emit (TxControl i ''Commit'' c)) (\<lambda>_. driver (txCommit ops1 c))"

definition callRollback :: "nat \<Rightarrow> 'd txOps \<Rightarrow> ctx \<Rightarrow> ('d world, gerr option) act" where
  "callRollback i ops1 c = andThen (emit (TxControl i ''Rollback'' c)) (\<lambda>_. driver (txRollback ops1 c))"

text \<open>\<open>Tx.Commit\<close> and \<open>Tx.Rollback\<close>, for transactions begun on a \<open>Conn\<close>.\<close>

definition txCommitManual :: "'d tx \<Rightarrow> ('d world, gerr option) act" where
  "txCommitManual tx =
     (case asTx (connR tx) of
        None \<Rightarrow> ret (Some (Msg ''database: connection does not support commit''))
      | Some ops1 \<Rightarrow>
          andThen (timeout (base tx) (CommandTimeout (connO tx))) (\<lambda>cctx.
            callCommit (runner_id (connR tx)) ops1 cctx))"

definition txRollbackManual :: "'d tx \<Rightarrow> ('d world, gerr option) act" where
  "txRollbackManual tx =
     (case asTx (connR tx) of
        None \<Rightarrow> ret (Some (Msg ''database: connection does not support rollback''))
      | Some ops1 \<Rightarrow>
          andThen (timeout (base tx) (CommandTimeout (connO tx))) (\<lambda>cctx.
            callRollback (runner_id (connR tx)) ops1 cctx))"

section \<open>runTransactional\<close>

definition beginTxBounded ::
  "ctx \<Rightarrow> 'd options \<Rightarrow> 'd beginFn \<Rightarrow> ('d world, gerr + 'd runner \<times> 'd txOps) act" where
  "beginTxBounded b o1 beg =
     andThen (timeout b (ConnectionTimeout o1)) (\<lambda>cctx.
     andThen (beg cctx) (\<lambda>r.
     ret (case r of
            Inl e \<Rightarrow> Inl (wrapE ''database: begin transaction: '' e)
          | Inr tx \<Rightarrow> Inr tx)))"

text \<open>observability.go: \<open>observeTransaction\<close> counts an outcome.\<close>

definition observeTransaction :: "string \<Rightarrow> ('d world, unit) act" where
  "observeTransaction result = emit (TxObserved result)"

text \<open>The part of \<open>runTransactional\<close> after the callback returned; the flag is \<open>done\<close>.\<close>

definition afterCallback ::
  "'d conn \<Rightarrow> nat \<Rightarrow> 'd txOps \<Rightarrow> nat option \<Rightarrow> gerr option \<Rightarrow> ('d world, gerr option \<times> bool) act" where
  "afterCallback src i ops1 met1 ferr =
     (case ferr of
        Some err \<Rightarrow>
          andThen (rollbackCtx (base src) (connO src)) (\<lambda>rctx.
          andThen (callRollback i ops1 rctx) (\<lambda>rbErr.
          case rbErr of
            Some re \<Rightarrow> ret (Some (Joined [err, wrapE ''database: rollback: '' re]), False)
          | None \<Rightarrow>
              andThen (recordTx met1 txResultRollback) (\<lambda>_.
              andThen (observeTransaction ''rollback'') (\<lambda>_.
              ret (Some err, True)))))
      | None \<Rightarrow>
          andThen (timeout (base src) (CommandTimeout (connO src))) (\<lambda>mctx.
          andThen (callCommit i ops1 mctx) (\<lambda>comErr.
          case comErr of
            Some ce \<Rightarrow>
              andThen (recordRollbackCompensation met1) (\<lambda>_.
              andThen (recordTx met1 txResultRollback) (\<lambda>_.
              andThen (observeTransaction ''rollback'') (\<lambda>_.
              andThen (freshRollbackCtx (base src) (connO src)) (\<lambda>rctx.
              andThen (callRollback i ops1 rctx) (\<lambda>rbErr.
              andThen (only_when (rbErr \<noteq> None) (logWarn src ''database post-commit rollback'')) (\<lambda>_.
              ret (Some (wrapE ''database: commit: '' ce), True)))))))
          | None \<Rightarrow>
              andThen (recordTx met1 txResultCommit) (\<lambda>_.
              andThen (observeTransaction ''commit'') (\<lambda>_.
              ret (None, True))))))"

text \<open>The deferred function, when \<open>done\<close> is not set.\<close>

definition deferredRollback :: "'d conn \<Rightarrow> nat \<Rightarrow> 'd txOps \<Rightarrow> nat option \<Rightarrow> ('d world, unit) act" where
  "deferredRollback src i ops1 met1 =
     andThen (recordRollbackCompensation met1) (\<lambda>_.
     andThen (recordTx met1 txResultPanic) (\<lambda>_.
     andThen (observeTransaction ''panic'') (\<lambda>_.
     andThen (freshRollbackCtx (base src) (connO src)) (\<lambda>rctx.
     andThen (callRollback i ops1 rctx) (\<lambda>rbErr.
     only_when (rbErr \<noteq> None) (logWarn src ''database deferred rollback after panic''))))))"

definition runTransactional ::
  "'d beginFn \<Rightarrow> 'd conn \<Rightarrow> ('d tx \<Rightarrow> ('d world, gerr option) act) \<Rightarrow> ('d world, gerr option) act" where
  "runTransactional beg src fn =
     andThen (beginTxBounded (base src) (connO src) beg) (\<lambda>r.
     case r of
       Inl e \<Rightarrow> ret (Some e)
     | Inr (pgxTx, ops1) \<Rightarrow>
         andThen (reading (connObserved src)) (\<lambda>met1.
         andThen
           (deferring
             (andThen (fn (derive src pgxTx)) (afterCallback src (runner_id pgxTx) ops1 met1))
             (\<lambda>r. case r of
                Ret (e, done) \<Rightarrow> only_when (\<not> done) (deferredRollback src (runner_id pgxTx) ops1 met1)
              | Panic p \<Rightarrow> deferredRollback src (runner_id pgxTx) ops1 met1))
           (\<lambda>(e, done). ret e)))"

section \<open>The methods of DB\<close>

definition dbBegin :: "'d db \<Rightarrow> 'd beginFn" where
  "dbBegin d c =
     andThen (emit (TxControl (runner_id (connR (dbConn d))) ''Begin'' c)) (\<lambda>_.
       driver (poolBegin (dbPool d) c))"

definition dbTransactional :: "'d db \<Rightarrow> ('d tx \<Rightarrow> ('d world, gerr option) act) \<Rightarrow> ('d world, gerr option) act" where
  "dbTransactional d fn = runTransactional (dbBegin d) (dbConn d) fn"

definition dbTransactionalContext ::
  "'d db \<Rightarrow> ctx \<Rightarrow> (ctx \<Rightarrow> 'd tx \<Rightarrow> ('d world, gerr option) act) \<Rightarrow> ('d world, gerr option) act" where
  "dbTransactionalContext d c fn =
     (let scoped = (dbConn d)\<lparr>connCtx := c\<rparr>
      in runTransactional (dbBegin d) scoped (\<lambda>tx. fn (base scoped) tx))"

text \<open>\<open>isolationLevels\<close> and \<open>parseIsolationLevel\<close>; a level is its string, as in pgx.\<close>

definition isolationLevels :: "string list" where
  "isolationLevels = [''read committed'', ''repeatable read'', ''serializable'']"

definition parseIsolationLevel :: "string \<Rightarrow> gerr + string" where
  "parseIsolationLevel level =
     (let l = ToLower (TrimSpace level)
      in if l \<in> set isolationLevels then Inr l
         else Inl (Msg (''database: invalid isolation level '' @ Quote level @ ''; valid levels: ''
           @ Join (map Quote isolationLevels) '', '')))"

definition dbTransactionalLevel ::
  "'d db \<Rightarrow> string \<Rightarrow> ('d tx \<Rightarrow> ('d world, gerr option) act) \<Rightarrow> ('d world, gerr option) act" where
  "dbTransactionalLevel d level fn =
     (case parseIsolationLevel level of
        Inl e \<Rightarrow> ret (Some e)
      | Inr txo \<Rightarrow>
          (case poolBeginTx (dbPool d) of
             None \<Rightarrow> ret (Some (Msg ''database: pool does not support transaction isolation levels''))
           | Some beginTx \<Rightarrow>
               runTransactional
                 (\<lambda>c. andThen (emit (TxControl (runner_id (connR (dbConn d))) (''Begin '' @ txo) c)) (\<lambda>_.
                    driver (beginTx c txo)))
                 (dbConn d) fn))"

end
