(* ===== verification/Transaction_Properties.thy ===== *)
theory Transaction_Properties
  imports Transaction
begin

text \<open>
  The properties of \<open>runTransactional\<close>: how a begun transaction is settled on every path,
  atomicity over any driver that keeps the usual contract of commit and rollback, the contexts
  of the compensating rollbacks, the outcome metric and the validation of isolation levels.
\<close>

section \<open>Settling a begun transaction\<close>

text \<open>What follows the callback, from its outcome and the world it left.\<close>

definition settle ::
  "'d conn \<Rightarrow> nat \<Rightarrow> 'd txOps \<Rightarrow> nat option \<Rightarrow> gerr option outcome \<times> 'd world
     \<Rightarrow> gerr option outcome \<times> 'd world" where
  "settle src i ops1 met1 = (\<lambda>(x, w2).
     andThen
       (deferring (andThen (\<lambda>_. (x, w2)) (afterCallback src i ops1 met1))
         (\<lambda>r. case r of
            Ret (e, done) \<Rightarrow> only_when (\<not> done) (deferredRollback src i ops1 met1)
          | Panic p \<Rightarrow> deferredRollback src i ops1 met1))
       (\<lambda>(e, done). ret e) w2)"

abbreviation beginCtx :: "'d conn \<Rightarrow> 'd world \<Rightarrow> ctx" where
  "beginCtx src w \<equiv> WithDeadline (base src) (clock (env w) + ConnectionTimeout (connO src))"

lemma runTransactional_begun:
  assumes "beg (beginCtx src w) w = (Ret (Inr (tx, ops1)), w1)"
  shows "runTransactional beg src fn w =
     settle src (runner_id tx) ops1 (observed (connHooks src) w1) (fn (derive src tx) w1)"
  using assms
  by (simp add: runTransactional_def beginTxBounded_def settle_def act_simps connObserved_def
      split: prod.splits)

lemma runTransactional_not_begun:
  assumes "beg (beginCtx src w) w = (Ret (Inl e), w1)"
  shows "runTransactional beg src fn w = (Ret (Some (wrapE ''database: begin transaction: '' e)), w1)"
  using assms by (simp add: runTransactional_def beginTxBounded_def act_simps)

text \<open>The contexts of the terminal statements, by the moment they are derived.\<close>

abbreviation terminalCtx :: "'d conn \<Rightarrow> 'd env \<Rightarrow> ctx" where
  "terminalCtx src s \<equiv> WithDeadline (base src) (clock s + CommandTimeout (connO src))"

abbreviation detachedCtx :: "'d conn \<Rightarrow> 'd env \<Rightarrow> ctx" where
  "detachedCtx src s \<equiv> WithDeadline (WithoutCancel (base src)) (clock s + CommandTimeout (connO src))"

definition undoCtx :: "'d conn \<Rightarrow> 'd env \<Rightarrow> ctx" where
  "undoCtx src s = (if ctxErr s (base src) \<noteq> None then detachedCtx src s else terminalCtx src s)"

lemma rollbackCtx_app [act_simps]:
  "rollbackCtx (base src) (connO src) w = (Ret (undoCtx src (env w)), w)"
  by (simp add: rollbackCtx_def undoCtx_def act_simps)

lemma undoCtx_live:
  assumes "0 < CommandTimeout (connO src)"
  shows "ctxErr s (undoCtx src s) = None" and "ctxErr s (detachedCtx src s) = None"
  using assms by (simp_all add: undoCtx_def ctxErr_WithDeadline)

lemmas settle_simps = settle_def afterCallback_def deferredRollback_def callCommit_def
  callRollback_def recordTx_def recordRollbackCompensation_def observeTransaction_def act_simps
  only_when_def logWarn_def

definition bump :: "nat option \<Rightarrow> (collector \<Rightarrow> collector) \<Rightarrow> (nat \<Rightarrow> collector) \<Rightarrow> nat \<Rightarrow> collector" where
  "bump met1 f m = (case met1 of None \<Rightarrow> m | Some a \<Rightarrow> m(a := f (m a)))"

definition countTx :: "string \<Rightarrow> collector \<Rightarrow> collector" where
  "countTx lbl c = c\<lparr>txTotal := (txTotal c)(lbl := Suc (txTotal c lbl))\<rparr>"

definition countComp :: "collector \<Rightarrow> collector" where
  "countComp c = c\<lparr>rollbackCompensations := Suc (rollbackCompensations c)\<rparr>"

text \<open>
  One lemma per path: the result, the environment, the control statements and outcome counters in
  the trace (without log lines) and the collectors.
\<close>

fun isLog :: "event \<Rightarrow> bool" where
  "isLog (LogLine m) = True"
| "isLog _ = False"

fun isTxControl :: "event \<Rightarrow> bool" where
  "isTxControl (TxControl i v c) = True"
| "isTxControl _ = False"

definition unlogged :: "event list \<Rightarrow> event list" where
  "unlogged = filter (\<lambda>e. \<not> isLog e)"

definition settled ::
  "'d world \<Rightarrow> gerr option outcome \<times> 'd world \<Rightarrow> gerr option outcome \<Rightarrow> 'd env \<Rightarrow> event list
     \<Rightarrow> (nat \<Rightarrow> collector) \<Rightarrow> bool" where
  "settled w2 res x s t m \<longleftrightarrow>
     fst res = x \<and> env (snd res) = s \<and> regs (snd res) = regs w2 \<and> mcs (snd res) = m
     \<and> unlogged (trace (snd res)) = unlogged (trace w2) @ t"

lemmas path_simps = settle_simps settled_def bump_def countTx_def countComp_def unlogged_def

lemma settle_commit:
  assumes "txCommit ops1 (terminalCtx src (env w2)) (env w2) = (None, s)"
  shows "settled w2 (settle src i ops1 met1 (Ret None, w2)) (Ret None) s
     [TxControl i ''Commit'' (terminalCtx src (env w2)), TxObserved ''commit'']
     (bump met1 (countTx txResultCommit) (mcs w2))"
  using assms by (cases met1) (simp_all add: path_simps)

lemma settle_commit_failed:
  assumes "obsLogger (connObs src)"
    and "txCommit ops1 (terminalCtx src (env w2)) (env w2) = (Some ce, s)"
    and "txRollback ops1 (detachedCtx src s) s = (rb, s')"
  shows "settled w2 (settle src i ops1 met1 (Ret None, w2))
     (Ret (Some (wrapE ''database: commit: '' ce))) s'
     [TxControl i ''Commit'' (terminalCtx src (env w2)), TxObserved ''rollback'',
      TxControl i ''Rollback'' (detachedCtx src s)]
     (bump met1 (countTx txResultRollback) (bump met1 countComp (mcs w2)))"
  using assms by (cases met1; cases rb) (simp_all add: path_simps)

lemma settle_error:
  assumes "txRollback ops1 (undoCtx src (env w2)) (env w2) = (None, s)"
  shows "settled w2 (settle src i ops1 met1 (Ret (Some e), w2)) (Ret (Some e)) s
     [TxControl i ''Rollback'' (undoCtx src (env w2)), TxObserved ''rollback'']
     (bump met1 (countTx txResultRollback) (mcs w2))"
  using assms by (cases met1) (simp_all add: path_simps)

lemma settle_error_stuck:
  assumes "obsLogger (connObs src)"
    and "txRollback ops1 (undoCtx src (env w2)) (env w2) = (Some re, s)"
    and "txRollback ops1 (detachedCtx src s) s = (rb, s')"
  shows "settled w2 (settle src i ops1 met1 (Ret (Some e), w2))
     (Ret (Some (Joined [e, wrapE ''database: rollback: '' re]))) s'
     [TxControl i ''Rollback'' (undoCtx src (env w2)), TxObserved ''panic'',
      TxControl i ''Rollback'' (detachedCtx src s)]
     (bump met1 (countTx txResultPanic) (bump met1 countComp (mcs w2)))"
  using assms by (cases met1; cases rb) (simp_all add: path_simps)

lemma settle_panic:
  assumes "obsLogger (connObs src)"
    and "txRollback ops1 (detachedCtx src (env w2)) (env w2) = (rb, s)"
  shows "settled w2 (settle src i ops1 met1 (Panic p, w2)) (Panic p) s
     [TxObserved ''panic'', TxControl i ''Rollback'' (detachedCtx src (env w2))]
     (bump met1 (countTx txResultPanic) (bump met1 countComp (mcs w2)))"
  using assms by (cases met1; cases rb) (simp_all add: path_simps)

text \<open>The five paths, as one case distinction over the callback's outcome and the driver's answers.\<close>

lemma settle_paths:
  assumes "obsLogger (connObs src)"
  obtains
    (commit) s where "x = Ret None" "txCommit ops1 (terminalCtx src (env w2)) (env w2) = (None, s)"
      "settled w2 (settle src i ops1 met1 (x, w2)) (Ret None) s
         [TxControl i ''Commit'' (terminalCtx src (env w2)), TxObserved ''commit'']
         (bump met1 (countTx txResultCommit) (mcs w2))"
  | (commit_failed) ce s rb s' where "x = Ret None"
      "txCommit ops1 (terminalCtx src (env w2)) (env w2) = (Some ce, s)"
      "txRollback ops1 (detachedCtx src s) s = (rb, s')"
      "settled w2 (settle src i ops1 met1 (x, w2)) (Ret (Some (wrapE ''database: commit: '' ce))) s'
         [TxControl i ''Commit'' (terminalCtx src (env w2)), TxObserved ''rollback'',
          TxControl i ''Rollback'' (detachedCtx src s)]
         (bump met1 (countTx txResultRollback) (bump met1 countComp (mcs w2)))"
  | (error) e s where "x = Ret (Some e)" "txRollback ops1 (undoCtx src (env w2)) (env w2) = (None, s)"
      "settled w2 (settle src i ops1 met1 (x, w2)) (Ret (Some e)) s
         [TxControl i ''Rollback'' (undoCtx src (env w2)), TxObserved ''rollback'']
         (bump met1 (countTx txResultRollback) (mcs w2))"
  | (error_stuck) e re s rb s' where "x = Ret (Some e)"
      "txRollback ops1 (undoCtx src (env w2)) (env w2) = (Some re, s)"
      "txRollback ops1 (detachedCtx src s) s = (rb, s')"
      "settled w2 (settle src i ops1 met1 (x, w2))
         (Ret (Some (Joined [e, wrapE ''database: rollback: '' re]))) s'
         [TxControl i ''Rollback'' (undoCtx src (env w2)), TxObserved ''panic'',
          TxControl i ''Rollback'' (detachedCtx src s)]
         (bump met1 (countTx txResultPanic) (bump met1 countComp (mcs w2)))"
  | (panicked) p rb s where "x = Panic p"
      "txRollback ops1 (detachedCtx src (env w2)) (env w2) = (rb, s)"
      "settled w2 (settle src i ops1 met1 (x, w2)) (Panic p) s
         [TxObserved ''panic'', TxControl i ''Rollback'' (detachedCtx src (env w2))]
         (bump met1 (countTx txResultPanic) (bump met1 countComp (mcs w2)))"
proof -
  consider (a) "x = Ret None" | (b) e where "x = Ret (Some e)" | (c) p where "x = Panic p"
    by (metis not_None_eq outcome.exhaust)
  then show thesis
  proof cases
    case a
    obtain r s where r: "txCommit ops1 (terminalCtx src (env w2)) (env w2) = (r, s)" by fastforce
    obtain rb s' where rb: "txRollback ops1 (detachedCtx src s) s = (rb, s')" by fastforce
    show ?thesis
    proof (cases r)
      case None
      with a r show ?thesis by (metis commit settle_commit)
    next
      case (Some ce)
      with a r rb show ?thesis by (metis commit_failed settle_commit_failed assms)
    qed
  next
    case b
    obtain r s where r: "txRollback ops1 (undoCtx src (env w2)) (env w2) = (r, s)" by fastforce
    obtain rb s' where rb: "txRollback ops1 (detachedCtx src s) s = (rb, s')" by fastforce
    show ?thesis
    proof (cases r)
      case None
      with b r show ?thesis by (metis error settle_error)
    next
      case (Some re)
      with b r rb show ?thesis by (metis error_stuck settle_error_stuck assms)
    qed
  next
    case c
    obtain rb s where "txRollback ops1 (detachedCtx src (env w2)) (env w2) = (rb, s)" by fastforce
    with c show ?thesis by (metis panicked settle_panic assms)
  qed
qed

lemma Joined_neq: "Joined (e # es) \<noteq> e"
proof
  assume "Joined (e # es) = e"
  then have "size (Joined (e # es)) = size e" by simp
  then show False by simp
qed

lemma unlogged_controls:
  assumes "unlogged t' = unlogged t @ b"
  shows "filter isTxControl t' = filter isTxControl t @ filter isTxControl b"
proof -
  have f: "filter isTxControl (unlogged t) = filter isTxControl t" for t
    by (induction t) (auto simp: unlogged_def elim: isLog.elims)
  show ?thesis using arg_cong [OF assms, of "filter isTxControl"] by (simp add: f)
qed

section \<open>A concrete driver\<close>

text \<open>
  A driver for the witnesses whose state is the published and the pending contents, a commit
  publishing the latter, and a callback that writes and then ends as told.
\<close>

definition cellTx :: "(nat \<times> nat) txOps" where
  "cellTx =
     \<lparr>txCommit = (\<lambda>c s. if ctxErr s c = None then (None, s\<lparr>drv := (snd (drv s), snd (drv s))\<rparr>)
                     else (ctxErr s c, s)),
      txRollback = (\<lambda>c s. if ctxErr s c = None then (None, s\<lparr>drv := (fst (drv s), fst (drv s))\<rparr>)
                     else (ctxErr s c, s))\<rparr>"

definition cellRunner :: "nat \<Rightarrow> (nat \<times> nat) runner" where
  "cellRunner i = Runner i
     (\<lambda>c sql args s. ((1, None), s\<lparr>drv := (fst (drv s), Suc (snd (drv s)))\<rparr>))
     (\<lambda>c sql args s. ((0, None), s)) (\<lambda>c sql args s. (0, s)) (Some cellTx) None None None None None"

definition cellConn :: "(nat \<times> nat) conn" where
  "cellConn =
     \<lparr>connR = cellRunner 1, connO = sampleOptions, connCtx = Caller 0, connHooks = Some 0,
      connOps = None, connObs = newObservability\<rparr>"

definition cellBegin :: "(nat \<times> nat) beginFn" where
  "cellBegin c = ret (Inr (cellRunner 2, cellTx))"

definition cellFn ::
  "gerr option outcome \<Rightarrow> (nat \<times> nat) tx \<Rightarrow> ((nat \<times> nat) world, gerr option) act" where
  "cellFn x tx = (\<lambda>w. (x, (snd (callExec (connR tx) (base tx) ''UPDATE'' [] w))))"

definition cellWorld :: "(nat \<times> nat) world" where
  "cellWorld = (sampleWorld [] (5, 5))\<lparr>env := (sampleEnv (5, 5))\<lparr>cancel_at := (\<lambda>_. Some (0, Canceled))\<rparr>\<rparr>"

lemmas cell_defs = cellTx_def cellRunner_def cellConn_def cellBegin_def cellFn_def cellWorld_def
  fixture_defs

definition cellAfter :: "(nat \<times> nat) world" where
  "cellAfter = cellWorld\<lparr>trace := [Call 2 ''Exec'' (Caller 0) ''UPDATE'' []],
     env := (env cellWorld)\<lparr>drv := (5, 6)\<rparr>\<rparr>"

lemma cell_simps [simp]:
  "base cellConn = Caller 0" "connObs cellConn = newObservability"
  "CommandTimeout (connO cellConn) = 30 * Second" "clock (env cellWorld) = 0" "trace cellWorld = []"
  "runner_id (cellRunner i) = i" "cellBegin c w = (Ret (Inr (cellRunner 2, cellTx)), w)"
  "cellFn x (derive cellConn (cellRunner 2)) cellWorld = (x, cellAfter)"
  "trace cellAfter = [Call 2 ''Exec'' (Caller 0) ''UPDATE'' []]" "clock (env cellAfter) = 0"
  by (simp_all add: cell_defs act_simps callExec_def base_def derive_def cellAfter_def)

section \<open>Properties\<close>

text \<open>C11: a transaction is all or nothing. Over any driver whose commit publishes all of the pending state of the
  transaction or none of it, and all of it where it reports success, and whose rollbacks publish nothing,
  \<open>runTransactional\<close> returns nil exactly when the callback returned nil and the commit succeeded, and
  then the pending state is published. Where the callback fails or panics no commit is sent and nothing
  is published. A commit that reports an error leaves open whether the server applied it; its error
  is returned, marked as one of the commit, so that the caller is not told that the transaction went
  through. A panic of the callback is raised again with its value and an error of the callback is kept in
  the error returned.\<close>
theorem transaction_atomic:
  assumes "obsLogger (connObs src)"
    and "beg (beginCtx src w) w = (Ret (Inr (tx, ops1)), w1)"
    and "fn (derive src tx) w1 = (x, w2)"
    and whole: "\<And>c s. published (snd (txCommit ops1 c s)) \<in> {published s, pending s}"
    and commit: "\<And>c s. fst (txCommit ops1 c s) = None \<Longrightarrow> published (snd (txCommit ops1 c s)) = pending s"
    and rollback: "\<And>c s. published (snd (txRollback ops1 c s)) = published s"
    and "runTransactional beg src fn w = (y, w')"
  shows "(y = Ret None \<longleftrightarrow> x = Ret None \<and> fst (txCommit ops1 (terminalCtx src (env w2)) (env w2)) = None)
     \<and> (y = Ret None \<longrightarrow> published (env w') = pending (env w2))
     \<and> (x \<noteq> Ret None \<longrightarrow> published (env w') = published (env w2))
     \<and> published (env w') \<in> {published (env w2), pending (env w2)}
     \<and> (\<forall>ce. x = Ret None \<and> fst (txCommit ops1 (terminalCtx src (env w2)) (env w2)) = Some ce
          \<longrightarrow> y = Ret (Some (wrapE ''database: commit: '' ce)))
     \<and> (\<forall>p. x = Panic p \<longrightarrow> y = Panic p)
     \<and> (\<forall>e t. x = Ret (Some e) \<longrightarrow> errIs e t \<longrightarrow> (\<exists>e'. y = Ret (Some e') \<and> errIs e' t))"
proof -
  have y: "settle src (runner_id tx) ops1 (observed (connHooks src) w1) (x, w2) = (y, w')"
    using runTransactional_begun [of beg src w, OF assms(2), of fn] assms(3,7) by simp
  have a: "published s' = published s \<or> published s' = pending s"
    if "txCommit ops1 cc s = (r, s')" for cc s r s' using whole [of cc s] that by simp
  have c: "published s' = pending s"
    if "txCommit ops1 cc s = (None, s')" for cc s s' using commit [of cc s] that by simp
  have r: "published s' = published s" if "txRollback ops1 cc s = (rb, s')" for cc s rb s'
    using rollback [of cc s] that by simp
  note paths = settle_paths [of src x ops1 w2 "runner_id tx" "observed (connHooks src) w1",
      unfolded y settled_def]
  from assms(1) show ?thesis
    by (rule paths) (auto dest: c r, (metis a r)+)
qed

text \<open>A driver that loses the acknowledgement of its commits: the server applies them, the client reads an
  error.\<close>

definition lostAckTx :: "(nat \<times> nat) txOps" where
  "lostAckTx = cellTx\<lparr>txCommit := (\<lambda>c s. (Some DeadlineExceeded, s\<lparr>drv := (snd (drv s), snd (drv s))\<rparr>))\<rparr>"

theorem transaction_atomic_witness:
  "let run = (\<lambda>x. runTransactional (\<lambda>c. ret (Inr (cellRunner 2, lostAckTx))) cellConn (cellFn x) cellWorld)
   in fst (run (Ret None)) = Ret (Some (wrapE ''database: commit: '' DeadlineExceeded))
    \<and> fst (drv (env (snd (run (Ret (Some (Msg ''no'')))))))  = 5"
proof -
  let ?b = "\<lambda>c. ret (Inr (cellRunner 2, lostAckTx))"
  let ?r = "\<lambda>x. runTransactional ?b cellConn (cellFn x) cellWorld"
  have run: "?b (beginCtx cellConn cellWorld) cellWorld = (Ret (Inr (cellRunner 2, lostAckTx)), cellWorld)"
    by (simp add: act_simps)
  have ops: "fst (drv (snd (txCommit lostAckTx c s))) \<in> {fst (drv s), snd (drv s)}"
    "fst (txCommit lostAckTx c s) = Some DeadlineExceeded"
    "fst (drv (snd (txRollback lostAckTx c s))) = fst (drv s)" for c s
    by (auto simp: lostAckTx_def cellTx_def)
  note law = transaction_atomic [of cellConn ?b cellWorld "cellRunner 2" lostAckTx cellWorld "cellFn x" x cellAfter
      "\<lambda>s. fst (drv s)" "\<lambda>s. snd (drv s)" "fst (?r x)" "snd (?r x)" for x, OF _ run]
  have "fst (?r (Ret None)) = Ret (Some (wrapE ''database: commit: '' DeadlineExceeded))"
    using law [of "Ret None"] ops by simp
  moreover have "fst (drv (env (snd (?r (Ret (Some (Msg ''no'')))))))  = fst (drv (env cellAfter))"
    using law [of "Ret (Some (Msg ''no''))"] ops by simp
  ultimately show ?thesis by (simp add: cellAfter_def Let_def)
qed

text \<open>C12: a begun transaction is never left open. The control statements that follow the
  callback, with their contexts, are a lone \<open>Commit\<close> when the transaction returns nil, a \<open>Commit\<close>
  and then a \<open>Rollback\<close> when the commit fails, and otherwise one or two \<open>Rollback\<close>s and no
  \<open>Commit\<close>; a \<open>Rollback\<close> that follows a failed statement or a panic is detached from the
  cancellation of the caller's context.\<close>
theorem transaction_settled:
  assumes "obsLogger (connObs src)"
    and "beg (beginCtx src w) w = (Ret (Inr (tx, ops1)), w1)"
    and "fn (derive src tx) w1 = (x, w2)"
    and "runTransactional beg src fn w = (y, w')"
  shows "filter isTxControl (trace w') = filter isTxControl (trace w2) @
     map (\<lambda>(v, c). TxControl (runner_id tx) v c)
       (if y = Ret None then [(''Commit'', terminalCtx src (env w2))]
        else case x of
          Ret None \<Rightarrow>
            [(''Commit'', terminalCtx src (env w2)),
             (''Rollback'', detachedCtx src (snd (txCommit ops1 (terminalCtx src (env w2)) (env w2))))]
        | Ret (Some e) \<Rightarrow> (''Rollback'', undoCtx src (env w2)) #
            (if y = x then []
             else [(''Rollback'', detachedCtx src (snd (txRollback ops1 (undoCtx src (env w2)) (env w2))))])
        | Panic p \<Rightarrow> [(''Rollback'', detachedCtx src (env w2))])"
proof -
  let ?i = "runner_id tx"
  have y: "settle src ?i ops1 (observed (connHooks src) w1) (x, w2) = (y, w')"
    using runTransactional_begun [of beg src w, OF assms(2), of fn] assms(3,4) by simp
  note paths = settle_paths [of src x ops1 w2 ?i "observed (connHooks src) w1", unfolded y settled_def]
  from assms(1) show ?thesis
    by (rule paths) (auto dest!: unlogged_controls simp: Joined_neq)
qed

theorem transaction_settled_witness:
  "filter isTxControl (trace (snd (runTransactional cellBegin cellConn (cellFn (Panic ''boom'')) cellWorld)))
     = [TxControl 2 ''Rollback'' (WithDeadline (WithoutCancel (Caller 0)) (30 * Second))]"
proof -
  let ?r = "runTransactional cellBegin cellConn (cellFn (Panic ''boom'')) cellWorld"
  have "fst ?r = Panic ''boom''"
    by (simp add: runTransactional_begun [of cellBegin cellConn cellWorld "cellRunner 2" cellTx cellWorld]
        settle_simps split: prod.splits option.splits)
  then show ?thesis
    using transaction_settled [of cellConn cellBegin cellWorld "cellRunner 2" cellTx cellWorld
        "cellFn (Panic ''boom'')" "Panic ''boom''" cellAfter "Panic ''boom''" "snd ?r"]
    by (simp add: prod_eq_iff)
qed

text \<open>C13: no rollback is sent with a context that is already done. Two drivers that differ only in
  what \<open>Rollback\<close> does on a done context cannot be told apart by \<open>runTransactional\<close>, however it
  ends and even when the caller's context was canceled long ago.\<close>
theorem rollback_on_live_context:
  assumes "obsLogger (connObs src)" and "0 < CommandTimeout (connO src)"
    and "beg1 (beginCtx src w) w = (Ret (Inr (tx, ops1)), w1)"
    and "beg2 (beginCtx src w) w = (Ret (Inr (tx, ops2)), w1)"
    and "txCommit ops1 = txCommit ops2"
    and "\<And>c s. ctxErr s c = None \<Longrightarrow> txRollback ops1 c s = txRollback ops2 c s"
  shows "runTransactional beg1 src fn w = runTransactional beg2 src fn w"
proof -
  obtain x w2 where f: "fn (derive src tx) w1 = (x, w2)" by fastforce
  have u: "txRollback ops1 (undoCtx src s) s = txRollback ops2 (undoCtx src s) s"
    "txRollback ops1 (detachedCtx src s) s = txRollback ops2 (detachedCtx src s) s" for s
    using undoCtx_live [OF assms(2)] assms(6) by simp_all
  show ?thesis
    unfolding runTransactional_begun [of beg1 src w, OF assms(3)]
      runTransactional_begun [of beg2 src w, OF assms(4)] f
    by (simp add: settle_simps u assms(5) split: option.splits outcome.splits prod.splits)
qed

theorem rollback_on_live_context_witness:
  "runTransactional cellBegin cellConn (cellFn (Ret None)) cellWorld =
   runTransactional (\<lambda>c. ret (Inr (cellRunner 2, cellTx\<lparr>txRollback := \<lambda>c s.
       if ctxErr s c = None then txRollback cellTx c s else (Some (Msg ''closed''), s)\<rparr>)))
     cellConn (cellFn (Ret None)) cellWorld"
  by (rule rollback_on_live_context [where tx = "cellRunner 2" and ?ops1.0 = cellTx and ?w1.0 = cellWorld
        and ?ops2.0 = "cellTx\<lparr>txRollback := \<lambda>c s.
          if ctxErr s c = None then txRollback cellTx c s else (Some (Msg ''closed''), s)\<rparr>"])
    (simp_all add: cellConn_def cellBegin_def act_simps sampleOptions_def newObservability_def)

text \<open>C14: every begun transaction is counted exactly once. Whatever the outcome, of the three
  counters of the collector observed at the begin one goes up by one and the others stay.\<close>
theorem transaction_counted_once:
  assumes "obsLogger (connObs src)"
    and "beg (beginCtx src w) w = (Ret (Inr (tx, ops1)), w1)"
    and "fn (derive src tx) w1 = (x, w2)" and "observed (connHooks src) w1 = Some a"
  shows "\<exists>lbl \<in> {txResultCommit, txResultRollback, txResultPanic}.
     txTotal (mcs (snd (runTransactional beg src fn w)) a)
       = (txTotal (mcs w2 a))(lbl := Suc (txTotal (mcs w2 a) lbl))"
proof -
  let ?i = "runner_id tx"
  have y: "settle src ?i ops1 (Some a) (x, w2) = runTransactional beg src fn w"
    using runTransactional_begun [of beg src w, OF assms(2), of fn] assms(3,4) by simp
  note paths = settle_paths [of src x ops1 w2 ?i "Some a", unfolded y settled_def]
  from assms(1) show ?thesis
    by (rule paths) (auto simp: bump_def countTx_def countComp_def)
qed

theorem transaction_counted_once_witness:
  "\<exists>lbl \<in> {txResultCommit, txResultRollback, txResultPanic}.
     txTotal (mcs (snd (runTransactional cellBegin cellConn (cellFn (Ret None))
        (cellWorld\<lparr>regs := \<lambda>_. \<lparr>hs = [], met = Some 3\<rparr>\<rparr>))) 3) = (\<lambda>_. 0)(lbl := 1)"
  using transaction_counted_once [of cellConn cellBegin "cellWorld\<lparr>regs := \<lambda>_. \<lparr>hs = [], met = Some 3\<rparr>\<rparr>"
      "cellRunner 2" cellTx "cellWorld\<lparr>regs := \<lambda>_. \<lparr>hs = [], met = Some 3\<rparr>\<rparr>" "cellFn (Ret None)" "Ret None"
      "snd (cellFn (Ret None) (derive cellConn (cellRunner 2)) (cellWorld\<lparr>regs := \<lambda>_. \<lparr>hs = [], met = Some 3\<rparr>\<rparr>))" 3]
  by (simp add: cell_defs act_simps callExec_def observed_def hr_observed_def NewMetricsCollector_def)

text \<open>C15: a callback error whose rollback fails is handled as a panic. The error returned joins both
  failures, but a second \<open>Rollback\<close> is sent, the transaction is counted under \<open>panic\<close>, a
  compensation is counted, and nothing is counted under \<open>rollback\<close>.\<close>
theorem failed_rollback_counts_as_panic:
  assumes "obsLogger (connObs src)"
    and "beg (beginCtx src w) w = (Ret (Inr (tx, ops1)), w1)"
    and "fn (derive src tx) w1 = (Ret (Some e), w2)" and "observed (connHooks src) w1 = Some a"
    and "txRollback ops1 (undoCtx src (env w2)) (env w2) = (Some re, s)"
  shows "\<exists>w'. runTransactional beg src fn w = (Ret (Some (Joined [e, wrapE ''database: rollback: '' re])), w')
     \<and> filter isTxControl (trace w') = filter isTxControl (trace w2)
         @ [TxControl (runner_id tx) ''Rollback'' (undoCtx src (env w2)),
            TxControl (runner_id tx) ''Rollback'' (detachedCtx src s)]
     \<and> txTotal (mcs w' a) = (txTotal (mcs w2 a))(''panic'' := Suc (txTotal (mcs w2 a) ''panic''))
     \<and> rollbackCompensations (mcs w' a) = Suc (rollbackCompensations (mcs w2 a))"
proof -
  let ?i = "runner_id tx"
  have y: "settle src ?i ops1 (Some a) (Ret (Some e), w2) = runTransactional beg src fn w"
    using runTransactional_begun [of beg src w, OF assms(2), of fn] assms(3,4) by simp
  obtain rb s' where rb: "txRollback ops1 (detachedCtx src s) s = (rb, s')" by fastforce
  show ?thesis
    using settle_error_stuck [OF assms(1,5) rb, where i = ?i and ?met1.0 = "Some a", of e, unfolded y settled_def]
    by (cases "runTransactional beg src fn w")
      (auto simp: bump_def countTx_def countComp_def txResultPanic_def dest!: unlogged_controls)
qed

theorem failed_rollback_counts_as_panic_witness:
  "\<exists>w'. runTransactional (\<lambda>c. ret (Inr (scriptRunner 2, scriptTx))) sampleConn
      (\<lambda>tx. ret (Some (Msg ''no''))) ((sampleWorld [] [Some (Msg ''conn closed'')])\<lparr>regs := \<lambda>_. \<lparr>hs = [], met = Some 3\<rparr>\<rparr>)
     = (Ret (Some (Joined [Msg ''no'', wrapE ''database: rollback: '' (Msg ''conn closed'')])), w')
     \<and> txTotal (mcs w' 3) ''panic'' = 1 \<and> txTotal (mcs w' 3) ''rollback'' = 0"
  using failed_rollback_counts_as_panic [of sampleConn "\<lambda>c. ret (Inr (scriptRunner 2, scriptTx))"
      "(sampleWorld [] [Some (Msg ''conn closed'')])\<lparr>regs := \<lambda>_. \<lparr>hs = [], met = Some 3\<rparr>\<rparr>"
      "scriptRunner 2" scriptTx "(sampleWorld [] [Some (Msg ''conn closed'')])\<lparr>regs := \<lambda>_. \<lparr>hs = [], met = Some 3\<rparr>\<rparr>"
      "\<lambda>tx. ret (Some (Msg ''no''))" "Msg ''no''"
      "(sampleWorld [] [Some (Msg ''conn closed'')])\<lparr>regs := \<lambda>_. \<lparr>hs = [], met = Some 3\<rparr>\<rparr>" 3
      "Msg ''conn closed''" "sampleEnv []"]
  by (auto simp: fixture_defs act_simps observed_def hr_observed_def NewMetricsCollector_def)

section \<open>Isolation levels\<close>

text \<open>Exactly the three documented levels are accepted, up to letter case and surrounding
  white space, and the level that reaches the driver is the canonical one. An invalid level
  fails before any connection work: no begin, no callback, the world is unchanged.\<close>
theorem isolation_level_checked_first:
  "case parseIsolationLevel level of
     Inr l \<Rightarrow> l \<in> {''read committed'', ''repeatable read'', ''serializable''}
       \<and> ToLower (TrimSpace level) = l
   | Inl e \<Rightarrow> ToLower (TrimSpace level) \<notin> {''read committed'', ''repeatable read'', ''serializable''}
       \<and> dbTransactionalLevel d level fn w = (Ret (Some e), w)"
  by (auto simp: parseIsolationLevel_def isolationLevels_def dbTransactionalLevel_def Let_def act_simps
      split: sum.splits)

end
