(* ===== verification/Go_Std.thy ===== *)
theory Go_Std
  imports Go_Strings
begin

text \<open>
  The parts of the standard packages \<open>net\<close>, \<open>net/url\<close>, \<open>time\<close> and \<open>fmt\<close> that the
  configuration code calls: host and port splitting, URL escaping, durations as text, and the
  \<open>%d:%d:%d\<close> scan. The error values of these functions are dropped by their callers, so a
  failing call is \<open>None\<close>.
\<close>

section \<open>Package net\<close>

fun indexByte :: "char \<Rightarrow> string \<Rightarrow> nat option" where
  "indexByte c [] = None"
| "indexByte c (d # s) = (if c = d then Some 0 else map_option Suc (indexByte c s))"

fun lastIndexByte :: "char \<Rightarrow> string \<Rightarrow> nat option" where
  "lastIndexByte c [] = None"
| "lastIndexByte c (d # s) =
     (case lastIndexByte c s of
        Some i \<Rightarrow> Some (Suc i)
      | None \<Rightarrow> if c = d then Some 0 else None)"

definition SplitHostPort :: "string \<Rightarrow> (string \<times> string) option" where
  "SplitHostPort hostport =
     (case lastIndexByte CHR '':'' hostport of
        None \<Rightarrow> None
      | Some i \<Rightarrow>
          let checked = (\<lambda>host j k.
            if CHR ''['' \<in> set (drop j hostport) \<or> CHR '']'' \<in> set (drop k hostport) then None
            else Some (host, drop (Suc i) hostport))
          in if hostport \<noteq> [] \<and> hd hostport = CHR ''[''
             then (case indexByte CHR '']'' hostport of
                     None \<Rightarrow> None
                   | Some e \<Rightarrow>
                       if Suc e = length hostport then None
                       else if Suc e = i then checked (take (e - 1) (drop 1 hostport)) 1 (Suc e)
                       else None)
             else if CHR '':'' \<in> set (take i hostport) then None
             else checked (take i hostport) 0 0)"

definition JoinHostPort :: "string \<Rightarrow> string \<Rightarrow> string" where
  "JoinHostPort host port =
     (if CHR '':'' \<in> set host then ''['' @ host @ '']:'' @ port else host @ '':'' @ port)"

section \<open>Package net/url\<close>

text \<open>The escaping modes that \<open>URL.String\<close> uses here.\<close>

datatype escapeMode = encodeHost | encodePath | encodeUserPassword

definition shouldEscape :: "char \<Rightarrow> escapeMode \<Rightarrow> bool" where
  "shouldEscape c mode =
     (if isAlphaA c \<or> isDigit c then False
      else if mode = encodeHost \<and> c \<in> set (''!$&()*+,;=:[]<>'' @ [CHR 0x27, dquote]) then False
      else if c \<in> set ''-_.~'' then False
      else if c \<in> set ''$&+,/:;=?@''
        then (case mode of
                encodePath \<Rightarrow> c = CHR ''?''
              | encodeUserPassword \<Rightarrow> c \<in> set ''@/?:''
              | encodeHost \<Rightarrow> True)
      else True)"

definition upperHex :: "nat \<Rightarrow> char" where
  "upperHex n = (if n < 10 then char_of (48 + n) else char_of (55 + n))"

definition escapeByte :: "escapeMode \<Rightarrow> char \<Rightarrow> string" where
  "escapeByte mode c =
     (if shouldEscape c mode
      then [CHR ''%'', upperHex (byte c div 16), upperHex (byte c mod 16)] else [c])"

definition escape :: "string \<Rightarrow> escapeMode \<Rightarrow> string" where
  "escape s mode = concat (map (escapeByte mode) s)"

text \<open>\<open>url.UserPassword(u, p).String()\<close>, and \<open>URL.String\<close> for a URL with scheme, host, rooted path
  and perhaps user information.\<close>

definition userinfoString :: "string \<Rightarrow> string \<Rightarrow> string" where
  "userinfoString u p = escape u encodeUserPassword @ '':'' @ escape p encodeUserPassword"

definition urlString :: "string \<Rightarrow> string option \<Rightarrow> string \<Rightarrow> string \<Rightarrow> string" where
  "urlString scheme userinfo host path =
     scheme @ ''://'' @ (case userinfo of None \<Rightarrow> [] | Some ui \<Rightarrow> ui @ ''@'')
       @ escape host encodeHost @ escape path encodePath"

section \<open>Package time\<close>

text \<open>\<open>Duration.String\<close>: \<open>fmtFrac\<close> delivers the fraction without trailing zeros and the integral
  part.\<close>

fun fracDigits :: "nat \<Rightarrow> nat \<Rightarrow> string \<Rightarrow> bool \<Rightarrow> string" where
  "fracDigits v 0 acc printing = (if printing then CHR ''.'' # acc else acc)"
| "fracDigits v (Suc prec) acc printing =
     (let d = v mod 10; p = (printing \<or> d \<noteq> 0)
      in fracDigits (v div 10) prec (if p then char_of (48 + d) # acc else acc) p)"

definition fmtFrac :: "nat \<Rightarrow> nat \<Rightarrow> string \<times> nat" where
  "fmtFrac v prec = (fracDigits v prec [] False, v div 10 ^ prec)"

definition microUnit :: string where
  "microUnit = [CHR 0xC2, CHR 0xB5, CHR ''s'']"

definition durationMagnitude :: "nat \<Rightarrow> string" where
  "durationMagnitude u =
     (if u < 1000000000
      then if u = 0 then ''0s''
           else if u < 1000 then natDigits u @ ''ns''
           else if u < 1000000
             then (case fmtFrac u 3 of (fr, n) \<Rightarrow> natDigits n @ fr @ microUnit)
           else (case fmtFrac u 6 of (fr, n) \<Rightarrow> natDigits n @ fr @ ''ms'')
      else (case fmtFrac u 9 of (fr, n) \<Rightarrow>
             (let sec = natDigits (n mod 60) @ fr @ ''s''; mins = n div 60
              in if mins = 0 then sec
                 else let minute = natDigits (mins mod 60) @ ''m'' @ sec; hours = mins div 60
                      in if hours = 0 then minute else natDigits hours @ ''h'' @ minute)))"

definition durationString :: "int \<Rightarrow> string" where
  "durationString d =
     (if d < 0 then CHR ''-'' # durationMagnitude (nat (- d)) else durationMagnitude (nat d))"

text \<open>
  \<open>ParseDuration\<close>. The digits before the point are a \<open>uint64\<close> that must not pass \<open>2^63\<close>; those
  after it are cut once they would. The fraction is computed in \<open>float64\<close>: \<open>roundF64 p q\<close> is the
  quotient \<open>p / q\<close> rounded to 53 significant bits, ties to even, as a numerator and a power of two
  (the values here are far from the ends of the exponent range).
\<close>

definition unitMap :: "string \<Rightarrow> nat option" where
  "unitMap u =
     (if u = ''ns'' then Some 1
      else if u = ''us'' \<or> u = microUnit \<or> u = [CHR 0xCE, CHR 0xBC, CHR ''s''] then Some 1000
      else if u = ''ms'' then Some 1000000
      else if u = ''s'' then Some 1000000000
      else if u = ''m'' then Some 60000000000
      else if u = ''h'' then Some 3600000000000
      else None)"

fun leadingInt :: "string \<Rightarrow> nat \<Rightarrow> (nat \<times> string) option" where
  "leadingInt [] x = Some (x, [])"
| "leadingInt (c # s) x =
     (if \<not> isDigit c then Some (x, c # s)
      else if 2 ^ 63 div 10 < x then None
      else let y = x * 10 + (byte c - 48) in if 2 ^ 63 < y then None else leadingInt s y)"

fun leadingFraction :: "string \<Rightarrow> nat \<Rightarrow> nat \<Rightarrow> bool \<Rightarrow> nat \<times> nat \<times> string" where
  "leadingFraction [] x scale overflow = (x, scale, [])"
| "leadingFraction (c # s) x scale overflow =
     (if \<not> isDigit c then (x, scale, c # s)
      else if overflow \<or> (2 ^ 63 - 1) div 10 < x then leadingFraction s x scale True
      else let y = x * 10 + (byte c - 48)
           in if 2 ^ 63 < y then leadingFraction s x scale True
              else leadingFraction s y (scale * 10) False)"

fun bitlen :: "nat \<Rightarrow> nat" where
  "bitlen n = (if n = 0 then 0 else Suc (bitlen (n div 2)))"

declare bitlen.simps [simp del]

definition divRound :: "nat \<Rightarrow> nat \<Rightarrow> nat" where
  "divRound p q =
     (let d = p div q; r = p mod q
      in if 2 * r < q \<or> (2 * r = q \<and> even d) then d else Suc d)"

text \<open>A positive quotient \<open>p / q\<close> as \<open>(m, e)\<close> with the value \<open>m * 2 ^ e\<close>: the quotient is exact when
  \<open>q\<close> divides \<open>p\<close> and the result has at most 53 bits; otherwise it is scaled until it has 53.\<close>

definition roundF64 :: "nat \<Rightarrow> nat \<Rightarrow> nat \<times> int" where
  "roundF64 p q =
     (if p mod q = 0 \<and> bitlen (p div q) \<le> 53 then (p div q, 0)
      else let e0 = int (bitlen p) - int (bitlen q) - 53;
               scaled = (\<lambda>e. if 0 \<le> e then (p, q * 2 ^ nat e) else (p * 2 ^ nat (- e), q));
               e = (case scaled e0 of (a, b) \<Rightarrow> if bitlen (a div b) < 53 then e0 - 1
                      else if 53 < bitlen (a div b) then e0 + 1 else e0)
           in case scaled e of (a, b) \<Rightarrow> (divRound a b, e))"

definition fracNanos :: "nat \<Rightarrow> nat \<Rightarrow> nat \<Rightarrow> nat" where
  "fracNanos f unit scale =
     (let (mf, ef) = roundF64 f 1; (mu, eu) = roundF64 unit scale; e = ef + eu;
          (m, e') = (if 0 \<le> e then roundF64 (mf * mu * 2 ^ nat e) 1
                     else roundF64 (mf * mu) (2 ^ nat (- e)))
      in if 0 \<le> e' then m * 2 ^ nat e' else m div 2 ^ nat (- e'))"

definition isUnitByte :: "char \<Rightarrow> bool" where
  "isUnitByte c \<longleftrightarrow> c \<noteq> CHR ''.'' \<and> \<not> isDigit c"

text \<open>One round of the loop of \<open>ParseDuration\<close>: the nanoseconds of the leading element and the rest.\<close>

definition durationElement :: "string \<Rightarrow> (nat \<times> string) option" where
  "durationElement s =
     (if s = [] \<or> \<not> (hd s = CHR ''.'' \<or> isDigit (hd s)) then None
      else case leadingInt s 0 of
        None \<Rightarrow> None
      | Some (v, s1) \<Rightarrow>
          let pre = (length s \<noteq> length s1);
              dot = (s1 \<noteq> [] \<and> hd s1 = CHR ''.'');
              (f, scale, s2) = (if dot then leadingFraction (tl s1) 0 1 False else (0, 1, s1));
              post = (dot \<and> length (tl s1) \<noteq> length s2);
              u = takeWhile isUnitByte s2; s3 = dropWhile isUnitByte s2
          in if \<not> pre \<and> \<not> post \<or> u = [] then None
             else case unitMap u of
               None \<Rightarrow> None
             | Some unit \<Rightarrow>
                 if 2 ^ 63 div unit < v then None
                 else let v1 = v * unit + (if 0 < f then fracNanos f unit scale else 0)
                      in if 0 < f \<and> 2 ^ 63 < v1 then None else Some (v1, s3))"

lemma leadingInt_rest: "leadingInt s x = Some (v, s1) \<Longrightarrow> length s1 \<le> length s"
  by (induction s x rule: leadingInt.induct) (auto simp: Let_def split: if_splits)

lemma leadingFraction_rest: "leadingFraction s x sc ov = (f, sc', s1) \<Longrightarrow> length s1 \<le> length s"
  by (induction s x sc ov rule: leadingFraction.induct)
    (auto simp: Let_def isDigit_def split: if_splits)

lemma dropWhile_shorter: "takeWhile P s \<noteq> [] \<Longrightarrow> length (dropWhile P s) < length s"
  by (cases s) (auto simp: le_imp_less_Suc length_dropWhile_le split: if_splits)

lemma durationElement_rest:
  assumes "durationElement s = Some (v, s')"
  shows "length s' < length s"
proof -
  from assms obtain v0 s1 where i: "leadingInt s 0 = Some (v0, s1)"
    by (auto simp: durationElement_def split: if_splits option.splits)
  obtain f sc s2 where f: "(if s1 \<noteq> [] \<and> hd s1 = CHR ''.'' then leadingFraction (tl s1) 0 1 False
      else (0, 1, s1)) = (f, sc, s2)"
    by (metis prod_cases3)
  from assms i f have "takeWhile isUnitByte s2 \<noteq> []" "s' = dropWhile isUnitByte s2"
    by (auto simp: durationElement_def Let_def split: if_splits option.splits)
  then have "length s' < length s2" by (simp add: dropWhile_shorter)
  also have "length s2 \<le> length s1"
    using f leadingFraction_rest [of "tl s1" 0 1 False] by (cases s1) (auto split: if_splits)
  also have "length s1 \<le> length s" by (rule leadingInt_rest [OF i])
  finally show ?thesis .
qed

function durationSum :: "string \<Rightarrow> nat \<Rightarrow> nat option" where
  "durationSum s d =
     (if s = [] then Some d
      else case durationElement s of
        None \<Rightarrow> None
      | Some (v, s') \<Rightarrow> if 2 ^ 63 < d + v then None else durationSum s' (d + v))"
  by pat_completeness auto
termination
  by (relation "measure (\<lambda>(s, d). length s)") (auto dest: durationElement_rest)

declare durationSum.simps [simp del]

definition ParseDuration :: "string \<Rightarrow> int option" where
  "ParseDuration orig =
     (let signed = (orig \<noteq> [] \<and> (hd orig = CHR ''-'' \<or> hd orig = CHR ''+''));
          neg = (orig \<noteq> [] \<and> hd orig = CHR ''-'');
          s = (if signed then tl orig else orig)
      in if s = ''0'' then Some 0
         else if s = [] then None
         else case durationSum s 0 of
           None \<Rightarrow> None
         | Some d \<Rightarrow>
             if neg then Some (- int d)
             else if 2 ^ 63 - 1 < d then None else Some (int d))"

section \<open>Package fmt\<close>

text \<open>
  \<open>fmt.Sscanf(s, "%d:%d:%d", ...)\<close>: each verb skips white space (a newline is an error),
  takes an optional sign and decimal digits that must fit an \<open>int\<close>; the
  colons are matched literally; what follows the last number is ignored.
\<close>

function scanSpace :: "string \<Rightarrow> string option" where
  "scanSpace s =
     (if HasPrefix s [CHR 0x0D, newline] then scanSpace (drop 1 s)
      else if HasPrefix s [newline] then None
      else case find (\<lambda>e. e \<noteq> [] \<and> HasPrefix s e) spaceEncodings of
        None \<Rightarrow> Some s
      | Some e \<Rightarrow> scanSpace (drop (length e) s))"
  by pat_completeness auto
termination
proof (relation "measure length", goal_cases)
  case 1
  show ?case by simp
next
  case (2 s)
  then show ?case by (cases s) (auto simp: HasPrefix_iff)
next
  case (3 s e)
  then have "e \<noteq> []" and "HasPrefix s e"
    by (auto simp: find_Some_iff)
  then show ?case by (cases s; cases e) auto
qed

declare scanSpace.simps [simp del]

definition scanInt :: "string \<Rightarrow> (int \<times> string) option" where
  "scanInt s0 =
     (case scanSpace s0 of
        None \<Rightarrow> None
      | Some s \<Rightarrow>
          let sign = (if s \<noteq> [] \<and> hd s \<in> set ''+-'' then take 1 s else []);
              s1 = drop (length sign) s;
              ds = takeWhile isDigit s1
          in if ds = [] then None
             else case Atoi (sign @ ds) of None \<Rightarrow> None | Some i \<Rightarrow> Some (i, dropWhile isDigit s1))"

definition scanColon :: "string \<Rightarrow> string option" where
  "scanColon s = (if s \<noteq> [] \<and> hd s = CHR '':'' then Some (tl s) else None)"

definition sscanfHMS :: "string \<Rightarrow> (int \<times> int \<times> int) option" where
  "sscanfHMS s =
     Option.bind (scanInt s) (\<lambda>(h, s1).
     Option.bind (scanColon s1) (\<lambda>s2.
     Option.bind (scanInt s2) (\<lambda>(m, s3).
     Option.bind (scanColon s3) (\<lambda>s4.
     Option.bind (scanInt s4) (\<lambda>(sec, s5). Some (h, m, sec))))))"

end
