(* ===== verification/Config.thy ===== *)
theory Config
  imports Go_Std World
begin

text \<open>
  internal/env/env.go and the configuration half of database.go: reading \<open>DATABASE_*\<close> variables,
  defaults, validation and the connection URL. The process environment is a function from names
  to values, empty for an unset variable as in \<open>os.Getenv\<close>. Loading dotenv files is godotenv's
  work and is a parameter: from the paths and the environment, an error and the new environment.
\<close>

type_synonym osEnv = "string \<Rightarrow> string"

type_synonym dotenv = "string list \<Rightarrow> osEnv \<Rightarrow> gerr option \<times> osEnv"

section \<open>env.go\<close>

definition Environment :: "dotenv \<Rightarrow> string list \<Rightarrow> osEnv \<Rightarrow> gerr option \<times> osEnv" where
  "Environment load files e =
     (if files = [] then load [] e
      else let paths = filter (\<lambda>v. v \<noteq> []) (map e files)
           in if paths = [] then load [] e else load paths e)"

definition envString :: "osEnv \<Rightarrow> string \<Rightarrow> string \<Rightarrow> string" where
  "envString e key fallback = (if e key \<noteq> [] then e key else fallback)"

definition envInt :: "osEnv \<Rightarrow> string \<Rightarrow> int \<Rightarrow> int" where
  "envInt e key fallback =
     (case Atoi (envString e key (Itoa fallback)) of None \<Rightarrow> fallback | Some v \<Rightarrow> v)"

definition envBool :: "osEnv \<Rightarrow> string \<Rightarrow> bool \<Rightarrow> bool" where
  "envBool e key fallback =
     (case ParseBool (envString e key (FormatBool fallback)) of None \<Rightarrow> fallback | Some v \<Rightarrow> v)"

definition envDuration :: "osEnv \<Rightarrow> string \<Rightarrow> int \<Rightarrow> int" where
  "envDuration e key fallback =
     (let raw = envString e key (durationString fallback)
      in case ParseDuration raw of
           Some v \<Rightarrow> v
         | None \<Rightarrow>
             (case sscanfHMS raw of
                Some (h, m, s) \<Rightarrow>
                  wrap64 (wrap64 (wrap64 (h * Hour) + wrap64 (m * Minute)) + wrap64 (s * Second))
              | None \<Rightarrow> fallback))"

section \<open>Options\<close>

definition envPrefix :: string where
  "envPrefix = ''DATABASE_''"

definition zeroOptions :: "'d options" where
  "zeroOptions =
     \<lparr>Host = [], Port = 0, Database = [], Username = [], Password = [], PoolMinSize = 0,
      PoolMaxSize = 0, CommandTimeout = 0, ConnectionTimeout = 0, RetryEnabled = False,
      RetryMaxCount = 0, RetryBaseDelay = 0, SlowQuery = 0, QueryHooks = [],
      HideQueryArgs = False, instrumentation = None\<rparr>"

definition Default :: "'d options" where
  "Default = zeroOptions
     \<lparr>PoolMinSize := 10, PoolMaxSize := 100, CommandTimeout := 30 * Second,
      ConnectionTimeout := 15 * Second, RetryEnabled := True, RetryMaxCount := 3,
      RetryBaseDelay := 100 * Millisecond, SlowQuery := 500 * Millisecond\<rparr>"

definition splitHostPort :: "string \<Rightarrow> int \<Rightarrow> string \<times> int" where
  "splitHostPort host0 port =
     (let host = TrimSpace host0
      in case SplitHostPort host of
           None \<Rightarrow> (host, port)
         | Some (parsedHost, parsedPort) \<Rightarrow>
             (case Atoi parsedPort of
                None \<Rightarrow> (host, port)
              | Some n \<Rightarrow> (parsedHost, n)))"

definition fromEnv :: "osEnv \<Rightarrow> 'd options \<Rightarrow> 'd options \<Rightarrow> 'd options" where
  "fromEnv e base1 o1 =
     (let (host, port) = splitHostPort (envString e ''DATABASE_HOST'' []) (envInt e ''DATABASE_PORT'' 0)
      in o1\<lparr>Host := host, Port := port,
           Database := envString e ''DATABASE_NAME'' [],
           Username := envString e ''DATABASE_USERNAME'' [],
           Password := envString e ''DATABASE_PASSWORD'' [],
           PoolMinSize := envInt e ''DATABASE_POOL_MIN_SIZE'' (PoolMinSize base1),
           PoolMaxSize := envInt e ''DATABASE_POOL_MAX_SIZE'' (PoolMaxSize base1),
           CommandTimeout := envDuration e ''DATABASE_COMMAND_TIMEOUT'' (CommandTimeout base1),
           ConnectionTimeout := envDuration e ''DATABASE_CONNECTION_TIMEOUT'' (ConnectionTimeout base1),
           RetryEnabled := envBool e ''DATABASE_RETRY_ENABLED'' (RetryEnabled base1),
           RetryMaxCount := envInt e ''DATABASE_RETRY_MAX_COUNT'' (RetryMaxCount base1),
           RetryBaseDelay := envDuration e ''DATABASE_RETRY_BASE_DELAY'' (RetryBaseDelay base1),
           SlowQuery := envDuration e ''DATABASE_SLOW_QUERY'' (SlowQuery base1)\<rparr>)"

definition LoadFromEnv :: "dotenv \<Rightarrow> osEnv \<Rightarrow> 'd options \<times> osEnv" where
  "LoadFromEnv load e =
     (let e1 = snd (Environment load [''DATABASE_ENV_FILE'', ''ENV_FILE''] e)
      in (fromEnv e1 Default Default, e1))"

definition missingOptions :: "'d options \<Rightarrow> string list" where
  "missingOptions o1 =
     (if TrimSpace (Database o1) = [] then [envPrefix @ ''NAME''] else [])
     @ (if TrimSpace (Username o1) = [] then [envPrefix @ ''USERNAME''] else [])
     @ (if TrimSpace (Password o1) = [] then [envPrefix @ ''PASSWORD''] else [])
     @ (if PoolMaxSize o1 \<le> 0 then [envPrefix @ ''POOL_MAX_SIZE (must be > 0)''] else [])"

definition Validate :: "'d options \<Rightarrow> gerr option" where
  "Validate o1 =
     (let missing = missingOptions o1
      in if missing \<noteq> []
         then Some (Msg (''database: missing or invalid configuration: '' @ Join missing '', ''))
         else None)"

definition dsn :: "'d options \<Rightarrow> string" where
  "dsn o1 =
     urlString ''postgres''
       (if Username o1 \<noteq> [] \<or> Password o1 \<noteq> []
        then Some (userinfoString (Username o1) (Password o1)) else None)
       (JoinHostPort (Host o1) (Itoa (Port o1)))
       (CHR ''/'' # Database o1)"

definition defaultRetryEnabled :: "'d options \<Rightarrow> 'd options \<Rightarrow> 'd options" where
  "defaultRetryEnabled o1 d =
     (if \<not> RetryEnabled o1 \<and> RetryMaxCount o1 = RetryMaxCount d \<and> RetryBaseDelay o1 = RetryBaseDelay d
      then o1\<lparr>RetryEnabled := RetryEnabled d\<rparr> else o1)"

definition withDefaults :: "'d options \<Rightarrow> 'd options" where
  "withDefaults o0 =
     (let d = Default;
          o1 = o0\<lparr>Host := (if Host o0 = [] then Host d else Host o0),
                 Port := (if Port o0 = 0 then Port d else Port o0),
                 Database := (if Database o0 = [] then Database d else Database o0),
                 Username := (if Username o0 = [] then Username d else Username o0),
                 Password := (if Password o0 = [] then Password d else Password o0),
                 PoolMinSize := (if PoolMinSize o0 = 0 then PoolMinSize d else PoolMinSize o0),
                 PoolMaxSize := (if PoolMaxSize o0 = 0 then PoolMaxSize d else PoolMaxSize o0),
                 CommandTimeout := (if CommandTimeout o0 = 0 then CommandTimeout d else CommandTimeout o0),
                 ConnectionTimeout :=
                   (if ConnectionTimeout o0 = 0 then ConnectionTimeout d else ConnectionTimeout o0),
                 RetryMaxCount := (if RetryMaxCount o0 = 0 then RetryMaxCount d else RetryMaxCount o0),
                 RetryBaseDelay := (if RetryBaseDelay o0 = 0 then RetryBaseDelay d else RetryBaseDelay o0)\<rparr>;
          o2 = defaultRetryEnabled o1 d
      in o2\<lparr>SlowQuery := (if SlowQuery o2 = 0 then SlowQuery d else SlowQuery o2)\<rparr>)"

text \<open>The pool sizes that \<open>newDB\<close> passes to pgxpool; both conversions to \<open>int32\<close> are of values in
  range.\<close>

definition poolSizes :: "'d options \<Rightarrow> int \<times> int" where
  "poolSizes o1 =
     (let minSize = min (max (PoolMinSize o1) 0) maxInt32;
          maxSize = max (PoolMaxSize o1) (minSize + 1)
      in (minSize, min maxSize maxInt32))"

end
