(* ===== verification/Durations.thy ===== *)
theory Durations
  imports Go_Std
begin

text \<open>
  \<open>time.ParseDuration\<close> inverts \<open>Duration.String\<close> on every 64-bit duration.
\<close>

section \<open>Digits\<close>

lemma digitsVal_ge: "x \<le> digitsVal ds x"
  by (induction ds x rule: digitsVal.induct) auto

definition noDigit :: "string \<Rightarrow> bool" where
  "noDigit s \<longleftrightarrow> s = [] \<or> \<not> isDigit (hd s)"

lemma leadingInt_digits:
  assumes "list_all isDigit ds" and "digitsVal ds x \<le> 2 ^ 63" and "noDigit rest"
  shows "leadingInt (ds @ rest) x = Some (digitsVal ds x, rest)"
  using assms(1,2)
proof (induction ds arbitrary: x)
  case Nil
  then show ?case using assms(3) by (cases rest) (auto simp: noDigit_def)
next
  case (Cons c ds)
  let ?y = "x * 10 + (byte c - 48)"
  have "?y \<le> digitsVal ds ?y" by (rule digitsVal_ge)
  also have "\<dots> \<le> 2 ^ 63" using Cons.prems(2) by (simp add: mult.commute)
  finally have y: "?y \<le> 2 ^ 63" .
  then have "x \<le> 2 ^ 63 div 10" by simp
  with Cons y show ?case by (simp add: Let_def mult.commute)
qed

lemma leadingFraction_digits:
  assumes "list_all isDigit ds" and "digitsVal ds x < 10 ^ 9" and "noDigit rest"
  shows "leadingFraction (ds @ rest) x sc False = (digitsVal ds x, sc * 10 ^ length ds, rest)"
  using assms(1,2)
proof (induction ds arbitrary: x sc)
  case Nil
  then show ?case using assms(3) by (cases rest) (auto simp: noDigit_def)
next
  case (Cons c ds)
  let ?y = "x * 10 + (byte c - 48)"
  have "?y \<le> digitsVal ds ?y" by (rule digitsVal_ge)
  also have "\<dots> < 10 ^ 9" using Cons.prems(2) by (simp add: mult.commute)
  finally have y: "?y < 10 ^ 9" .
  then have "\<not> (2 ^ 63 - 1) div 10 < x" "\<not> 2 ^ 63 < ?y" by simp_all
  with Cons y show ?case by (simp add: Let_def mult.commute mult.left_commute)
qed

text \<open>The fraction printed: nothing, or a point and the digits up to the last non-zero one.\<close>

lemma digit_char: "d < 10 \<Longrightarrow> isDigit (char_of (48 + d)) \<and> byte (char_of (48 + d)) - 48 = (d::nat)"
  by (simp add: isDigit_def)

lemma fracDigits_printing:
  "\<exists>ds. fracDigits v prec acc True = CHR ''.'' # ds @ acc \<and> length ds = prec
     \<and> list_all isDigit ds \<and> (\<forall>x. digitsVal ds x = x * 10 ^ prec + v mod 10 ^ prec)"
proof (induction prec arbitrary: v acc)
  case 0
  then show ?case by simp
next
  case (Suc prec)
  let ?c = "char_of (48 + v mod 10)"
  from Suc [of "v div 10" "?c # acc"] obtain ds where ds:
    "fracDigits (v div 10) prec (?c # acc) True = CHR ''.'' # ds @ ?c # acc" "length ds = prec"
    "list_all isDigit ds" "\<forall>x. digitsVal ds x = x * 10 ^ prec + v div 10 mod 10 ^ prec"
    by blast
  have "v mod 10 ^ Suc prec = 10 * (v div 10 mod 10 ^ prec) + v mod 10"
    by (simp add: mod_mult2_eq)
  then have "digitsVal (ds @ [?c]) x = x * 10 ^ Suc prec + v mod 10 ^ Suc prec" for x
    using ds(4) digit_char [of "v mod 10"] by (simp add: digitsVal_append algebra_simps)
  with ds(1-3) show ?case
    by (intro exI [of _ "ds @ [?c]"]) (simp add: digit_char)
qed

lemma fracDigits_cases:
  obtains (none) "fracDigits v prec [] False = []" "v mod 10 ^ prec = 0"
  | (some) ds where "fracDigits v prec [] False = CHR ''.'' # ds" "list_all isDigit ds" "ds \<noteq> []"
      "length ds \<le> prec" "0 < digitsVal ds 0" "digitsVal ds 0 * 10 ^ (prec - length ds) = v mod 10 ^ prec"
proof (induction prec arbitrary: v thesis)
  case 0
  then show ?case by simp
next
  case (Suc prec)
  have m: "v mod 10 ^ Suc prec = 10 * (v div 10 mod 10 ^ prec) + v mod 10"
    by (simp add: mod_mult2_eq)
  show ?case
  proof (cases "v mod 10 = 0")
    case True
    show ?thesis
    proof (rule Suc.IH [of "v div 10"], goal_cases)
      case 1
      then show ?case using True m by (intro Suc.prems(1)) (simp_all add: Let_def)
    next
      case (2 ds)
      then show ?case using True m by (intro Suc.prems(2) [of ds]) (simp_all add: Let_def Suc_diff_le)
    qed
  next
    case False
    from fracDigits_printing [of "v div 10" prec "[char_of (48 + v mod 10)]"] obtain ds where ds:
      "fracDigits (v div 10) prec [char_of (48 + v mod 10)] True = CHR ''.'' # ds @ [char_of (48 + v mod 10)]"
      "length ds = prec" "list_all isDigit ds"
      "digitsVal ds 0 = v div 10 mod 10 ^ prec" by auto
    show ?thesis
    proof (rule Suc.prems(2) [of "ds @ [char_of (48 + v mod 10)]"], goal_cases)
      case 1
      then show ?case using False ds(1) by (simp add: Let_def)
    qed (use False ds m in \<open>simp_all add: digit_char digitsVal_append\<close>)
  qed
qed

section \<open>Fractions in floating point\<close>

lemma bitlen_le: "n < 2 ^ k \<Longrightarrow> bitlen n \<le> k"
proof (induction k arbitrary: n)
  case 0
  then show ?case by (simp add: bitlen.simps)
next
  case (Suc k)
  then have "n div 2 < 2 ^ k" by (simp add: less_mult_imp_div_less mult.commute)
  with Suc.IH show ?case by (subst bitlen.simps) simp
qed

lemma roundF64_exact: "q dvd p \<Longrightarrow> p div q < 2 ^ 53 \<Longrightarrow> roundF64 p q = (p div q, 0)"
  by (simp add: roundF64_def bitlen_le dvd_imp_mod_0)

lemma fracNanos_exact:
  assumes "scale dvd unit" and "0 < scale" and "f < 2 ^ 53" and "unit < 2 ^ 53"
    and "f * (unit div scale) < 2 ^ 53"
  shows "fracNanos f unit scale = f * (unit div scale)"
proof -
  have "unit div scale < 2 ^ 53" using assms(4) by (meson div_le_dividend le_less_trans)
  then show ?thesis using assms by (simp add: fracNanos_def roundF64_exact)
qed

section \<open>Elements\<close>

text \<open>What follows an element in the printed form: nothing or another number.\<close>

definition nextElement :: "string \<Rightarrow> bool" where
  "nextElement s \<longleftrightarrow> s = [] \<or> isDigit (hd s)"

lemma unit_taken:
  assumes "list_all isUnitByte u" and "nextElement rest"
  shows "takeWhile isUnitByte (u @ rest) = u" and "dropWhile isUnitByte (u @ rest) = rest"
  using assms by (auto simp: nextElement_def isUnitByte_def list_all_iff takeWhile_append dropWhile_append
      takeWhile_eq_Nil_iff dropWhile_eq_self_iff)

lemma isDigit_not_dot: "\<not> isDigit CHR ''.''"
  by (simp add: isDigit_def)

lemma durationElement_int:
  assumes "unitMap u = Some unit" and "u \<noteq> []" and "list_all isUnitByte u" and "nextElement rest"
    and "n * unit \<le> 2 ^ 63" and "0 < unit"
  shows "durationElement (natDigits n @ u @ rest) = Some (n * unit, rest)"
proof -
  have n: "n \<le> 2 ^ 63 div unit" using assms(5,6) by (simp add: less_eq_div_iff_mult_less_eq)
  then have "n \<le> 2 ^ 63" by (meson div_le_dividend le_trans)
  moreover have "noDigit (u @ rest)"
    using assms(2,3) by (cases u) (auto simp: noDigit_def isUnitByte_def)
  ultimately have i: "leadingInt (natDigits n @ u @ rest) 0 = Some (n, u @ rest)"
    by (subst leadingInt_digits) (simp_all add: natDigits_isDigit digitsVal_natDigits)
  have "\<not> (u @ rest \<noteq> [] \<and> hd (u @ rest) = CHR ''.'')"
    using assms(2,3) by (cases u) (auto simp: isUnitByte_def)
  then show ?thesis
    using i n assms(1,2) unit_taken [OF assms(3,4)] hd_natDigits [of n]
    by (simp add: durationElement_def Let_def)
qed

lemma durationElement_frac:
  assumes "unitMap u = Some unit" and "u \<noteq> []" and "list_all isUnitByte u" and "nextElement rest"
    and ds: "list_all isDigit ds" "ds \<noteq> []" "0 < digitsVal ds 0" "digitsVal ds 0 < 10 ^ 9"
    and unit: "10 ^ length ds dvd unit" "unit < 2 ^ 53"
    and small: "digitsVal ds 0 * (unit div 10 ^ length ds) < 2 ^ 53"
    and total: "n * unit + digitsVal ds 0 * (unit div 10 ^ length ds) \<le> 2 ^ 63" and "0 < unit"
  shows "durationElement (natDigits n @ (CHR ''.'' # ds) @ u @ rest)
     = Some (n * unit + digitsVal ds 0 * (unit div 10 ^ length ds), rest)"
proof -
  have n: "n \<le> 2 ^ 63 div unit" using total \<open>0 < unit\<close> by (simp add: less_eq_div_iff_mult_less_eq)
  then have "n \<le> 2 ^ 63" by (meson div_le_dividend le_trans)
  then have i: "leadingInt (natDigits n @ CHR ''.'' # ds @ u @ rest) 0 = Some (n, CHR ''.'' # ds @ u @ rest)"
    by (subst leadingInt_digits)
      (simp_all add: natDigits_isDigit digitsVal_natDigits noDigit_def isDigit_not_dot)
  have "noDigit (u @ rest)"
    using assms(2,3) by (cases u) (auto simp: noDigit_def isUnitByte_def)
  then have f: "leadingFraction (ds @ u @ rest) 0 1 False = (digitsVal ds 0, 10 ^ length ds, u @ rest)"
    using leadingFraction_digits [OF ds(1,4)] by simp
  have "digitsVal ds 0 < 2 ^ 53" using ds(4) by simp
  then have "fracNanos (digitsVal ds 0) unit (10 ^ length ds) = digitsVal ds 0 * (unit div 10 ^ length ds)"
    using fracNanos_exact [OF unit(1) _ _ unit(2) small] by simp
  then show ?thesis
    using i f n total ds(2,3) assms(1,2) unit_taken [OF assms(3,4)] hd_natDigits [of n]
    by (simp add: durationElement_def Let_def)
qed

lemma durationElement_printed:
  assumes "unitMap u = Some (10 ^ k)" and "u \<noteq> []" and "list_all isUnitByte u" and "nextElement rest"
    and "k \<le> 9" and total: "m * 10 ^ k + v mod 10 ^ k \<le> 2 ^ 63"
  shows "durationElement (natDigits m @ fracDigits v k [] False @ u @ rest)
     = Some (m * 10 ^ k + v mod 10 ^ k, rest)"
proof (cases rule: fracDigits_cases [of v k])
  case none
  then show ?thesis using durationElement_int [OF assms(1-4), of m] total by simp
next
  case (some ds)
  have p: "(10 :: nat) ^ k div 10 ^ length ds = 10 ^ (k - length ds)"
    using some(4) by (simp add: power_diff)
  have "(10 :: nat) ^ k \<le> 10 ^ 9" using assms(5) by (rule power_increasing) simp
  moreover have "v mod 10 ^ k < 10 ^ k" by simp
  ultimately have b: "v mod 10 ^ k < 10 ^ 9" "(10 :: nat) ^ k \<le> 10 ^ 9" by linarith+
  have "digitsVal ds 0 \<le> digitsVal ds 0 * 10 ^ (k - length ds)" by simp
  then have d: "digitsVal ds 0 < 10 ^ 9" using some(6) b(1) by linarith
  have "durationElement (natDigits m @ (CHR ''.'' # ds) @ u @ rest)
      = Some (m * 10 ^ k + digitsVal ds 0 * (10 ^ k div 10 ^ length ds), rest)"
    by (rule durationElement_frac [OF assms(1-4) some(2,3,5) d])
      (use some b total p in \<open>simp_all add: le_imp_power_dvd\<close>)
  then show ?thesis using some p by simp
qed

section \<open>The round trip\<close>

lemma durationSum_step:
  assumes "durationElement s = Some (v, s')" and "d + v \<le> 2 ^ 63"
  shows "durationSum s d = durationSum s' (d + v)"
proof -
  have "s \<noteq> []" using durationElement_rest [OF assms(1)] by auto
  with assms show ?thesis by (subst durationSum.simps) simp
qed

lemma durationSum_Nil [simp]: "durationSum [] d = Some d"
  by (simp add: durationSum.simps)

lemma nextElement_simps [simp]: "nextElement []" "nextElement (natDigits n @ s)"
  using hd_natDigits [of n] by (simp_all add: nextElement_def)

lemma unit_facts:
  "unitMap ''ns'' = Some (10 ^ 0)" "unitMap microUnit = Some (10 ^ 3)" "unitMap ''ms'' = Some (10 ^ 6)"
  "unitMap ''s'' = Some (10 ^ 9)" "list_all isUnitByte ''ns''" "list_all isUnitByte microUnit"
  "list_all isUnitByte ''ms''" "list_all isUnitByte ''s''" "list_all isUnitByte ''m''"
  "list_all isUnitByte ''h''" "microUnit \<noteq> []"
  by (simp_all add: unitMap_def microUnit_def isUnitByte_def isDigit_def)

lemma durationSum_seconds:
  assumes "d + (m * 10 ^ 9 + v mod 10 ^ 9) \<le> 2 ^ 63"
  shows "durationSum (natDigits m @ fracDigits v 9 [] False @ ''s'') d = Some (d + (m * 10 ^ 9 + v mod 10 ^ 9))"
proof -
  have "durationElement (natDigits m @ fracDigits v 9 [] False @ ''s'' @ []) = Some (m * 10 ^ 9 + v mod 10 ^ 9, [])"
    by (rule durationElement_printed) (use assms in \<open>simp_all add: unit_facts isUnitByte_def isDigit_def\<close>)
  from durationSum_step [OF this assms] show ?thesis by simp
qed

lemma durationSum_int:
  assumes "unitMap u = Some unit" and "u \<noteq> []" and "list_all isUnitByte u" and "nextElement rest"
    and "d + n * unit \<le> 2 ^ 63" and "0 < unit"
  shows "durationSum (natDigits n @ u @ rest) d = durationSum rest (d + n * unit)"
  by (rule durationSum_step [OF durationElement_int [OF assms(1-4)]]) (use assms(5,6) in simp_all)

lemma durationSum_clock:
  fixes n v :: nat
  assumes "n * 10 ^ 9 + v mod 10 ^ 9 \<le> 2 ^ 63"
  shows "durationSum (natDigits (n div 60 div 60) @ ''h'' @ natDigits (n div 60 mod 60) @ ''m''
       @ natDigits (n mod 60) @ fracDigits v 9 [] False @ ''s'') 0 = Some (n * 10 ^ 9 + v mod 10 ^ 9)"
    and "durationSum (natDigits (n div 60 mod 60) @ ''m'' @ natDigits (n mod 60) @ fracDigits v 9 [] False @ ''s'')
       (n div 60 div 60 * 3600000000000) = Some (n * 10 ^ 9 + v mod 10 ^ 9)"
proof -
  let ?h = "n div 60 div 60" and ?m = "n div 60 mod 60" and ?s = "n mod 60"
  have "?h * 3600000000000 + ?m * 60000000000 + ?s * 1000000000 = n * 1000000000"
    using div_mult_mod_eq [of n 60] div_mult_mod_eq [of "n div 60" 60] by linarith
  then have split: "?h * 3600000000000 + ?m * 60000000000 + (?s * 10 ^ 9 + v mod 10 ^ 9) = n * 10 ^ 9 + v mod 10 ^ 9"
    by simp
  show sm: "durationSum (natDigits ?m @ ''m'' @ natDigits ?s @ fracDigits v 9 [] False @ ''s'') (?h * 3600000000000)
      = Some (n * 10 ^ 9 + v mod 10 ^ 9)"
    using durationSum_seconds [of "?h * 3600000000000 + ?m * 60000000000" ?s v] split assms
      durationSum_int [of "''m''" 60000000000 "natDigits ?s @ fracDigits v 9 [] False @ ''s''" "?h * 3600000000000" ?m]
    by (simp add: unitMap_def microUnit_def isUnitByte_def isDigit_def)
  show "durationSum (natDigits ?h @ ''h'' @ natDigits ?m @ ''m''
      @ natDigits ?s @ fracDigits v 9 [] False @ ''s'') 0 = Some (n * 10 ^ 9 + v mod 10 ^ 9)"
    using sm split assms
      durationSum_int [of "''h''" 3600000000000 "natDigits ?m @ ''m'' @ natDigits ?s @ fracDigits v 9 [] False @ ''s''" 0 ?h]
    by (simp add: unitMap_def microUnit_def isUnitByte_def isDigit_def)
qed

lemma durationSum_magnitude:
  assumes "u \<le> 2 ^ 63"
  shows "durationSum (durationMagnitude u) 0 = Some u"
proof -
  note split = mult_div_mod_eq [of _ u] div_mult_mod_eq [of u]
  consider "u = 0" | "0 < u" "u < 1000" | "1000 \<le> u" "u < 1000000" | "1000000 \<le> u" "u < 1000000000"
    | "1000000000 \<le> u"
    by linarith
  then show ?thesis
  proof cases
    case 1
    have "natDigits 0 = ''0''" by code_simp
    then show ?thesis
      using 1 durationSum_int [of "''s''" 1000000000 "[]" 0 0]
      by (simp add: durationMagnitude_def unitMap_def microUnit_def isUnitByte_def isDigit_def)
  next
    case 2
    then show ?thesis
      using durationSum_int [of "''ns''" 1 "[]" 0 u]
      by (simp add: durationMagnitude_def unitMap_def microUnit_def isUnitByte_def isDigit_def)
  next
    case 3
    have "durationElement (natDigits (u div 10 ^ 3) @ fracDigits u 3 [] False @ microUnit @ [])
        = Some (u div 10 ^ 3 * 10 ^ 3 + u mod 10 ^ 3, [])"
      by (rule durationElement_printed) (use 3 assms in \<open>simp_all add: unit_facts\<close>)
    from durationSum_step [OF this] 3 show ?thesis by (simp add: durationMagnitude_def fmtFrac_def)
  next
    case 4
    have "durationElement (natDigits (u div 10 ^ 6) @ fracDigits u 6 [] False @ ''ms'' @ [])
        = Some (u div 10 ^ 6 * 10 ^ 6 + u mod 10 ^ 6, [])"
      by (rule durationElement_printed)
        (use 4 assms in \<open>simp_all add: unit_facts isUnitByte_def isDigit_def\<close>)
    from durationSum_step [OF this] 4 show ?thesis by (simp add: durationMagnitude_def fmtFrac_def)
  next
    case 5
    let ?n = "u div 10 ^ 9"
    have u: "?n * 10 ^ 9 + u mod 10 ^ 9 = u" by simp
    have sec: "durationSum (natDigits (?n mod 60) @ fracDigits u 9 [] False @ ''s'') 0 = Some u" if "?n div 60 = 0"
      using durationSum_seconds [of 0 ?n u] assms u that by simp
    have mins: "durationSum (natDigits (?n div 60 mod 60) @ ''m'' @ natDigits (?n mod 60)
        @ fracDigits u 9 [] False @ ''s'') 0 = Some u" if "?n div 60 div 60 = 0"
      using durationSum_clock(2) [of ?n u] assms u that by simp
    have hours: "durationSum (natDigits (?n div 60 div 60) @ ''h'' @ natDigits (?n div 60 mod 60) @ ''m''
        @ natDigits (?n mod 60) @ fracDigits u 9 [] False @ ''s'') 0 = Some u"
      using durationSum_clock(1) [of ?n u] assms u by simp
    show ?thesis
      using 5 sec mins hours by (simp add: durationMagnitude_def fmtFrac_def Let_def)
  qed
qed

lemma durationMagnitude_starts_with_digit:
  "\<exists>c s. durationMagnitude u = c # s \<and> isDigit c \<and> s \<noteq> []"
proof -
  have "\<exists>c s'. natDigits m @ t = c # s' \<and> isDigit c \<and> s' \<noteq> []" if "t \<noteq> []" for m t
    using that natDigits_isDigit [of m] by (cases "natDigits m") auto
  then show ?thesis
    by (simp add: durationMagnitude_def fmtFrac_def Let_def microUnit_def isDigit_def)
qed

theorem ParseDuration_durationString:
  assumes "in64 d"
  shows "ParseDuration (durationString d) = Some d"
proof -
  have b: "nat (- d) \<le> 2 ^ 63" "nat d \<le> 2 ^ 63" and b': "0 \<le> d \<Longrightarrow> nat d \<le> 2 ^ 63 - 1"
    using assms by (auto simp: in64_def nat_le_iff)
  obtain c s where m: "durationMagnitude (nat (- d)) = c # s" "isDigit c" "s \<noteq> []"
    using durationMagnitude_starts_with_digit by blast
  obtain c' s' where m': "durationMagnitude (nat d) = c' # s'" "isDigit c'" "s' \<noteq> []"
    using durationMagnitude_starts_with_digit by blast
  have sg: "c' \<noteq> CHR ''-''" "c' \<noteq> CHR ''+''" using m'(2) by (auto simp: isDigit_def)
  show ?thesis
  proof (cases "d < 0")
    case True
    then show ?thesis
      using durationSum_magnitude [OF b(1)] m by (simp add: durationString_def ParseDuration_def Let_def)
  next
    case False
    then show ?thesis
      using durationSum_magnitude [OF b(2)] m' sg b'
      by (simp add: durationString_def ParseDuration_def Let_def)
  qed
qed

end
