(* ===== verification/Config_Properties.thy ===== *)
theory Config_Properties
  imports Config Durations
begin

text \<open>
  Properties of the configuration: the environment is read back as it was written, endpoints are
  split as they were joined, the connection URL parses back to the options, and the defaults and
  the pool sizes are what the constructors rely on.
\<close>

section \<open>Environment variables\<close>

text \<open>The environment that spells out all options of \<open>o1\<close>.\<close>

definition renderEnv :: "'d options \<Rightarrow> osEnv" where
  "renderEnv o1 = (\<lambda>_. [])
     (''DATABASE_HOST'' := Host o1, ''DATABASE_PORT'' := Itoa (Port o1),
      ''DATABASE_NAME'' := Database o1, ''DATABASE_USERNAME'' := Username o1,
      ''DATABASE_PASSWORD'' := Password o1,
      ''DATABASE_POOL_MIN_SIZE'' := Itoa (PoolMinSize o1),
      ''DATABASE_POOL_MAX_SIZE'' := Itoa (PoolMaxSize o1),
      ''DATABASE_COMMAND_TIMEOUT'' := durationString (CommandTimeout o1),
      ''DATABASE_CONNECTION_TIMEOUT'' := durationString (ConnectionTimeout o1),
      ''DATABASE_RETRY_ENABLED'' := FormatBool (RetryEnabled o1),
      ''DATABASE_RETRY_MAX_COUNT'' := Itoa (RetryMaxCount o1),
      ''DATABASE_RETRY_BASE_DELAY'' := durationString (RetryBaseDelay o1),
      ''DATABASE_SLOW_QUERY'' := durationString (SlowQuery o1))"

lemma Itoa_not_Nil [simp]: "Itoa i \<noteq> []"
  by (simp add: Itoa_def)

lemma durationString_not_Nil [simp]: "durationString d \<noteq> []"
  using durationMagnitude_starts_with_digit [of "nat d"] by (auto simp: durationString_def)

lemma FormatBool_not_Nil [simp]: "FormatBool b \<noteq> []"
  by (simp add: FormatBool_def)

lemma env_unset:
  "e key = [] \<Longrightarrow> envString e key s = s"
  "in64 n \<Longrightarrow> e key = [] \<Longrightarrow> envInt e key n = n"
  "e key = [] \<Longrightarrow> envBool e key b = b"
  "in64 d \<Longrightarrow> e key = [] \<Longrightarrow> envDuration e key d = d"
  by (simp_all add: envInt_def envBool_def envDuration_def envString_def Atoi_Itoa
      ParseDuration_durationString)

lemma splitHostPort_no_port:
  assumes "TrimSpace h = h" and "SplitHostPort h = None"
  shows "splitHostPort h p = (h, p)"
  using assms by (simp add: splitHostPort_def)

lemma TrimSpace_Nil [simp]: "TrimSpace [] = []"
  using length_TrimSpace [of "[]"] by simp

text \<open>The numeric options fit Go's integers.\<close>

definition optionsIn64 :: "'d options \<Rightarrow> bool" where
  "optionsIn64 o1 \<longleftrightarrow> list_all in64
     [Port o1, PoolMinSize o1, PoolMaxSize o1, CommandTimeout o1, ConnectionTimeout o1,
      RetryMaxCount o1, RetryBaseDelay o1, SlowQuery o1]"

lemma renderEnv_reads:
  assumes "optionsIn64 o1"
  shows "envString (renderEnv o1) ''DATABASE_HOST'' [] = Host o1"
    "envInt (renderEnv o1) ''DATABASE_PORT'' i = Port o1"
    "envString (renderEnv o1) ''DATABASE_NAME'' [] = Database o1"
    "envString (renderEnv o1) ''DATABASE_USERNAME'' [] = Username o1"
    "envString (renderEnv o1) ''DATABASE_PASSWORD'' [] = Password o1"
    "envInt (renderEnv o1) ''DATABASE_POOL_MIN_SIZE'' i = PoolMinSize o1"
    "envInt (renderEnv o1) ''DATABASE_POOL_MAX_SIZE'' i = PoolMaxSize o1"
    "envDuration (renderEnv o1) ''DATABASE_COMMAND_TIMEOUT'' i = CommandTimeout o1"
    "envDuration (renderEnv o1) ''DATABASE_CONNECTION_TIMEOUT'' i = ConnectionTimeout o1"
    "envBool (renderEnv o1) ''DATABASE_RETRY_ENABLED'' b = RetryEnabled o1"
    "envInt (renderEnv o1) ''DATABASE_RETRY_MAX_COUNT'' i = RetryMaxCount o1"
    "envDuration (renderEnv o1) ''DATABASE_RETRY_BASE_DELAY'' i = RetryBaseDelay o1"
    "envDuration (renderEnv o1) ''DATABASE_SLOW_QUERY'' i = SlowQuery o1"
  using assms
  by (simp_all add: optionsIn64_def renderEnv_def envInt_def envBool_def envDuration_def envString_def
      Atoi_Itoa ParseDuration_durationString)

text \<open>C16: configuration is read back from the environment as it was written. For options whose
  host carries no port of its own, reading the environment that spells them out gives the
  options again, whatever the defaults; in an empty environment every numeric option is its
  default.\<close>
theorem environment_roundtrip:
  assumes "optionsIn64 o1" and "optionsIn64 d" and "TrimSpace (Host o1) = Host o1"
    and "SplitHostPort (Host o1) = None"
    and "QueryHooks d = QueryHooks o1" "HideQueryArgs d = HideQueryArgs o1" "instrumentation d = instrumentation o1"
  shows "fromEnv (renderEnv o1) d d = o1
     \<and> fromEnv (\<lambda>_. []) d d = d\<lparr>Host := [], Port := 0, Database := [], Username := [], Password := []\<rparr>"
proof
  show "fromEnv (renderEnv o1) d d = o1"
    using assms(5-7) by (simp add: fromEnv_def renderEnv_reads [OF assms(1)]
        splitHostPort_no_port [OF assms(3,4)])
next
  have "splitHostPort [] 0 = ([], 0)"
    by (rule splitHostPort_no_port) (simp_all add: SplitHostPort_def)
  then show "fromEnv (\<lambda>_. []) d d = d\<lparr>Host := [], Port := 0, Database := [], Username := [], Password := []\<rparr>"
    using assms(2) by (simp add: fromEnv_def optionsIn64_def env_unset in64_def)
qed

theorem environment_roundtrip_witness:
  "fromEnv (renderEnv (Default\<lparr>Host := ''db'', Port := 5432, Password := ''p@ss''\<rparr> :: unit options)) Default Default
     = (Default\<lparr>Host := ''db'', Port := 5432, Password := ''p@ss''\<rparr> :: unit options)"
proof -
  have "TrimSpace ''db'' = ''db''" by code_simp
  moreover have "SplitHostPort ''db'' = None" by code_simp
  ultimately show ?thesis
    using environment_roundtrip [of "Default\<lparr>Host := ''db'', Port := 5432, Password := ''p@ss''\<rparr> :: unit options" Default]
    by (simp add: optionsIn64_def Default_def zeroOptions_def in64_def)
qed

section \<open>Endpoints\<close>

lemma lastIndexByte_append:
  "c \<notin> set b \<Longrightarrow> lastIndexByte c (a @ c # b) = Some (length a)"
proof -
  assume "c \<notin> set b"
  then have "lastIndexByte c b = None" by (induction b) auto
  then show ?thesis by (induction a) auto
qed

lemma indexByte_append: "c \<notin> set a \<Longrightarrow> indexByte c (a @ c # b) = Some (length a)"
  by (induction a) auto

lemma SplitHostPort_JoinHostPort:
  assumes "CHR ''['' \<notin> set host" "CHR '']'' \<notin> set host"
    and "set port \<inter> set '':[]'' = {}"
  shows "SplitHostPort (JoinHostPort host port) = Some (host, port)"
proof (cases "CHR '':'' \<in> set host")
  case True
  have j: "JoinHostPort host port = CHR ''['' # host @ CHR '']'' # CHR '':'' # port"
    using True by (simp add: JoinHostPort_def)
  have l: "lastIndexByte CHR '':'' (JoinHostPort host port) = Some (Suc (Suc (length host)))"
    using lastIndexByte_append [of "CHR '':''" port "CHR ''['' # host @ '']''"] assms(3) by (simp add: j)
  have i: "indexByte CHR '']'' (JoinHostPort host port) = Some (Suc (length host))"
    using indexByte_append [of "CHR '']''" "CHR ''['' # host" "CHR '':'' # port"] assms(2) by (simp add: j)
  show ?thesis
    using assms unfolding SplitHostPort_def l i by (simp add: j Let_def)
next
  case False
  then have j: "JoinHostPort host port = host @ CHR '':'' # port" by (simp add: JoinHostPort_def)
  have l: "lastIndexByte CHR '':'' (host @ CHR '':'' # port) = Some (length host)"
    using lastIndexByte_append [of "CHR '':''" port host] assms(3) by simp
  have "\<not> (host @ CHR '':'' # port \<noteq> [] \<and> hd (host @ CHR '':'' # port) = CHR ''['')"
    using assms(1) by (cases host) auto
  then show ?thesis
    using assms False unfolding SplitHostPort_def j l by (simp add: Let_def)
qed

lemma Itoa_chars: "set (Itoa i) \<subseteq> insert CHR ''-'' {c. isDigit c}"
  using natDigits_isDigit [of "nat i"] natDigits_isDigit [of "nat (- i)"]
  by (auto simp: Itoa_def list_all_iff)

lemma find_none_stripFront: "(\<And>e. e \<in> set encs \<Longrightarrow> e \<noteq> [] \<Longrightarrow> \<not> HasPrefix s e) \<Longrightarrow> stripFront encs s = s"
  by (subst stripFront.simps) (auto simp: find_Some_iff split: option.splits dest: nth_mem)

lemma HasPrefix_stop: "c \<notin> set e \<Longrightarrow> HasPrefix (h @ c # t) e \<Longrightarrow> HasPrefix h e"
proof (induction h arbitrary: e)
  case Nil
  then show ?case by (cases e) auto
next
  case (Cons x h)
  then show ?case by (cases e) auto
qed

lemma spaceEncodings_facts:
  "list_all (\<lambda>e. e \<noteq> [] \<and> \<not> isDigit (last e) \<and> CHR '':'' \<notin> set e \<and> hd e \<noteq> CHR ''['') spaceEncodings"
  by code_simp

lemma JoinHostPort_trimmed:
  assumes "\<And>e. e \<in> set spaceEncodings \<Longrightarrow> \<not> HasPrefix host e"
  shows "TrimSpace (JoinHostPort host (Itoa p)) = JoinHostPort host (Itoa p)"
proof -
  let ?j = "JoinHostPort host (Itoa p)"
  have enc: "e \<noteq> []" "\<not> isDigit (last e)" "CHR '':'' \<notin> set e" "hd e \<noteq> CHR ''[''"
    if "e \<in> set spaceEncodings" for e
    using spaceEncodings_facts that by (auto simp: list_all_iff)
  have "stripFront spaceEncodings ?j = ?j"
  proof (rule find_none_stripFront)
    fix e assume e: "e \<in> set spaceEncodings"
    show "\<not> HasPrefix ?j e"
    proof (cases "CHR '':'' \<in> set host")
      case True
      then show ?thesis using enc [OF e] by (cases e) (auto simp: JoinHostPort_def)
    next
      case False
      then show ?thesis
        using HasPrefix_stop [OF enc(3) [OF e], of host "Itoa p"] assms [OF e]
        by (auto simp: JoinHostPort_def)
    qed
  qed
  moreover have "stripFront (map rev spaceEncodings) (rev ?j) = rev ?j"
  proof (rule find_none_stripFront)
    fix e assume "e \<in> set (map rev spaceEncodings)" "e \<noteq> []"
    then obtain e' where e': "e = rev e'" "e' \<in> set spaceEncodings" by auto
    have d: "isDigit (last (natDigits n))" for n
      using natDigits_isDigit [of n] by (simp add: list_all_iff)
    have "?j \<noteq> []" "last ?j = last (Itoa p)" by (simp_all add: JoinHostPort_def)
    then obtain t where "rev ?j = last (Itoa p) # t" by (metis hd_rev list.collapse rev_is_Nil_conv)
    moreover have "isDigit (last (Itoa p))" using d by (simp add: Itoa_def)
    ultimately show "\<not> HasPrefix (rev ?j) e"
      using enc(1,2) [OF e'(2)] \<open>e \<noteq> []\<close> by (cases e) (auto simp: e'(1) hd_rev [symmetric])
  qed
  ultimately show ?thesis by (simp add: TrimSpace_def)
qed

text \<open>An endpoint in \<open>DATABASE_HOST\<close> is taken apart as it was put together: for a host name, an
  IPv4 or an IPv6 address (no brackets of its own, no leading white space) and any port, splitting
  the joined endpoint gives the host and the port, and the port found there wins over
  \<open>DATABASE_PORT\<close>.\<close>
theorem endpoint_roundtrip:
  assumes "CHR ''['' \<notin> set host" and "CHR '']'' \<notin> set host"
    and "\<And>e. e \<in> set spaceEncodings \<Longrightarrow> \<not> HasPrefix host e" and "in64 p"
  shows "splitHostPort (JoinHostPort host (Itoa p)) port = (host, p)"
proof -
  have "set (Itoa p) \<inter> set '':[]'' = {}"
    using Itoa_chars [of p] by (auto simp: isDigit_def)
  then show ?thesis
    using SplitHostPort_JoinHostPort [OF assms(1,2)] JoinHostPort_trimmed [OF assms(3)] Atoi_Itoa [OF assms(4)]
    by (simp add: splitHostPort_def)
qed

theorem endpoint_roundtrip_witness:
  "splitHostPort (JoinHostPort ''::1'' (Itoa 5432)) 0 = (''::1'', 5432)"
proof -
  have "list_all (\<lambda>e. \<not> HasPrefix ''::1'' e) spaceEncodings" by code_simp
  then show ?thesis
    by (intro endpoint_roundtrip) (auto simp: list_all_iff in64_def)
qed

section \<open>The connection URL\<close>

text \<open>
  How \<open>net/url\<close> reads a URL back: fragment and query are cut off, the authority ends at the first
  slash, the user information at its last at sign, the user name at the first colon, and percent
  escapes are decoded.
\<close>

definition unhex :: "char \<Rightarrow> nat option" where
  "unhex c =
     (if isDigit c then Some (byte c - 48)
      else if 65 \<le> byte c \<and> byte c \<le> 70 then Some (byte c - 55)
      else if 97 \<le> byte c \<and> byte c \<le> 102 then Some (byte c - 87)
      else None)"

fun unescape :: "string \<Rightarrow> string option" where
  "unescape [] = Some []"
| "unescape (c # s) =
     (if c = CHR ''%''
      then (case s of
              a # b # s' \<Rightarrow>
                (case (unhex a, unhex b) of
                   (Some x, Some y) \<Rightarrow> map_option ((#) (char_of (16 * x + y))) (unescape s')
                 | _ \<Rightarrow> None)
            | _ \<Rightarrow> None)
      else map_option ((#) c) (unescape s))"

definition parseURL :: "string \<Rightarrow> (string \<times> string \<times> string \<times> string) option" where
  "parseURL u =
     (if \<not> HasPrefix u ''postgres://'' then None
      else let rest = cutBefore (cutBefore (drop 11 u) CHR ''#'') CHR ''?'';
               auth = takeWhile (\<lambda>c. c \<noteq> CHR ''/'') rest;
               path = dropWhile (\<lambda>c. c \<noteq> CHR ''/'') rest
           in case lastIndexByte CHR ''@'' auth of
                None \<Rightarrow> None
              | Some i \<Rightarrow>
                  let ui = take i auth; host = drop (Suc i) auth
                  in case (unescape (takeWhile (\<lambda>c. c \<noteq> CHR '':'') ui),
                           unescape (drop 1 (dropWhile (\<lambda>c. c \<noteq> CHR '':'') ui)),
                           unescape path) of
                       (Some user, Some pass, Some p) \<Rightarrow> Some (user, pass, host, p)
                     | _ \<Rightarrow> None)"

lemma upperHex_facts:
  assumes "n < 16"
  shows "unhex (upperHex n) = Some n" and "\<not> shouldEscape (upperHex n) mode"
proof -
  have "byte (upperHex n) = (if n < 10 then 48 + n else 55 + n)"
    using assms by (simp add: upperHex_def)
  then show "unhex (upperHex n) = Some n" and "\<not> shouldEscape (upperHex n) mode"
    using assms by (auto simp: unhex_def isDigit_def shouldEscape_def isAlphaA_def isUpperA_def)
qed

lemma byte_nibble [simp]: "byte c div 16 < 16"
  using nat_of_char_less_256 [of c] by (simp add: less_mult_imp_div_less)

lemma shouldEscape_percent [simp]: "shouldEscape CHR ''%'' mode"
  by (cases mode) (simp_all add: shouldEscape_def isAlphaA_def isUpperA_def isLowerA_def isDigit_def)

lemma escape_chars: "c \<in> set (escape s mode) \<Longrightarrow> \<not> shouldEscape c mode \<or> c = CHR ''%''"
  by (auto simp: escape_def escapeByte_def upperHex_facts split: if_splits)

lemma escape_Cons: "escape (c # s) mode = escapeByte mode c @ escape s mode"
  by (simp add: escape_def)

lemma unescape_escape: "unescape (escape s mode) = Some s"
proof (induction s)
  case Nil
  then show ?case by (simp add: escape_def)
next
  case (Cons c s)
  show ?case
  proof (cases "shouldEscape c mode")
    case True
    have "16 * (byte c div 16) + byte c mod 16 = byte c" by simp
    with True Cons show ?thesis
      by (simp add: escape_Cons escapeByte_def upperHex_facts)
  next
    case False
    then have "c \<noteq> CHR ''%''" by auto
    with False Cons show ?thesis by (simp add: escape_Cons escapeByte_def)
  qed
qed

lemma escape_unchanged: "list_all (\<lambda>c. \<not> shouldEscape c mode) s \<Longrightarrow> escape s mode = s"
  by (induction s) (simp_all add: escape_Cons escapeByte_def, simp add: escape_def)

lemma cutBefore_id: "c \<notin> set s \<Longrightarrow> cutBefore s c = s"
  by (simp add: cutBefore_def takeWhile_eq_all_conv) metis

lemma take_drop_until:
  "c \<notin> set a \<Longrightarrow> takeWhile (\<lambda>x. x \<noteq> c) (a @ c # b) = a"
  "c \<notin> set a \<Longrightarrow> dropWhile (\<lambda>x. x \<noteq> c) (a @ c # b) = c # b"
  by (induction a) auto

lemma escape_excludes:
  assumes "list_all (\<lambda>x. shouldEscape x mode \<and> x \<noteq> CHR ''%'') xs"
  shows "set (escape s mode) \<inter> set xs = {}"
  using assms escape_chars [of _ s mode] by (auto simp: list_all_iff)

lemma escaped_sets:
  "list_all (\<lambda>x. shouldEscape x encodeUserPassword \<and> x \<noteq> CHR ''%'') ''@/?:#''"
  "list_all (\<lambda>x. shouldEscape x encodePath \<and> x \<noteq> CHR ''%'') ''?#''"
  "list_all (\<lambda>x. shouldEscape x encodeHost \<and> x \<noteq> CHR ''%'') ''@/?#''"
  "list_all (\<lambda>x. \<not> shouldEscape x encodeHost) ''-:[]''" "\<not> shouldEscape CHR ''/'' encodePath"
  by code_simp+

lemma digit_unescaped: "isDigit c \<Longrightarrow> \<not> shouldEscape c mode"
  by (simp add: shouldEscape_def)

lemma JoinHostPort_unescaped:
  assumes "list_all (\<lambda>c. \<not> shouldEscape c encodeHost) host"
  shows "list_all (\<lambda>c. \<not> shouldEscape c encodeHost) (JoinHostPort host (Itoa p))"
proof -
  have "\<forall>c \<in> set (Itoa p). \<not> shouldEscape c encodeHost"
    using Itoa_chars [of p] digit_unescaped escaped_sets(4) by auto
  then show ?thesis using assms escaped_sets(4) by (auto simp: JoinHostPort_def list_all_iff)
qed

text \<open>C17: nothing in the credentials or the database name can leave its place in the connection
  URL. For any user name and password (one of them non-empty), any database name and a host without
  characters that need escaping, the URL that \<open>dsn\<close> prints reads back as exactly these values, with no
  query and no fragment.\<close>
theorem dsn_roundtrip:
  assumes "Username o1 \<noteq> [] \<or> Password o1 \<noteq> []"
    and "list_all (\<lambda>c. \<not> shouldEscape c encodeHost) (Host o1)"
  shows "parseURL (dsn o1) =
     Some (Username o1, Password o1, JoinHostPort (Host o1) (Itoa (Port o1)), CHR ''/'' # Database o1)"
proof -
  define u p h where "u = escape (Username o1) encodeUserPassword"
    and "p = escape (Password o1) encodeUserPassword" and "h = JoinHostPort (Host o1) (Itoa (Port o1))"
  define path where "path = escape (CHR ''/'' # Database o1) encodePath"
  have h: "escape h encodeHost = h"
    unfolding h_def by (rule escape_unchanged [OF JoinHostPort_unescaped [OF assms(2)]])
  have path: "path = CHR ''/'' # escape (Database o1) encodePath"
    by (simp add: path_def escape_Cons escapeByte_def escaped_sets)
  have up: "set u \<inter> set ''@/?:#'' = {}" "set p \<inter> set ''@/?:#'' = {}"
    unfolding u_def p_def by (rule escape_excludes [OF escaped_sets(1)])+
  have hx: "set h \<inter> set ''@/?#'' = {}" using escape_excludes [OF escaped_sets(3), of h] by (simp only: h)
  have px: "set path \<inter> set ''?#'' = {}" unfolding path_def by (rule escape_excludes [OF escaped_sets(2)])
  have d: "dsn o1 = ''postgres://'' @ ((u @ CHR '':'' # p) @ CHR ''@'' # h) @ path"
    using assms(1) h
    by (simp add: dsn_def urlString_def userinfoString_def u_def p_def h_def path_def)
  have rest: "cutBefore (cutBefore (drop 11 (dsn o1)) CHR ''#'') CHR ''?'' = ((u @ CHR '':'' # p) @ CHR ''@'' # h) @ path"
    using up hx px by (simp add: d cutBefore_id)
  have "CHR ''/'' \<notin> set ((u @ CHR '':'' # p) @ CHR ''@'' # h)" using up hx by auto
  note split = take_drop_until [OF this, of "escape (Database o1) encodePath", folded path]
  have l: "lastIndexByte CHR ''@'' ((u @ CHR '':'' # p) @ CHR ''@'' # h) = Some (length (u @ CHR '':'' # p))"
    by (rule lastIndexByte_append) (use hx in auto)
  have c: "CHR '':'' \<notin> set u" using up by auto
  have "HasPrefix (dsn o1) ''postgres://''" by (simp add: d HasPrefix_iff)
  then show ?thesis
    unfolding parseURL_def rest split Let_def l
    using take_drop_until [OF c, of p]
    by (simp add: u_def p_def h_def path_def unescape_escape)
qed

theorem dsn_roundtrip_witness:
  "parseURL (dsn ((Default :: unit options)\<lparr>Host := ''db'', Port := 5432, Username := ''u@x'', Password := ''p/?#:'',
       Database := ''a?b''\<rparr>)) = Some (''u@x'', ''p/?#:'', JoinHostPort ''db'' (Itoa 5432), ''/a?b'')"
proof -
  have "list_all (\<lambda>c. \<not> shouldEscape c encodeHost) ''db''" by code_simp
  then show ?thesis
    using dsn_roundtrip [of "(Default :: unit options)\<lparr>Host := ''db'', Port := 5432, Username := ''u@x'',
        Password := ''p/?#:'', Database := ''a?b''\<rparr>"]
    by simp
qed

section \<open>Defaults, validation and pool sizes\<close>

lemma withDefaults_fields:
  "Host (withDefaults o1) = Host o1" "Port (withDefaults o1) = Port o1"
  "Database (withDefaults o1) = Database o1" "Username (withDefaults o1) = Username o1"
  "Password (withDefaults o1) = Password o1"
  "PoolMinSize (withDefaults o1) = (if PoolMinSize o1 = 0 then 10 else PoolMinSize o1)"
  "PoolMaxSize (withDefaults o1) = (if PoolMaxSize o1 = 0 then 100 else PoolMaxSize o1)"
  "CommandTimeout (withDefaults o1) = (if CommandTimeout o1 = 0 then 30 * Second else CommandTimeout o1)"
  "ConnectionTimeout (withDefaults o1) = (if ConnectionTimeout o1 = 0 then 15 * Second else ConnectionTimeout o1)"
  "RetryMaxCount (withDefaults o1) = (if RetryMaxCount o1 = 0 then 3 else RetryMaxCount o1)"
  "RetryBaseDelay (withDefaults o1) = (if RetryBaseDelay o1 = 0 then 100 * Millisecond else RetryBaseDelay o1)"
  "SlowQuery (withDefaults o1) = (if SlowQuery o1 = 0 then 500 * Millisecond else SlowQuery o1)"
  "QueryHooks (withDefaults o1) = QueryHooks o1" "HideQueryArgs (withDefaults o1) = HideQueryArgs o1"
  "instrumentation (withDefaults o1) = instrumentation o1"
  "RetryEnabled (withDefaults o1) \<longleftrightarrow> RetryEnabled o1
     \<or> RetryMaxCount o1 \<in> {0, 3} \<and> RetryBaseDelay o1 \<in> {0, 100 * Millisecond}"
  by (simp_all add: withDefaults_def Let_def defaultRetryEnabled_def Default_def zeroOptions_def) auto

lemma Default_fields:
  "PoolMinSize Default = 10" "PoolMaxSize Default = 100" "CommandTimeout Default = 30 * Second"
  "ConnectionTimeout Default = 15 * Second" "RetryMaxCount Default = 3"
  "RetryBaseDelay Default = 100 * Millisecond" "SlowQuery Default = 500 * Millisecond"
  by (simp_all add: Default_def zeroOptions_def)

lemma withDefaults_idem: "withDefaults (withDefaults o1) = withDefaults o1"
  by (rule options.equality) (auto simp: withDefaults_fields)

text \<open>\<open>withDefaults\<close> fills gaps and nothing else. It is idempotent, keeps every field that was set,
  leaves no timeout, retry count or delay at zero, and what \<open>Validate\<close> still rejects afterwards is a
  missing name, user or password, or a pool limit the caller set to a negative number.\<close>
theorem withDefaults_effective:
  "withDefaults (withDefaults o1) = withDefaults o1
   \<and> (\<forall>get \<in> {PoolMinSize, PoolMaxSize, CommandTimeout, ConnectionTimeout, RetryMaxCount, RetryBaseDelay, SlowQuery}.
        get (withDefaults o1) = (if get o1 = 0 then get Default else get o1) \<and> get (withDefaults o1) \<noteq> 0)
   \<and> (Validate (withDefaults o1) = None \<longleftrightarrow>
        TrimSpace (Database o1) \<noteq> [] \<and> TrimSpace (Username o1) \<noteq> [] \<and> TrimSpace (Password o1) \<noteq> []
        \<and> 0 \<le> PoolMaxSize o1)"
  by (intro conjI withDefaults_idem) (auto simp: withDefaults_fields Default_fields Validate_def missingOptions_def Let_def)

theorem withDefaults_effective_witness:
  "CommandTimeout (withDefaults (zeroOptions :: unit options)) \<noteq> 0"
  using withDefaults_effective [of "zeroOptions :: unit options"] by blast

text \<open>The sizes passed to the pool always fit 32 bits and are a valid pair: the minimum is never
  negative and never above the maximum, the maximum is at least one. Sizes with \<open>0 <= min < max\<close> in
  range are passed as they are.\<close>
theorem pool_sizes_valid:
  "case poolSizes o1 of (lo, hi) \<Rightarrow>
     0 \<le> lo \<and> lo \<le> hi \<and> 1 \<le> hi \<and> hi \<le> 2 ^ 31 - 1
     \<and> (0 \<le> PoolMinSize o1 \<and> PoolMinSize o1 < PoolMaxSize o1 \<and> PoolMaxSize o1 \<le> 2 ^ 31 - 1
        \<longrightarrow> lo = PoolMinSize o1 \<and> hi = PoolMaxSize o1)"
  by (auto simp: poolSizes_def maxInt32_def Let_def)

theorem pool_sizes_valid_witness:
  "poolSizes (Default :: unit options) = (10, 100)"
  using pool_sizes_valid [of "Default :: unit options"]
  by (simp add: Default_def zeroOptions_def split: prod.splits)

text \<open>A retry switched off in the environment comes back. With \<open>DATABASE_RETRY_ENABLED=false\<close> and
  the other retry variables unset, the options that are loaded say disabled and the effective
  ones, after \<open>withDefaults\<close>, say enabled.\<close>
theorem retry_switch_ignored:
  assumes "e ''DATABASE_RETRY_ENABLED'' = ''false''"
    and "e ''DATABASE_RETRY_MAX_COUNT'' = []" "e ''DATABASE_RETRY_BASE_DELAY'' = []"
  shows "\<not> RetryEnabled (fromEnv e Default Default :: 'd options)
     \<and> RetryEnabled (withDefaults (fromEnv e Default Default :: 'd options))"
proof -
  let ?o = "fromEnv e Default Default :: 'd options"
  have "RetryMaxCount ?o = 3" "RetryBaseDelay ?o = 100 * Millisecond" "\<not> RetryEnabled ?o"
    using assms env_unset(2) [of 3 e "''DATABASE_RETRY_MAX_COUNT''"]
      env_unset(4) [of "100 * Millisecond" e "''DATABASE_RETRY_BASE_DELAY''"]
    by (simp_all add: fromEnv_def Default_fields envBool_def envString_def ParseBool_def in64_def
        split: prod.splits)
  then show ?thesis by (simp add: withDefaults_fields)
qed

theorem retry_switch_ignored_witness:
  "RetryEnabled (withDefaults (fromEnv ((\<lambda>_. [])(''DATABASE_RETRY_ENABLED'' := ''false'')) Default Default
     :: unit options))"
  using retry_switch_ignored [of "(\<lambda>_. [])(''DATABASE_RETRY_ENABLED'' := ''false'')", where 'd = unit] by simp

end
