(* ===== verification/Go_Regexp.thy ===== *)
theory Go_Regexp
  imports Go_Strings
begin

text \<open>
  The part of Go's \<open>regexp\<close> package that the library uses. An expression is matched on byte
  positions of the whole text; \<open>ends r s i\<close> lists the end positions of the matches of \<open>r\<close> that start
  at \<open>i\<close>, the preferred one first (leftmost-first semantics: alternatives from left to right,
  repetitions as long as possible). Character classes are of ASCII bytes; the runes beyond ASCII
  that a folded class contains are given by their encodings.
\<close>

datatype regex =
    Eps
  | Cls "char \<Rightarrow> bool"
  | Seq regex regex
  | Alt regex regex
  | Star regex
  | Bol
  | Eol
  | WordB

definition wordAt :: "string \<Rightarrow> nat \<Rightarrow> bool" where
  "wordAt s i \<longleftrightarrow> i < length s \<and> isWord (s ! i)"

definition boundary :: "string \<Rightarrow> nat \<Rightarrow> bool" where
  "boundary s i \<longleftrightarrow> (0 < i \<and> wordAt s (i - 1)) \<noteq> wordAt s i"

function (sequential) ends :: "regex \<Rightarrow> string \<Rightarrow> nat \<Rightarrow> nat list" where
  "ends Eps s i = [i]"
| "ends (Cls p) s i = (if i < length s \<and> p (s ! i) then [Suc i] else [])"
| "ends (Seq r1 r2) s i = concat (map (ends r2 s) (ends r1 s i))"
| "ends (Alt r1 r2) s i = ends r1 s i @ ends r2 s i"
| "ends (Star r) s i =
     concat (map (ends (Star r) s) (filter (\<lambda>j. i < j \<and> j \<le> length s) (ends r s i))) @ [i]"
| "ends Bol s i = (if i = 0 then [i] else [])"
| "ends Eol s i = (if i = length s then [i] else [])"
| "ends WordB s i = (if boundary s i then [i] else [])"
  by pat_completeness auto
termination
  by (relation "measures [\<lambda>(r, s, i). size r, \<lambda>(r, s, i). length s - i]") auto

lemmas ends_Star = ends.simps(5)
declare ends.simps(5) [simp del]

text \<open>\<open>FindStringIndex\<close>, \<open>MatchString\<close> and \<open>FindString\<close>: the leftmost start with a match.\<close>

definition findIndex :: "regex \<Rightarrow> string \<Rightarrow> (nat \<times> nat) option" where
  "findIndex r s =
     (case filter (\<lambda>i. ends r s i \<noteq> []) [0..<Suc (length s)] of
        [] \<Rightarrow> None
      | i # _ \<Rightarrow> Some (i, hd (ends r s i)))"

definition matchString :: "regex \<Rightarrow> string \<Rightarrow> bool" where
  "matchString r s \<longleftrightarrow> findIndex r s \<noteq> None"

definition sub :: "string \<Rightarrow> nat \<Rightarrow> nat \<Rightarrow> string" where
  "sub s i j = take (j - i) (drop i s)"

definition findString :: "regex \<Rightarrow> string \<Rightarrow> string" where
  "findString r s = (case findIndex r s of None \<Rightarrow> [] | Some (i, j) \<Rightarrow> sub s i j)"

text \<open>\<open>FindStringSubmatch\<close> of an expression \<open>pre(grp)\<close> whose only group is its last part: the text of the
  group.\<close>

definition groupAt :: "regex \<Rightarrow> regex \<Rightarrow> string \<Rightarrow> nat \<Rightarrow> (nat \<times> nat) list" where
  "groupAt pre grp s i = concat (map (\<lambda>j. map (Pair j) (ends grp s j)) (ends pre s i))"

definition findGroup :: "regex \<Rightarrow> regex \<Rightarrow> string \<Rightarrow> string option" where
  "findGroup pre grp s =
     (case filter (\<lambda>i. groupAt pre grp s i \<noteq> []) [0..<Suc (length s)] of
        [] \<Rightarrow> None
      | i # _ \<Rightarrow> (case hd (groupAt pre grp s i) of (j, k) \<Rightarrow> Some (sub s j k)))"

text \<open>\<open>ReplaceAllStringFunc\<close> for an expression that never matches the empty text.\<close>

function replaceFrom :: "regex \<Rightarrow> (string \<Rightarrow> string) \<Rightarrow> string \<Rightarrow> nat \<Rightarrow> string" where
  "replaceFrom r f s i =
     (if length s \<le> i then []
      else case ends r s i of
        [] \<Rightarrow> s ! i # replaceFrom r f s (Suc i)
      | j # _ \<Rightarrow> if i < j then f (sub s i j) @ replaceFrom r f s j else s ! i # replaceFrom r f s (Suc i))"
  by pat_completeness auto
termination
  by (relation "measure (\<lambda>(r, f, s, i). length s - i)") auto

declare replaceFrom.simps [simp del]

definition ReplaceAllStringFunc :: "regex \<Rightarrow> string \<Rightarrow> (string \<Rightarrow> string) \<Rightarrow> string" where
  "ReplaceAllStringFunc r s f = replaceFrom r f s 0"

section \<open>Common expressions\<close>

definition isSpaceRE :: "char \<Rightarrow> bool" where
  "isSpaceRE c \<longleftrightarrow> byte c \<in> {9, 10, 12, 13, 32}"

abbreviation Plus :: "regex \<Rightarrow> regex" where "Plus r \<equiv> Seq r (Star r)"
abbreviation Opt :: "regex \<Rightarrow> regex" where "Opt r \<equiv> Alt r Eps"
abbreviation Spaces1 :: regex where "Spaces1 \<equiv> Plus (Cls isSpaceRE)"

fun Bytes :: "string \<Rightarrow> regex" where
  "Bytes [] = Eps"
| "Bytes (c # s) = Seq (Cls (\<lambda>x. x = c)) (Bytes s)"

text \<open>A letter under \<open>(?i)\<close>: both cases, and the long s and the Kelvin sign for s and k.\<close>

definition foldLetter :: "char \<Rightarrow> regex" where
  "foldLetter c =
     (let ascii = Cls (\<lambda>x. toLowerA x = toLowerA c)
      in if toLowerA c = CHR ''s'' then Alt ascii (Bytes [CHR 0xC5, CHR 0xBF])
         else if toLowerA c = CHR ''k'' then Alt ascii (Bytes [CHR 0xE2, CHR 0x84, CHR 0xAA])
         else ascii)"

primrec FoldWord :: "string \<Rightarrow> regex" where
  "FoldWord [] = Eps"
| "FoldWord (c # s) = Seq (foldLetter c) (FoldWord s)"

text \<open>\<open>[\w.]\<close> under \<open>(?i)\<close>.\<close>

definition foldWordDot :: regex where
  "foldWordDot = Alt (Cls (\<lambda>c. isWord c \<or> c = CHR ''.''))
     (Alt (Bytes [CHR 0xC5, CHR 0xBF]) (Bytes [CHR 0xE2, CHR 0x84, CHR 0xAA]))"

section \<open>Facts\<close>

lemma ends_bounds: "i \<le> length s \<Longrightarrow> j \<in> set (ends r s i) \<Longrightarrow> i \<le> j \<and> j \<le> length s"
proof (induction r s i arbitrary: j rule: ends.induct)
  case (3 r1 r2 s i)
  from "3.prems"(2) obtain k where k: "k \<in> set (ends r1 s i)" "j \<in> set (ends r2 s k)" by auto
  then have "i \<le> k \<and> k \<le> length s" using "3.IH"(1) "3.prems"(1) by blast
  moreover from this have "k \<le> j \<and> j \<le> length s" using "3.IH"(2) k by blast
  ultimately show ?case by simp
next
  case (5 r s i)
  consider (stop) "j = i" | (more) k where "k \<in> set (ends r s i)" "i < k" "k \<le> length s" "j \<in> set (ends (Star r) s k)"
    using "5.prems"(2) by (auto simp: ends_Star [of r s i])
  then show ?case
  proof cases
    case stop
    then show ?thesis using "5.prems"(1) by simp
  next
    case (more k)
    then have "k \<in> set (filter (\<lambda>j. i < j \<and> j \<le> length s) (ends r s i))" by simp
    from "5.IH"(2) [OF this more(3,4)] have "k \<le> j \<and> j \<le> length s" .
    then show ?thesis using more(2) by simp
  qed
qed (auto split: if_splits)

lemma findIndex_bounds:
  assumes "findIndex r s = Some (i, j)"
  shows "i \<le> j" and "j \<le> length s" and "j \<in> set (ends r s i)"
proof -
  obtain xs where "filter (\<lambda>i. ends r s i \<noteq> []) [0..<Suc (length s)] = i # xs" and j: "j = hd (ends r s i)"
    using assms by (auto simp: findIndex_def split: list.splits)
  then have "i \<in> set (filter (\<lambda>i. ends r s i \<noteq> []) [0..<Suc (length s)])" by (simp del: upt_Suc)
  then have i: "i \<le> length s" "ends r s i \<noteq> []" by (auto simp del: upt_Suc)
  show "j \<in> set (ends r s i)" using i(2) j by simp
  then show "i \<le> j" and "j \<le> length s" using ends_bounds [OF i(1)] by auto
qed

lemma matchString_iff: "matchString r s \<longleftrightarrow> (\<exists>i \<le> length s. ends r s i \<noteq> [])"
proof -
  have "matchString r s \<longleftrightarrow> filter (\<lambda>i. ends r s i \<noteq> []) [0..<Suc (length s)] \<noteq> []"
    by (simp add: matchString_def findIndex_def split: list.splits)
  also have "\<dots> \<longleftrightarrow> (\<exists>i \<in> set [0..<Suc (length s)]. ends r s i \<noteq> [])"
    by (simp only: filter_empty_conv ball_simps) blast
  also have "\<dots> \<longleftrightarrow> (\<exists>i \<le> length s. ends r s i \<noteq> [])"
    by (auto simp: less_Suc_eq_le simp del: upt_Suc)
  finally show ?thesis .
qed

lemma ends_Star_Cls:
  "i \<le> length s \<Longrightarrow> j \<in> set (ends (Star (Cls p)) s i) \<longleftrightarrow> i \<le> j \<and> j \<le> length s \<and> (\<forall>k. i \<le> k \<and> k < j \<longrightarrow> p (s ! k))"
proof (induction "length s - i" arbitrary: i)
  case 0
  then show ?case by (auto simp: ends_Star)
next
  case (Suc n)
  then have l: "i < length s" "n = length s - Suc i" by auto
  show ?case
  proof (cases "p (s ! i)")
    case True
    then have "j \<in> set (ends (Star (Cls p)) s i) \<longleftrightarrow> j = i \<or> j \<in> set (ends (Star (Cls p)) s (Suc i))"
      using l by (subst ends_Star) auto
    also have "\<dots> \<longleftrightarrow> i \<le> j \<and> j \<le> length s \<and> (\<forall>k. i \<le> k \<and> k < j \<longrightarrow> p (s ! k))"
    proof -
      have "(\<forall>k. i \<le> k \<and> k < j \<longrightarrow> p (s ! k)) \<longleftrightarrow> (\<forall>k. Suc i \<le> k \<and> k < j \<longrightarrow> p (s ! k))"
        using True by (metis Suc_leD Suc_leI le_neq_implies_less)
      then show ?thesis using Suc.hyps(1) [OF l(2)] l(1) by (cases "j = i") auto
    qed
    finally show ?thesis .
  next
    case False
    then have "j \<in> set (ends (Star (Cls p)) s i) \<longleftrightarrow> j = i"
      using l by (subst ends_Star) auto
    with False l show ?thesis by (auto simp: le_less)
  qed
qed

lemma ends_Seq_assoc: "ends (Seq (Seq a b) c) s i = ends (Seq a (Seq b c)) s i"
proof -
  have "concat (map f (concat (map g xs))) = concat (map (\<lambda>x. concat (map f (g x))) xs)"
    for f :: "nat \<Rightarrow> nat list" and g :: "nat \<Rightarrow> nat list" and xs
    by (induction xs) auto
  moreover have "ends (Seq b c) s = (\<lambda>x. concat (map (ends c s) (ends b s x)))"
    by (rule ext) simp
  ultimately show ?thesis by simp
qed

text \<open>Anchored expressions over classes, as in \<open>^[...][...]*$\<close> and \<open>^[...]+$\<close>.\<close>

lemma match_anchored_head:
  "matchString (Seq Bol (Seq (Cls q) (Seq (Star (Cls p)) Eol))) s \<longleftrightarrow> s \<noteq> [] \<and> q (hd s) \<and> list_all p (tl s)"
proof -
  have c: "ends (Seq Bol (Seq (Cls q) (Seq (Star (Cls p)) Eol))) s i \<noteq> []
      \<longleftrightarrow> i = 0 \<and> s \<noteq> [] \<and> q (hd s) \<and> list_all p (tl s)" if "i \<le> length s" for i
  proof (cases s)
    case (Cons c t)
    have "length s \<in> set (ends (Star (Cls p)) s 1) \<longleftrightarrow> (\<forall>k. 1 \<le> k \<and> k < length s \<longrightarrow> p (s ! k))"
      by (subst ends_Star_Cls) (simp_all add: Cons)
    also have "\<dots> \<longleftrightarrow> list_all p t"
      unfolding list_all_length Cons
      by (metis (no_types, lifting) One_nat_def Suc_le_eq Suc_less_eq gr0_conv_Suc length_Cons nth_Cons_Suc zero_less_Suc)
    finally have e: "length s \<in> set (ends (Star (Cls p)) s 1) \<longleftrightarrow> list_all p t" .
    show ?thesis
    proof (cases "i = 0")
      case True
      have "ends (Seq Bol (Seq (Cls q) (Seq (Star (Cls p)) Eol))) s i \<noteq> []
          \<longleftrightarrow> q c \<and> length s \<in> set (ends (Star (Cls p)) s 1)"
        using True by (auto simp: Cons)
      then show ?thesis using True e by (simp add: Cons)
    qed simp
  qed (auto split: if_splits)
  show ?thesis unfolding matchString_iff by (metis c le0)
qed

lemma match_anchored_class:
  "matchString (Seq Bol (Seq (Plus (Cls p)) Eol)) s \<longleftrightarrow> s \<noteq> [] \<and> list_all p s"
proof -
  have "ends (Seq Bol (Seq (Plus (Cls p)) Eol)) s i = ends (Seq Bol (Seq (Cls p) (Seq (Star (Cls p)) Eol))) s i" for i
    using ends_Seq_assoc [of "Cls p" "Star (Cls p)" Eol s] by simp
  then have "matchString (Seq Bol (Seq (Plus (Cls p)) Eol)) s
      \<longleftrightarrow> matchString (Seq Bol (Seq (Cls p) (Seq (Star (Cls p)) Eol))) s"
    by (simp only: matchString_iff)
  also have "\<dots> \<longleftrightarrow> s \<noteq> [] \<and> list_all p s"
    unfolding match_anchored_head by (cases s) auto
  finally show ?thesis .
qed

end
