(* ===== verification/Tracing.thy ===== *)
theory Tracing
  imports Core Go_Regexp
begin

text \<open>
  statement.go and pgx_tracer.go: the name of a statement, derived from its text by regular
  expressions, and the driver-level spans that carry it. Indices into the text are byte positions, and
  the text cut at such an index stays within its bounds.
\<close>

section \<open>Names of statements\<close>

definition quoteOpt :: regex where
  "quoteOpt = Opt (Cls (\<lambda>c. c = dquote))"

text \<open>The group all four expressions end with, \<open>("?[\w.]+"?)\<close>, and \<open>(?:only\s+)?\<close>.\<close>

definition tableRe :: regex where
  "tableRe = Seq quoteOpt (Seq (Plus foldWordDot) quoteOpt)"

definition onlyOpt :: regex where
  "onlyOpt = Opt (Seq (FoldWord ''only'') Spaces1)"

definition insertTable :: regex where
  "insertTable = Seq Bol (Seq (FoldWord ''insert'') (Seq Spaces1 (Seq (FoldWord ''into'') Spaces1)))"

definition updateTable :: regex where
  "updateTable = Seq Bol (Seq (FoldWord ''update'') (Seq Spaces1 onlyOpt))"

definition deleteTable :: regex where
  "deleteTable = Seq Bol (Seq (FoldWord ''delete'') (Seq Spaces1 (Seq (FoldWord ''from'') (Seq Spaces1 onlyOpt))))"

definition selectTable :: regex where
  "selectTable = Seq WordB (Seq (FoldWord ''from'') (Seq Spaces1 onlyOpt))"

definition firstWord :: regex where
  "firstWord = Seq Bol (Plus (Cls isAlphaA))"

definition mainDML :: regex where
  "mainDML =
     Seq WordB (Seq
       (Alt (Seq (FoldWord ''insert'') (Seq Spaces1 (FoldWord ''into'')))
         (Alt (FoldWord ''update'')
           (Alt (Seq (FoldWord ''delete'') (Seq Spaces1 (FoldWord ''from''))) (FoldWord ''select''))))
       WordB)"

abbreviation squote :: char where "squote \<equiv> CHR 0x27"

definition literal :: regex where
  "literal = Seq (Cls (\<lambda>c. c = squote))
     (Seq (Star (Alt (Cls (\<lambda>c. c \<noteq> squote)) (Bytes [squote, squote]))) (Cls (\<lambda>c. c = squote)))"

text \<open>\<open>blankNested\<close>, from a nesting depth on.\<close>

fun blankFrom :: "nat \<Rightarrow> string \<Rightarrow> string" where
  "blankFrom depth [] = []"
| "blankFrom depth (c # s) =
     (if c = CHR ''('' then c # blankFrom (Suc depth) s
      else if c = CHR '')'' then c # blankFrom (depth - 1) s
      else (if 0 < depth then CHR '' '' else c) # blankFrom depth s)"

definition blankNested :: "string \<Rightarrow> string" where
  "blankNested s = blankFrom 0 s"

function stripLeadingComments :: "string \<Rightarrow> string" where
  "stripLeadingComments sql0 =
     (let sql = TrimSpace sql0
      in if HasPrefix sql ''--'' then
           (case Index sql [newline] of
              None \<Rightarrow> []
            | Some i \<Rightarrow> stripLeadingComments (drop (i + 1) sql))
         else if HasPrefix sql ''/*'' then
           (case Index sql ''*/'' of
              None \<Rightarrow> []
            | Some i \<Rightarrow> stripLeadingComments (drop (i + 2) sql))
         else sql)"
  by pat_completeness auto
termination
proof (relation "measure length"; clarsimp)
  fix s i
  have "TrimSpace s = [] \<Longrightarrow> \<not> HasPrefix (TrimSpace s) ''--''" by (simp add: HasPrefix_def)
  moreover assume "HasPrefix (TrimSpace s) ''--''"
  ultimately show "length (TrimSpace s) - Suc i < length s"
    using length_TrimSpace [of s] by (cases "TrimSpace s") auto
next
  fix s i
  have "TrimSpace s = [] \<Longrightarrow> \<not> HasPrefix (TrimSpace s) ''/*''" by (simp add: HasPrefix_def)
  moreover assume "HasPrefix (TrimSpace s) ''/*''"
  ultimately show "length (TrimSpace s) - Suc (Suc i) < length s"
    using length_TrimSpace [of s] by (cases "TrimSpace s") auto
qed

declare stripLeadingComments.simps [simp del]

text \<open>The flattened text of a statement with common table expressions: literals and everything in
  parentheses are blanks.\<close>

definition flatten :: "string \<Rightarrow> string" where
  "flatten sql = blankNested (ReplaceAllStringFunc literal sql (\<lambda>m. replicate (length m) CHR '' ''))"

definition tableFor :: "string \<Rightarrow> string \<Rightarrow> string option" where
  "tableFor operation sql =
     (if operation = ''INSERT'' then findGroup insertTable tableRe sql
      else if operation = ''UPDATE'' then findGroup updateTable tableRe sql
      else if operation = ''DELETE'' then findGroup deleteTable tableRe sql
      else if operation = ''SELECT'' then findGroup selectTable tableRe sql
      else None)"

definition unquoted :: "string option \<Rightarrow> string" where
  "unquoted m = (case m of None \<Rightarrow> [] | Some t \<Rightarrow> filter (\<lambda>c. c \<noteq> dquote) t)"

definition statementName :: "string \<Rightarrow> string \<times> string" where
  "statementName sql0 =
     (let sql = stripLeadingComments sql0; word = findString firstWord sql
      in if word = [] then ([], [])
         else let operation = ToUpper word
              in if operation = ''WITH''
                 then (case findIndex mainDML (flatten sql) of
                         None \<Rightarrow> (operation, [])
                       | Some (i, j) \<Rightarrow>
                           let main = drop i sql; op2 = ToUpper (findString firstWord main)
                           in (op2, unquoted (tableFor op2 main)))
                 else (operation, unquoted (tableFor operation sql)))"

definition spanNameFor :: "string \<Rightarrow> string" where
  "spanNameFor operation =
     (if operation = ''INSERT'' then ''db.insert''
      else if operation = ''SELECT'' then ''db.select''
      else if operation = ''UPDATE'' then ''db.update''
      else if operation = ''DELETE'' then ''db.delete''
      else if operation \<in> set [''BEGIN'', ''START'', ''COMMIT'', ''END'', ''ROLLBACK'', ''SAVEPOINT'', ''RELEASE'']
      then ''db.transaction''
      else ''db.query'')"

section \<open>The tracer\<close>

record 'd pgxTracer =
  trObs :: observability
  trOptions :: "'d options"

text \<open>A span: its name, its attributes, the errors recorded on it, its error status and whether it has
  ended.\<close>

record span =
  spName :: string
  spAttrs :: "(string \<times> gval) list"
  spErrors :: "gerr list"
  spStatus :: "string option"
  spEnded :: bool

text \<open>The value under the tracer's key in the context that \<open>TraceQueryStart\<close> returns, given the value in
  the context it is called with.\<close>

definition TraceQueryStart :: "'d pgxTracer \<Rightarrow> string \<Rightarrow> span option \<Rightarrow> span option outcome" where
  "TraceQueryStart t sql cur =
     (case statementName sql of (operation, table) \<Rightarrow>
        if operation = ''LISTEN'' \<or> operation = ''UNLISTEN'' then Ret cur
        else if \<not> obsTracer (trObs t) then Panic ''invalid memory address or nil pointer dereference''
        else Ret (Some
          \<lparr>spName = spanNameFor operation,
           spAttrs =
             [(''db.system.name'', GStr ''postgresql''),
              (''db.operation.name'', GStr (if operation = [] then ''query'' else operation)),
              (''db.namespace'', GStr (Database (trOptions t))),
              (''server.address'', GStr (Host (trOptions t))),
              (''server.port'', GInt (Port (trOptions t)))]
             @ (if table \<noteq> [] then [(''db.collection.name'', GStr table)] else [])
             @ (if HideQueryArgs (trOptions t) then [] else [(''db.query.text'', GStr sql)]),
           spErrors = [], spStatus = None, spEnded = False\<rparr>))"

definition TraceQueryEnd :: "span option \<Rightarrow> gerr option \<Rightarrow> span option" where
  "TraceQueryEnd cur err =
     (case cur of
        None \<Rightarrow> None
      | Some sp \<Rightarrow>
          Some ((case err of None \<Rightarrow> sp | Some e \<Rightarrow> sp\<lparr>spErrors := spErrors sp @ [e], spStatus := Some (errText e)\<rparr>)\<lparr>spEnded := True\<rparr>))"

end
