(* ===== verification/Construction.thy ===== *)
theory Construction
  imports Config Tracing
begin

text \<open>
  database.go, second half, and pool_metrics.go: building a \<open>DB\<close> and its lifecycle. What pgxpool
  and the telemetry modules do is a parameter: parsing a connection URL, creating a pool, creating
  meters, and of an instrumentation, which is known by a number: what \<open>instrument.Resolve\<close> makes of it, its
  meter, and whether it is also a telemetry client.
\<close>

section \<open>Interfaces of the packages used\<close>

record 'd poolConfig =
  cfgURL :: string
  MinConns :: int
  MaxConns :: int
  ConnectTimeout :: int
  cfgTracer :: "'d pgxTracer"

text \<open>\<open>pgxpool.Stat\<close>, the counters that are read.\<close>

record nativeStat =
  AcquiredConns :: int
  IdleConns :: int
  MaxConnsOf :: int
  EmptyAcquireWaitTime :: int

record 'd nativePool =
  npRunner :: "'d runner"
  npBegin :: "ctx \<Rightarrow> ('d, gerr + 'd runner \<times> 'd txOps) drvcall"
  npBeginTx :: "ctx \<Rightarrow> string \<Rightarrow> ('d, gerr + 'd runner \<times> 'd txOps) drvcall"
  npAcquire :: "ctx \<Rightarrow> ('d, gerr + 'd pooledConn) drvcall"
  npPing :: "ctx \<Rightarrow> ('d, gerr option) drvcall"
  npClose :: "'d env \<Rightarrow> 'd env"
  npStat :: "'d env \<Rightarrow> nativeStat"

record 'd meter =
  newGauge :: "string \<Rightarrow> gerr option"
  registerCallback :: "('d env \<Rightarrow> (string \<times> string \<times> int) list) \<Rightarrow> ('d, gerr + ('d env \<Rightarrow> 'd env)) drvcall"

record 'd libs =
  parsePoolConfig :: "string \<Rightarrow> gerr option"
  newPoolWithConfig :: "'d poolConfig \<Rightarrow> ('d, gerr + 'd nativePool) drvcall"
  resolveInst :: "nat option \<Rightarrow> nat option"
  otelMeter :: "nat option \<Rightarrow> 'd meter"
  telemetryClient :: "nat option \<Rightarrow> 'd telemetry option"

section \<open>poolStatsAdapter and the pool gauges\<close>

definition adapterStat :: "nativeStat \<Rightarrow> poolStats" where
  "adapterStat s = \<lparr>InUse = AcquiredConns s, Idle = IdleConns s, MaxC = MaxConnsOf s\<rparr>"

definition poolStatsAdapter :: "'d nativePool \<Rightarrow> 'd pool" where
  "poolStatsAdapter p =
     \<lparr>poolBegin = npBegin p, poolPing = npPing p, poolClose = npClose p,
      poolStat = (\<lambda>s. adapterStat (npStat p s)), poolAcquire = Some (npAcquire p),
      poolBeginTx = Some (npBeginTx p)\<rparr>"

text \<open>The observations of the callback; the waiting time in nanoseconds.\<close>

definition poolObservations :: "nativeStat \<Rightarrow> (string \<times> string \<times> int) list" where
  "poolObservations s =
     [(''db.client.connection.count'', ''used'', AcquiredConns s),
      (''db.client.connection.count'', ''idle'', IdleConns s),
      (''db.client.connection.max'', [], MaxConnsOf s),
      (''db.client.connection.wait_time'', [], EmptyAcquireWaitTime s)]"

definition poolGaugeNames :: "string list" where
  "poolGaugeNames =
     [''db.client.connection.count'', ''db.client.connection.max'', ''db.client.connection.wait_time'']"

definition registerPoolMetrics ::
  "'d meter \<Rightarrow> 'd nativePool \<Rightarrow> ('d world, ('d env \<Rightarrow> 'd env) option) act" where
  "registerPoolMetrics m p =
     (case find (\<lambda>n. newGauge m n \<noteq> None) poolGaugeNames of
        Some n \<Rightarrow>
          andThen (emit (LogLine ''database pool metric creation failed'')) (\<lambda>_. ret None)
      | None \<Rightarrow>
          andThen (driver (registerCallback m (\<lambda>s. poolObservations (npStat p s)))) (\<lambda>r.
          case r of
            Inl e \<Rightarrow>
              andThen (emit (LogLine ''database pool metric callback registration failed'')) (\<lambda>_. ret None)
          | Inr unregister \<Rightarrow> ret (Some unregister)))"

section \<open>Constructors\<close>

definition newDB ::
  "'d libs \<Rightarrow> ctx \<Rightarrow> 'd options \<Rightarrow> nat option \<Rightarrow> ('d world, gerr + 'd db) act" where
  "newDB l c o0 inst0 =
     (let inst = resolveInst l inst0; obs = newObservability; o1 = withDefaults o0
      in case Validate o1 of
           Some e \<Rightarrow> ret (Inl e)
         | None \<Rightarrow>
             (case parsePoolConfig l (dsn o1) of
                Some e \<Rightarrow> ret (Inl (wrapE ''database: parse config: '' e))
              | None \<Rightarrow>
                  let (minSize, maxSize) = poolSizes o1;
                      cfg = \<lparr>cfgURL = dsn o1, MinConns = minSize, MaxConns = maxSize,
                             ConnectTimeout = ConnectionTimeout o1,
                             cfgTracer = \<lparr>trObs = obs, trOptions = o1\<rparr>\<rparr>
                  in andThen (driver (newPoolWithConfig l cfg)) (\<lambda>r.
                     case r of
                       Inl e \<Rightarrow> ret (Inl (wrapE ''database: create pool: '' e))
                     | Inr raw \<Rightarrow>
                         andThen (newConn (npRunner raw) o1 c) (\<lambda>cn.
                         andThen (registerPoolMetrics (otelMeter l inst) raw) (\<lambda>reg.
                         ret (Inr \<lparr>dbConn = cn\<lparr>connObs := obs\<rparr>, dbPool = poolStatsAdapter raw,
                                   dbRetry = withObservability
                                     (NewRetryPolicy (RetryEnabled o1) (RetryMaxCount o1) (RetryBaseDelay o1)),
                                   dbPoolMetrics = reg\<rparr>))))))"

text \<open>\<open>New\<close>: the environment is loaded, then read when no options are given; the optional list
  stands for the variadic parameter.\<close>

definition New ::
  "'d libs \<Rightarrow> dotenv \<Rightarrow> osEnv \<Rightarrow> ctx \<Rightarrow> nat option \<Rightarrow> 'd options list \<Rightarrow> ('d world, gerr + 'd db) act" where
  "New l load e c inst opts =
     (let e1 = snd (Environment load [''DATABASE_ENV_FILE'', ''ENV_FILE''] e);
          inst1 = resolveInst l inst;
          o1 = (case opts of o0 # _ \<Rightarrow> o0 | [] \<Rightarrow> fst (LoadFromEnv load e1))
      in andThen (newDB l c o1 inst1) (\<lambda>r.
         ret (case r of
                Inl err \<Rightarrow> Inl err
              | Inr d \<Rightarrow>
                  Inr (case telemetryClient l inst1 of
                         Some t \<Rightarrow> d\<lparr>dbConn := (dbConn d)\<lparr>connOps := Some t\<rparr>\<rparr>
                       | None \<Rightarrow> d))))"

definition WithInstrumentation :: "nat option \<Rightarrow> 'd options" where
  "WithInstrumentation inst = zeroOptions\<lparr>instrumentation := inst\<rparr>"

definition NewWithOptions ::
  "'d libs \<Rightarrow> dotenv \<Rightarrow> osEnv \<Rightarrow> ctx \<Rightarrow> 'd options list \<Rightarrow> ('d world, gerr + 'd db) act" where
  "NewWithOptions l load e c opts =
     (let o1 = (if opts = [] \<or> (length opts = 1 \<and> instrumentation (hd opts) \<noteq> None)
                then fst (LoadFromEnv load e) else hd opts);
          inst = fold (\<lambda>o2 i. if instrumentation o2 \<noteq> None then instrumentation o2 else i) opts None
      in newDB l c o1 inst)"

definition MustNew ::
  "'d libs \<Rightarrow> dotenv \<Rightarrow> osEnv \<Rightarrow> ctx \<Rightarrow> nat option \<Rightarrow> 'd options list \<Rightarrow> ('d world, 'd db) act" where
  "MustNew l load e c inst opts =
     andThen (New l load e c inst opts) (\<lambda>r. case r of Inl err \<Rightarrow> panic (errText err) | Inr d \<Rightarrow> ret d)"

definition OpenFromEnv ::
  "'d libs \<Rightarrow> dotenv \<Rightarrow> osEnv \<Rightarrow> ctx \<Rightarrow> nat option \<Rightarrow> ('d world, gerr + 'd db) act" where
  "OpenFromEnv l load e c inst = New l load e c inst []"

section \<open>Lifecycle\<close>

definition dbClose :: "'d db \<Rightarrow> ('d world, gerr option) act" where
  "dbClose d =
     andThen (case dbPoolMetrics d of None \<Rightarrow> ret () | Some u \<Rightarrow> driver (\<lambda>s. ((), u s))) (\<lambda>_.
     andThen (driver (\<lambda>s. ((), poolClose (dbPool d) s))) (\<lambda>_. ret None))"

definition dbPingContext :: "'d db \<Rightarrow> ctx \<Rightarrow> ('d world, gerr option) act" where
  "dbPingContext d c =
     andThen (timeout c (ConnectionTimeout (connO (dbConn d)))) (\<lambda>cctx. driver (poolPing (dbPool d) cctx))"

definition dbPing :: "'d db \<Rightarrow> ('d world, gerr option) act" where
  "dbPing d = dbPingContext d (base (dbConn d))"

definition dbOptions :: "'d db \<Rightarrow> 'd options" where
  "dbOptions d = (connO (dbConn d))\<lparr>Password := []\<rparr>"

text \<open>\<open>DB.withSpan\<close> on a nil \<open>DB\<close> runs the function directly.\<close>

definition dbWithSpan ::
  "'d db option \<Rightarrow> string \<Rightarrow> ('d world, 'a \<times> gerr option) act \<Rightarrow> ('d world, 'a \<times> gerr option) act" where
  "dbWithSpan d operation fn =
     (case d of None \<Rightarrow> fn | Some d' \<Rightarrow> withSpan (dbConn d') operation fn)"

end
