(* ===== verification/Connection.thy ===== *)
theory Connection
  imports Construction Transaction
begin

text \<open>
  connection.go: the dedicated connection. A \<open>Conn\<close> is used through a pointer and its close
  function is cleared by \<open>Close\<close>, so the operations that change it deliver the new value.
\<close>

type_synonym 'd release = "ctx \<Rightarrow> ('d, gerr option) drvcall"

record 'd pinned =
  pinConn :: "'d conn"
  closeFn :: "'d release option"
  beginFn :: "ctx \<Rightarrow> ('d, gerr + 'd runner \<times> 'd txOps) drvcall"
  reacquireFn :: "(ctx \<Rightarrow> ('d, gerr + 'd runner \<times> 'd release) drvcall) option"

text \<open>What pgx delivers for a standalone connection.\<close>

record 'd rawConn =
  rcRunner :: "'d runner"
  rcClose :: "'d release"
  rcBegin :: "ctx \<Rightarrow> ('d, gerr + 'd runner \<times> 'd txOps) drvcall"

section \<open>Opening and closing\<close>

definition releaseOf :: "'d pooledConn \<Rightarrow> 'd release" where
  "releaseOf p = (\<lambda>c s. (None, pcRelease p s))"

definition dbAcquire :: "'d db \<Rightarrow> ('d world, gerr + 'd pinned) act" where
  "dbAcquire d =
     (case poolAcquire (dbPool d) of
        None \<Rightarrow> ret (Inl (Msg ''database: pool does not support Acquire''))
      | Some a \<Rightarrow>
          andThen (timeout (base (dbConn d)) (ConnectionTimeout (connO (dbConn d)))) (\<lambda>cctx.
          andThen (driver (a cctx)) (\<lambda>r.
          case r of
            Inl e \<Rightarrow> ret (Inl (wrapE ''database: acquire connection: '' e))
          | Inr p \<Rightarrow>
              andThen (reading (connObserved (dbConn d))) (\<lambda>m.
              andThen (observeAcquire m) (\<lambda>_.
              ret (Inr
                \<lparr>pinConn = derive (dbConn d) (pcRunner p), closeFn = Some (releaseOf p),
                 beginFn = pcBegin p,
                 reacquireFn = Some (\<lambda>c s.
                   case a c s of
                     (Inl e, s') \<Rightarrow> (Inl e, s')
                   | (Inr q, s') \<Rightarrow> (Inr (pcRunner q, releaseOf q), s'))\<rparr>))))))"

definition Connect ::
  "(string \<Rightarrow> gerr option) \<Rightarrow> (string \<Rightarrow> int \<Rightarrow> ctx \<Rightarrow> ('d, gerr + 'd rawConn) drvcall)
     \<Rightarrow> 'd options \<Rightarrow> ('d world, gerr + 'd pinned) act" where
  "Connect parseConfig connectConfig o0 =
     (let o1 = withDefaults o0
      in case Validate o1 of
           Some e \<Rightarrow> ret (Inl e)
         | None \<Rightarrow>
             (case parseConfig (dsn o1) of
                Some e \<Rightarrow> ret (Inl (wrapE ''database: parse config: '' e))
              | None \<Rightarrow>
                  andThen (timeout Background (ConnectionTimeout o1)) (\<lambda>cctx.
                  andThen (driver (connectConfig (dsn o1) (ConnectionTimeout o1) cctx)) (\<lambda>r.
                  case r of
                    Inl e \<Rightarrow> ret (Inl (wrapE ''database: connect: '' e))
                  | Inr raw \<Rightarrow>
                      andThen (newConn (rcRunner raw) o1 Background) (\<lambda>cn.
                      ret (Inr \<lparr>pinConn = cn, closeFn = Some (rcClose raw), beginFn = rcBegin raw,
                                reacquireFn = None\<rparr>))))))"

definition ConnectFromEnv ::
  "(string \<Rightarrow> gerr option) \<Rightarrow> (string \<Rightarrow> int \<Rightarrow> ctx \<Rightarrow> ('d, gerr + 'd rawConn) drvcall)
     \<Rightarrow> dotenv \<Rightarrow> osEnv \<Rightarrow> ('d world, gerr + 'd pinned) act" where
  "ConnectFromEnv parseConfig connectConfig load e =
     Connect parseConfig connectConfig (fst (LoadFromEnv load e))"

definition connClose :: "'d pinned \<Rightarrow> ('d world, gerr option \<times> 'd pinned) act" where
  "connClose c =
     (case closeFn c of
        None \<Rightarrow> ret (None, c)
      | Some fn \<Rightarrow>
          andThen (emit (TxControl (runner_id (connR (pinConn c))) ''Close'' (base (pinConn c)))) (\<lambda>_.
          andThen (driver (fn (base (pinConn c)))) (\<lambda>e. ret (e, c\<lparr>closeFn := None\<rparr>))))"

section \<open>Transactions on the connection\<close>

definition pinnedBegin :: "'d pinned \<Rightarrow> 'd beginFn" where
  "pinnedBegin c cctx =
     andThen (emit (TxControl (runner_id (connR (pinConn c))) ''Begin'' cctx)) (\<lambda>_. driver (beginFn c cctx))"

definition connBegin :: "'d pinned \<Rightarrow> ('d world, gerr + 'd tx) act" where
  "connBegin c =
     andThen (timeout (base (pinConn c)) (ConnectionTimeout (connO (pinConn c)))) (\<lambda>cctx.
     andThen (pinnedBegin c cctx) (\<lambda>r.
     ret (case r of
            Inl e \<Rightarrow> Inl (wrapE ''database: begin on connection: '' e)
          | Inr (pgxTx, ops1) \<Rightarrow> Inr (derive (pinConn c) pgxTx))))"

definition connTransactional ::
  "'d pinned \<Rightarrow> ('d tx \<Rightarrow> ('d world, gerr option) act) \<Rightarrow> ('d world, gerr option) act" where
  "connTransactional c fn = runTransactional (pinnedBegin c) (pinConn c) fn"

definition connTransactionalContext ::
  "'d pinned \<Rightarrow> ctx \<Rightarrow> (ctx \<Rightarrow> 'd tx \<Rightarrow> ('d world, gerr option) act) \<Rightarrow> ('d world, gerr option) act" where
  "connTransactionalContext c cc fn =
     (let scoped = (pinConn c)\<lparr>connCtx := cc\<rparr>
      in runTransactional (pinnedBegin c) scoped (\<lambda>tx. fn (base scoped) tx))"

definition connTransactionalLevel ::
  "'d pinned \<Rightarrow> string \<Rightarrow> ('d tx \<Rightarrow> ('d world, gerr option) act) \<Rightarrow> ('d world, gerr option) act" where
  "connTransactionalLevel c level fn =
     (case parseIsolationLevel level of
        Inl e \<Rightarrow> ret (Some e)
      | Inr txo \<Rightarrow>
          (case asBeginTx (connR (pinConn c)) of
             None \<Rightarrow> ret (Some (Msg ''database: connection does not support transaction isolation levels''))
           | Some beginTx \<Rightarrow>
               runTransactional
                 (\<lambda>cc. andThen (emit (TxControl (runner_id (connR (pinConn c))) (''Begin '' @ txo) cc)) (\<lambda>_.
                    driver (beginTx cc txo)))
                 (pinConn c) fn))"

section \<open>Statements\<close>

definition pinnedExecute :: "'d pinned \<Rightarrow> string \<Rightarrow> gval list \<Rightarrow> ('d world, int \<times> gerr option) act" where
  "pinnedExecute c sql args = withSpan (pinConn c) ''execute'' (connExecute (pinConn c) sql args)"

definition pinnedExecuteContext ::
  "'d pinned \<Rightarrow> ctx \<Rightarrow> string \<Rightarrow> gval list \<Rightarrow> ('d world, int \<times> gerr option) act" where
  "pinnedExecuteContext c cc sql args = connExecuteContext (pinConn c) cc sql args"

definition ConnQuery ::
  "('d, 't) mapper \<Rightarrow> 'd pinned \<Rightarrow> string \<Rightarrow> gval list \<Rightarrow> ('d world, 't list \<times> gerr option) act" where
  "ConnQuery m c sql args = withSpan (pinConn c) ''query'' (runQuery m (pinConn c) sql args)"

definition ConnQueryContext ::
  "('d, 't) mapper \<Rightarrow> ctx \<Rightarrow> 'd pinned \<Rightarrow> string \<Rightarrow> gval list \<Rightarrow> ('d world, 't list \<times> gerr option) act" where
  "ConnQueryContext m cc c sql args = runQueryContext m cc (pinConn c) sql args"

definition ConnQueryRow ::
  "('d, 't) mapper \<Rightarrow> 'd pinned \<Rightarrow> string \<Rightarrow> gval list \<Rightarrow> ('d world, ('t \<times> bool) \<times> gerr option) act" where
  "ConnQueryRow m c sql args = withSpan (pinConn c) ''query'' (runQueryRow m (pinConn c) sql args)"

definition ConnQueryRowContext ::
  "('d, 't) mapper \<Rightarrow> ctx \<Rightarrow> 'd pinned \<Rightarrow> string \<Rightarrow> gval list \<Rightarrow> ('d world, ('t \<times> bool) \<times> gerr option) act" where
  "ConnQueryRowContext m cc c sql args = runQueryRowContext m cc (pinConn c) sql args"

definition ConnScalar ::
  "('d, 't) mapper \<Rightarrow> 'd pinned \<Rightarrow> string \<Rightarrow> gval list \<Rightarrow> ('d world, 't \<times> gerr option) act" where
  "ConnScalar m c sql args = withSpan (pinConn c) ''query'' (runScalar m (pinConn c) sql args)"

definition ConnScalarContext ::
  "('d, 't) mapper \<Rightarrow> ctx \<Rightarrow> 'd pinned \<Rightarrow> string \<Rightarrow> gval list \<Rightarrow> ('d world, 't \<times> gerr option) act" where
  "ConnScalarContext m cc c sql args = runScalarContext m cc (pinConn c) sql args"

end
