(* ===== verification/Connection_Properties.thy ===== *)
theory Connection_Properties
  imports Connection Retry_Properties Config_Properties
begin

text \<open>
  Properties of constructed handles: what a successful constructor guarantees, that statements on
  dedicated connections and transactions are never repeated, and that a connection is released
  once.
\<close>

section \<open>Construction\<close>

lemma newConn_app: "newConn r1 o1 c w =
    (Ret \<lparr>connR = r1, connO = o1, connCtx = c, connHooks = Some (fresh w), connOps = None,
          connObs = newObservability\<rparr>,
     w\<lparr>regs := (regs w)(fresh w := \<lparr>hs = QueryHooks o1, met = None\<rparr>), fresh := Suc (fresh w)\<rparr>)"
  by (simp add: newConn_def newHookRegistry_def act_simps)

lemma registerPoolMetrics_regs:
  "\<exists>reg w'. registerPoolMetrics m p w = (Ret reg, w') \<and> regs w' = regs w"
  by (auto simp: registerPoolMetrics_def act_simps split: option.splits prod.splits sum.splits)

text \<open>A \<open>DB\<close> that \<open>newDB\<close> delivers, in terms of the options and the pool it was built from.\<close>

lemma newDB_shape:
  assumes "newDB l c o0 inst w = (Ret (Inr d), w')" and "o1 = withDefaults o0"
  obtains cfg s s' raw where "newPoolWithConfig l cfg s = (Inr raw, s')" "Validate o1 = None"
    "dbConn d = \<lparr>connR = npRunner raw, connO = o1, connCtx = c, connHooks = Some (fresh w), connOps = None,
       connObs = newObservability\<rparr>"
    "dbRetry d = withObservability (NewRetryPolicy (RetryEnabled o1) (RetryMaxCount o1) (RetryBaseDelay o1))"
    "regs w' (fresh w) = \<lparr>hs = QueryHooks o0, met = None\<rparr>"
proof -
  obtain lo hi where z: "poolSizes o1 = (lo, hi)" by fastforce
  let ?cfg = "\<lparr>cfgURL = dsn o1, MinConns = lo, MaxConns = hi, ConnectTimeout = ConnectionTimeout o1,
    cfgTracer = \<lparr>trObs = newObservability, trOptions = o1\<rparr>\<rparr>"
  obtain r s where r: "newPoolWithConfig l ?cfg (env w) = (r, s)" by fastforce
  have v: "Validate o1 = None" "parsePoolConfig l (dsn o1) = None"
    using assms by (auto simp: newDB_def Let_def act_simps split: option.splits)
  with assms z r obtain raw where raw: "r = Inr raw"
    by (cases r) (simp_all add: newDB_def Let_def act_simps)
  let ?w2 = "w\<lparr>env := s, regs := (regs w)(fresh w := \<lparr>hs = QueryHooks o1, met = None\<rparr>), fresh := Suc (fresh w)\<rparr>"
  obtain reg w3 where w3: "registerPoolMetrics (otelMeter l (resolveInst l inst)) raw ?w2 = (Ret reg, w3)"
    "regs w3 = regs ?w2"
    using registerPoolMetrics_regs by blast
  with assms v z r raw show thesis
    by (intro that [OF r [unfolded raw]])
      (auto simp: newDB_def Let_def act_simps newConn_app withDefaults_fields)
qed

lemma newDB_returns: "\<exists>r w'. newDB l c o1 inst w = (Ret r, w')"
proof -
  have "registerPoolMetrics m p w1 \<noteq> (Panic q, w2)" for m :: "'a meter" and p q w1 w2
    using registerPoolMetrics_regs [of m p w1] by auto
  then show ?thesis
    by (auto simp: newDB_def Let_def act_simps newConn_app split: option.split prod.split sum.split outcome.split)
qed

text \<open>C18: configuration errors are found before anything is opened, and a \<open>DB\<close> that comes out is
  usable. When the options, with the defaults filled in, do not pass \<open>Validate\<close>, exactly its error is
  returned and the world is as before: no pool was opened and no registry made. No call panics. A \<open>DB\<close> that is delivered carries the
  defaulted and valid options, non-zero timeouts, a working logger, a registry of its own holding
  exactly the configured hooks and no collector, the configured retry policy, and never shows its
  password.\<close>
theorem newDB_delivers:
  "(\<forall>e. Validate (withDefaults o1) = Some e \<longrightarrow> newDB l c o1 inst w = (Ret (Inl e), w))
   \<and> (case newDB l c o1 inst w of
     (Ret (Inl e), w') \<Rightarrow> True
   | (Ret (Inr d), w') \<Rightarrow>
       Validate (withDefaults o1) = None \<and> connO (dbConn d) = withDefaults o1 \<and> connCtx (dbConn d) = c
       \<and> CommandTimeout (connO (dbConn d)) \<noteq> 0 \<and> ConnectionTimeout (connO (dbConn d)) \<noteq> 0
       \<and> obsLogger (connObs (dbConn d)) \<and> obsTracer (connObs (dbConn d))
       \<and> connHooks (dbConn d) = Some (fresh w)
       \<and> snapshot (connHooks (dbConn d)) w' = QueryHooks o1 \<and> observed (connHooks (dbConn d)) w' = None
       \<and> rpEnabled (dbRetry d) = RetryEnabled (withDefaults o1)
       \<and> rpMaxCount (dbRetry d) = RetryMaxCount (withDefaults o1)
       \<and> Password (dbOptions d) = []
   | (Panic p, w') \<Rightarrow> False)"
proof -
  have invalid: "\<forall>e. Validate (withDefaults o1) = Some e \<longrightarrow> newDB l c o1 inst w = (Ret (Inl e), w)"
    by (simp add: newDB_def act_simps)
  obtain r w' where run: "newDB l c o1 inst w = (Ret r, w')" using newDB_returns by blast
  show ?thesis
  proof (cases r)
    case (Inl e)
    with run invalid show ?thesis by simp
  next
    case (Inr d)
    with run have "newDB l c o1 inst w = (Ret (Inr d), w')" by simp
    then show ?thesis
      by (rule newDB_shape [OF _ refl], intro conjI invalid)
        (simp add: run Inr dbOptions_def withDefaults_fields snapshot_def hr_snapshot_def observed_def
          hr_observed_def newObservability_def withObservability_def NewRetryPolicy_def)
  qed
qed

definition scriptPool :: "gerr option list nativePool" where
  "scriptPool =
     \<lparr>npRunner = scriptRunner 1,
      npBegin = (\<lambda>c s. case popScript s of (None, s') \<Rightarrow> (Inr (scriptRunner 2, scriptTx), s') | (Some e, s') \<Rightarrow> (Inl e, s')),
      npBeginTx = (\<lambda>c l s. (Inr (scriptRunner 2, scriptTx), s)),
      npAcquire = (\<lambda>c s. (Inl (Msg ''exhausted''), s)), npPing = (\<lambda>c. popScript), npClose = (\<lambda>s. s),
      npStat = (\<lambda>s. \<lparr>AcquiredConns = 0, IdleConns = 1, MaxConnsOf = 2, EmptyAcquireWaitTime = 0\<rparr>)\<rparr>"

definition scriptLibs :: "gerr option list libs" where
  "scriptLibs =
     \<lparr>parsePoolConfig = (\<lambda>_. None), newPoolWithConfig = (\<lambda>cfg s. (Inr scriptPool, s)),
      resolveInst = id, otelMeter = (\<lambda>_. \<lparr>newGauge = (\<lambda>_. None), registerCallback = (\<lambda>f s. (Inr (\<lambda>s. s), s))\<rparr>),
      telemetryClient = (\<lambda>_. None)\<rparr>"

definition openedOptions :: "gerr option list options" where
  "openedOptions = Default\<lparr>Database := ''a'', Username := ''u'', Password := ''p''\<rparr>"

lemma scripted_newDB: "\<exists>d w'. newDB scriptLibs Background openedOptions None (sampleWorld [] []) = (Ret (Inr d), w')"
proof -
  have "TrimSpace ''a'' \<noteq> []" by code_simp
  moreover have "TrimSpace ''u'' \<noteq> []" by code_simp
  moreover have "TrimSpace ''p'' \<noteq> []" by code_simp
  ultimately have "Validate (withDefaults openedOptions) = None"
    by (simp add: Validate_def missingOptions_def openedOptions_def withDefaults_fields Default_fields)
  moreover obtain lo hi where "poolSizes (withDefaults openedOptions) = (lo, hi)" by fastforce
  ultimately show ?thesis
    by (simp add: newDB_def Let_def act_simps scriptLibs_def newConn_app registerPoolMetrics_def
        poolGaugeNames_def)
qed

theorem newDB_delivers_witness:
  "(\<exists>d w'. newDB scriptLibs Background openedOptions None (sampleWorld [] []) = (Ret (Inr d), w')
     \<and> obsLogger (connObs (dbConn d)) \<and> Password (dbOptions d) = [])
   \<and> (\<exists>e. newDB scriptLibs Background (openedOptions\<lparr>Database := []\<rparr>) None (sampleWorld [] [])
        = (Ret (Inl e), sampleWorld [] []))"
proof -
  note law = newDB_delivers [where l = scriptLibs and c = Background and inst = None and w = "sampleWorld [] []"]
  have "TrimSpace [] = []" by code_simp
  then have "Validate (withDefaults (openedOptions\<lparr>Database := []\<rparr>)) \<noteq> None"
    by (simp add: Validate_def missingOptions_def openedOptions_def withDefaults_fields Default_fields)
  then show ?thesis
    using scripted_newDB law [of openedOptions] law [of "openedOptions\<lparr>Database := []\<rparr>"] by auto
qed

section \<open>One statement per call\<close>

lemma withSpan_once:
  assumes "\<And>w. length (calls (trace (snd (fn w)))) = length (calls (trace w)) + 1"
  shows "length (calls (trace (snd (withSpan c operation fn w)))) = length (calls (trace w)) + 1"
  using withSpan_bounded [where P = "\<lambda>n. n = 1" and fn = fn and c = c and operation = operation and w = w] assms
  by auto

lemma disabled_once:
  assumes "\<And>p b w. \<exists>n. length (calls (trace (snd (retryDo b p run w)))) = length (calls (trace w)) + n
     \<and> 1 \<le> n \<and> int n \<le> (if rpEnabled p then max 0 (rpMaxCount p) else 0) + 1"
  shows "length (calls (trace (snd (run w)))) = length (calls (trace w)) + 1"
  using assms [of Background "NewRetryPolicy False 0 0" w]
  by (auto simp: retryDo_def NewRetryPolicy_def)

lemmas once_defs = pinnedExecute_def ConnQuery_def ConnQueryRow_def ConnScalar_def
  txExecute_def txQuery_def txQueryRow_def txScalar_def
  connExecute_Context runQuery_def runQueryRow_def runScalar_def

text \<open>C19: operations on a dedicated connection or a transaction never repeat a statement: whatever
  the driver answers and the hooks do, each of them sends exactly one.\<close>
theorem pinned_statements_once:
  assumes "obsLogger (connObs (pinConn c))" and "obsLogger (connObs tx)"
    and "w' \<in> {snd (pinnedExecute c sql args w), snd (ConnQuery m1 c sql args w),
      snd (ConnQueryRow m1 c sql args w), snd (ConnScalar m1 c sql args w),
      snd (txExecute tx sql args w), snd (txQuery m1 tx sql args w),
      snd (txQueryRow m1 tx sql args w), snd (txScalar m1 tx sql args w)}"
  shows "length (calls (trace w')) = length (calls (trace w)) + 1"
proof -
  note once = withSpan_once [OF disabled_once, OF exec.retry_calls] withSpan_once [OF disabled_once, OF query.retry_calls]
    withSpan_once [OF disabled_once, OF query_row.retry_calls] withSpan_once [OF disabled_once, OF scalar.retry_calls]
  show ?thesis
    using assms(3) unfolding once_defs by (elim insertE emptyE) (simp_all only: once [OF assms(1)] once [OF assms(2)])
qed

definition scriptPinned :: "gerr option list pinned" where
  "scriptPinned =
     \<lparr>pinConn = sampleConn, closeFn = Some (\<lambda>c. popScript),
      beginFn = (\<lambda>c s. (Inr (scriptRunner 2, scriptTx), s)), reacquireFn = None\<rparr>"

theorem pinned_statements_once_witness:
  "length (calls (trace (snd (txExecute sampleConn ''DELETE'' []
      (sampleWorld [UserHook panickyHook] [Some (Msg ''eof'')]))))) = 0 + 1"
  using pinned_statements_once [of scriptPinned sampleConn
      "snd (txExecute sampleConn ''DELETE'' [] (sampleWorld [UserHook panickyHook] [Some (Msg ''eof'')]))"
      "''DELETE''" "[]" "sampleWorld [UserHook panickyHook] [Some (Msg ''eof'')]" sampleMapper]
  by (simp add: scriptPinned_def) (simp add: sampleWorld_def calls_def)

section \<open>Closing\<close>

primrec closeN :: "nat \<Rightarrow> 'd pinned \<Rightarrow> 'd world \<Rightarrow> gerr option list \<times> 'd pinned \<times> 'd world" where
  "closeN 0 c w = ([], c, w)"
| "closeN (Suc n) c w =
     (case closeN n c w of (rs, c1, w1) \<Rightarrow>
        (case connClose c1 w1 of
           (Ret (r, c2), w2) \<Rightarrow> (rs @ [r], c2, w2)
         | (Panic p, w2) \<Rightarrow> (rs, c1, w2)))"

text \<open>A connection is released exactly once. However often \<open>Close\<close> is called, the release function
  runs at the first call only, with the connection's own context; that call returns its error and
  all later ones return nil and change nothing.\<close>
theorem close_releases_once:
  assumes "closeFn c = Some fn" and "fn (base (pinConn c)) (env w) = (r, s)"
  shows "closeN (Suc n) c w =
     (r # replicate n None, c\<lparr>closeFn := None\<rparr>,
      w\<lparr>trace := trace w @ [TxControl (runner_id (connR (pinConn c))) ''Close'' (base (pinConn c))], env := s\<rparr>)"
proof (induction n)
  case 0
  then show ?case using assms by (simp add: connClose_def act_simps)
next
  case (Suc n)
  then show ?case by (subst closeN.simps(2)) (simp add: connClose_def act_simps replicate_append_same)
qed

theorem close_releases_once_witness:
  "fst (closeN 3 scriptPinned (sampleWorld [] [Some (Msg ''closed'')])) = [Some (Msg ''closed''), None, None]"
  using close_releases_once [of scriptPinned "\<lambda>c. popScript" "sampleWorld [] [Some (Msg ''closed'')]"
      "Some (Msg ''closed'')" "sampleEnv []" 2]
  by (simp add: scriptPinned_def fixture_defs numeral_eq_Suc)

end
