(* ===== verification/Metrics_Lifecycle.thy ===== *)
theory Metrics_Lifecycle
  imports Core
begin

text \<open>
  metrics.go, second half: registration of a collector with its registerer, the pool sampler, and
  \<open>EnableMetrics\<close> with the handle that undoes it. The registerer is Prometheus's and is a parameter;
  the Prometheus collectors of a \<open>MetricsCollector\<close> are named by its address and their metric
  name.
\<close>

record 'd registerer =
  regRegister :: "nat \<times> string \<Rightarrow> ('d, gerr option) drvcall"
  regUnregister :: "nat \<times> string \<Rightarrow> ('d, bool) drvcall"

definition mcCollect :: "nat \<Rightarrow> (nat \<times> string) list" where
  "mcCollect a = map (Pair a)
     [''db_queries_total'', ''db_query_duration_seconds'', ''db_pool_acquires_total'',
      ''db_transactions_total'', ''db_rollback_compensations_total'', ''db_pool_in_use'',
      ''db_pool_idle'', ''db_pool_max'']"

section \<open>Registration\<close>

fun registerLoop ::
  "'d registerer \<Rightarrow> (nat \<times> string) list \<Rightarrow> (nat \<times> string) list \<Rightarrow> ('d world, gerr option) act" where
  "registerLoop r registered [] = ret None"
| "registerLoop r registered (c # cs) =
     andThen (driver (regRegister r c)) (\<lambda>err.
     case err of
       Some e \<Rightarrow>
         andThen (for_each (\<lambda>d. andThen (driver (regUnregister r d)) (\<lambda>_. ret ())) registered) (\<lambda>_.
         ret (Some (wrapE ''database: registering metrics: '' e)))
     | None \<Rightarrow> registerLoop r (registered @ [c]) cs)"

definition mcRegister :: "'d registerer \<Rightarrow> nat \<Rightarrow> ('d world, gerr option) act" where
  "mcRegister r a = registerLoop r [] (mcCollect a)"

definition mcUnregister :: "'d registerer \<Rightarrow> nat \<Rightarrow> ('d world, unit) act" where
  "mcUnregister r a = for_each (\<lambda>c. andThen (driver (regUnregister r c)) (\<lambda>_. ret ())) (mcCollect a)"

section \<open>The handle\<close>

text \<open>
  A \<open>MetricsHandle\<close>: whether its \<open>sync.Once\<close> has run, its collector, the registry it detaches from
  and the registerer. Whether the sampler's context is canceled is the same bit as the first.
\<close>

record 'd metricsHandle =
  hDone :: bool
  hMc :: nat
  hHooks :: nat
  hReg :: "'d registerer"

definition newCollector :: "nat \<Rightarrow> ('d world, nat) act" where
  "newCollector reg = (\<lambda>w.
     (Ret (fresh w), w\<lparr>mcs := (mcs w)(fresh w := NewMetricsCollector reg), fresh := Suc (fresh w)\<rparr>))"

definition EnableMetrics ::
  "'d db \<Rightarrow> nat \<Rightarrow> 'd registerer \<Rightarrow> ('d world, gerr + 'd metricsHandle) act" where
  "EnableMetrics d regName r =
     andThen (reading (connObserved (dbConn d))) (\<lambda>m.
     if m \<noteq> None then ret (Inl (Msg ''database: metrics already enabled for this DB''))
     else
       andThen (newCollector regName) (\<lambda>a.
       andThen (mcRegister r a) (\<lambda>err.
       case err of
         Some e \<Rightarrow> ret (Inl e)
       | None \<Rightarrow>
           (case connHooks (dbConn d) of
              None \<Rightarrow> panic ''invalid memory address or nil pointer dereference''
            | Some h \<Rightarrow>
                andThen (updRegistry h (hr_add (MetricsHook a))) (\<lambda>_.
                andThen (updRegistry h (hr_setObserved (Some a))) (\<lambda>_.
                andThen (reading (\<lambda>w. poolStat (dbPool d) (env w))) (\<lambda>st.
                andThen (samplePool st a) (\<lambda>_.
                ret (Inr \<lparr>hDone = False, hMc = a, hHooks = h, hReg = r\<rparr>)))))))))"

definition handleCollector :: "'d metricsHandle option \<Rightarrow> nat option" where
  "handleCollector h = map_option hMc h"

definition handleClose :: "'d metricsHandle \<Rightarrow> ('d world, 'd metricsHandle) act" where
  "handleClose h =
     (if hDone h then ret h
      else
        andThen (updRegistry (hHooks h) (hr_remove (hMc h))) (\<lambda>_.
        andThen (updRegistry (hHooks h) (hr_setObserved None)) (\<lambda>_.
        andThen (mcUnregister (hReg h) (hMc h)) (\<lambda>_.
        ret (h\<lparr>hDone := True\<rparr>)))))"

section \<open>The sampler\<close>

text \<open>
  \<open>pollLoop\<close> as a step relation over whether it still runs and the world: a tick samples the pool;
  once its context is canceled the loop may return, and a tick that is ready at the same time may
  still be taken first, as in Go's \<open>select\<close>.
\<close>

inductive pollStep ::
  "'d db \<Rightarrow> 'd metricsHandle \<Rightarrow> bool \<times> 'd world \<Rightarrow> bool \<times> 'd world \<Rightarrow> bool" for d h where
  tick: "samplePool (poolStat (dbPool d) (env w)) (hMc h) w = (Ret (), w') \<Longrightarrow>
    pollStep d h (True, w) (True, w')"
| canceled: "hDone h \<Longrightarrow> pollStep d h (True, w) (False, w)"

inductive_cases pollStep_stopped: "pollStep d h (False, w) s"

end
