(* ===== verification/Metrics_Properties.thy ===== *)
theory Metrics_Properties
  imports Metrics_Lifecycle Statements
begin

text \<open>
  Properties of the metrics lifecycle, over any registerer that behaves as Prometheus documents, and
  of what the collector counts.
\<close>

section \<open>The registerer\<close>

text \<open>The documented behaviour of a Prometheus registerer, with \<open>reged\<close> the collectors it holds. A collector
  is a value with its descriptors, here the pair of an address and a descriptor; the eight collectors of
  a \<open>MetricsCollector\<close> have one fixed descriptor each, told apart by the metric name. \<open>Register\<close> succeeds only
  where no collector with an equal descriptor is registered, and a failing call changes nothing.
  \<open>Unregister\<close> goes by descriptors and not by values: it removes whatever is registered under the
  descriptor of its argument.\<close>

definition lawful_registerer :: "'d registerer \<Rightarrow> ('d env \<Rightarrow> (nat \<times> string) set) \<Rightarrow> bool" where
  "lawful_registerer r reged \<longleftrightarrow>
     (\<forall>c s. case regRegister r c s of
        (None, s') \<Rightarrow> snd c \<notin> snd ` reged s \<and> reged s' = insert c (reged s)
      | (Some e, s') \<Rightarrow> reged s' = reged s)
     \<and> (\<forall>c s. reged (snd (regUnregister r c s)) = {x \<in> reged s. snd x \<noteq> snd c})"

lemma lawful_register:
  assumes "lawful_registerer r reged"
  shows "regRegister r c s = (None, s') \<Longrightarrow> snd c \<notin> snd ` reged s \<and> reged s' = insert c (reged s)"
    and "regRegister r c s = (Some e, s') \<Longrightarrow> reged s' = reged s"
  using assms unfolding lawful_registerer_def by (metis (mono_tags, lifting) case_prod_conv option.case)+

lemma lawful_unregister:
  assumes "lawful_registerer r reged"
  shows "reged (snd (regUnregister r c s)) = {x \<in> reged s. snd x \<noteq> snd c}"
  using assms unfolding lawful_registerer_def by blast

lemma unregister_all:
  assumes "lawful_registerer r reged"
  shows "\<exists>w'. for_each (\<lambda>d. andThen (driver (regUnregister r d)) (\<lambda>_. ret ())) cs w = (Ret (), w')
     \<and> reged (env w') = {x \<in> reged (env w). snd x \<notin> snd ` set cs}
     \<and> regs w' = regs w \<and> trace w' = trace w \<and> mcs w' = mcs w"
proof (induction cs arbitrary: w)
  case Nil
  then show ?case by (simp add: act_simps)
next
  case (Cons c cs)
  obtain b s where s: "regUnregister r c (env w) = (b, s)" by fastforce
  then have "reged s = {x \<in> reged (env w). snd x \<noteq> snd c}"
    using lawful_unregister [OF assms, of c "env w"] by simp
  with Cons [of "w\<lparr>env := s\<rparr>"] s show ?case by (auto simp: act_simps)
qed

text \<open>Taking back what was registered beside \<open>B\<close> under other descriptors leaves \<open>B\<close>.\<close>

lemma taken_back:
  assumes "snd ` B \<inter> snd ` C = {}"
  shows "{x \<in> B \<union> C. snd x \<notin> snd ` C} = B"
  using assms by blast

lemma registerLoop_atomic:
  assumes "lawful_registerer r reged" and "reged (env w) = B \<union> set done1" and "snd ` B \<inter> snd ` set done1 = {}"
  shows "\<exists>err w'. registerLoop r done1 cs w = (Ret err, w') \<and> regs w' = regs w \<and> trace w' = trace w
     \<and> mcs w' = mcs w
     \<and> (if err = None then reged (env w') = B \<union> set done1 \<union> set cs \<and> snd ` B \<inter> snd ` set cs = {}
        else reged (env w') = B)"
  using assms(2,3)
proof (induction cs arbitrary: done1 w)
  case Nil
  then show ?case by (simp add: act_simps)
next
  case (Cons c cs)
  obtain e s where s: "regRegister r c (env w) = (e, s)" by fastforce
  show ?case
  proof (cases e)
    case (Some x)
    with s have r: "reged s = B \<union> set done1"
      using lawful_register(2) [OF assms(1)] Cons.prems(1) by metis
    obtain w' where w': "for_each (\<lambda>d. andThen (driver (regUnregister r d)) (\<lambda>_. ret ())) done1 (w\<lparr>env := s\<rparr>) = (Ret (), w')"
      "reged (env w') = {x \<in> reged s. snd x \<notin> snd ` set done1}" "regs w' = regs w" "trace w' = trace w" "mcs w' = mcs w"
      using unregister_all [OF assms(1), of done1 "w\<lparr>env := s\<rparr>"] by auto
    have "reged (env w') = B" using w'(2) r taken_back [OF Cons.prems(2)] by simp
    with w' s Some show ?thesis by (simp add: act_simps)
  next
    case None
    with s have n: "snd c \<notin> snd ` (B \<union> set done1)" "reged s = insert c (B \<union> set done1)"
      using lawful_register(1) [OF assms(1)] Cons.prems(1) by metis+
    then have grown: "reged (env (w\<lparr>env := s\<rparr>)) = B \<union> set (done1 @ [c])" "snd ` B \<inter> snd ` set (done1 @ [c]) = {}"
      using Cons.prems(2) by auto
    have "\<exists>err w'. registerLoop r (done1 @ [c]) cs (w\<lparr>env := s\<rparr>) = (Ret err, w') \<and> regs w' = regs w
      \<and> trace w' = trace w \<and> mcs w' = mcs w
      \<and> (if err = None then reged (env w') = B \<union> set (done1 @ [c]) \<union> set cs \<and> snd ` B \<inter> snd ` set cs = {}
         else reged (env w') = B)"
      using Cons.IH [of "w\<lparr>env := s\<rparr>" "done1 @ [c]", OF grown] by simp
    then obtain err w' where "registerLoop r (done1 @ [c]) cs (w\<lparr>env := s\<rparr>) = (Ret err, w')"
      "regs w' = regs w" "trace w' = trace w" "mcs w' = mcs w"
      "if err = None then reged (env w') = B \<union> set (done1 @ [c]) \<union> set cs \<and> snd ` B \<inter> snd ` set cs = {}
       else reged (env w') = B"
      by blast
    with s None n(1) show ?thesis by (intro exI [of _ err] exI [of _ w']) (auto simp: act_simps)
  qed
qed

text \<open>The collectors of a \<open>MetricsCollector\<close> are registered all or not at all: when one of the eight
  is refused, those registered before it are taken back and the registerer holds what it held.\<close>
theorem metrics_registration_atomic:
  assumes "lawful_registerer r reged"
  shows "\<exists>err w'. mcRegister r a w = (Ret err, w') \<and> trace w' = trace w
     \<and> reged (env w') = reged (env w) \<union> (if err = None then set (mcCollect a) else {})"
  using registerLoop_atomic [OF assms, of w "reged (env w)" "[]" "mcCollect a"]
  by (auto simp: mcRegister_def split: if_splits)

text \<open>A registerer for the witnesses: the collectors it holds, at most one per descriptor, registered and
  unregistered by descriptor as \<open>prometheus.Registry\<close> does.\<close>

definition listRegisterer :: "(nat \<times> string) list registerer" where
  "listRegisterer =
     \<lparr>regRegister = (\<lambda>c s. if snd c \<in> set (map snd (drv s)) then (Some (Msg ''duplicate''), s)
                       else (None, s\<lparr>drv := c # drv s\<rparr>)),
      regUnregister = (\<lambda>c s. (snd c \<in> set (map snd (drv s)), s\<lparr>drv := filter (\<lambda>d. snd d \<noteq> snd c) (drv s)\<rparr>))\<rparr>"

lemma listRegisterer_lawful: "lawful_registerer listRegisterer (\<lambda>s. set (drv s))"
  by (force simp: lawful_registerer_def listRegisterer_def)

theorem metrics_registration_atomic_witness:
  "\<exists>err w'. mcRegister listRegisterer 1 (sampleWorld [] [(0, ''db_pool_max'')]) = (Ret err, w')
     \<and> set (drv (env w')) = {(0, ''db_pool_max'')} \<union> (if err = None then set (mcCollect 1) else {})"
  using metrics_registration_atomic [OF listRegisterer_lawful, of 1 "sampleWorld [] [(0, ''db_pool_max'')]"]
  by (auto simp: sampleWorld_def sampleEnv_def)

section \<open>Enabling and closing\<close>

lemma EnableMetrics_ok:
  assumes "lawful_registerer r reged" and "connHooks (dbConn d) = Some h"
    and "EnableMetrics d rn r w = (Ret (Inr hd1), w1)"
  shows "observed (Some h) w = None \<and> hMc hd1 = fresh w \<and> hHooks hd1 = h \<and> hReg hd1 = r \<and> \<not> hDone hd1
     \<and> regs w1 h = hr_setObserved (Some (fresh w)) (hr_add (MetricsHook (fresh w)) (regs w h))
     \<and> reged (env w1) = reged (env w) \<union> set (mcCollect (fresh w)) \<and> snd ` reged (env w) \<inter> snd ` set (mcCollect (fresh w)) = {}
     \<and> queriesTotal (mcs w1 (fresh w)) = (\<lambda>_. 0) \<and> queryDuration (mcs w1 (fresh w)) = []"
proof -
  let ?a = "fresh w"
  let ?w0 = "w\<lparr>mcs := (mcs w)(?a := NewMetricsCollector rn), fresh := Suc ?a\<rparr>"
  obtain err w' where m: "mcRegister r ?a ?w0 = (Ret err, w')" "regs w' = regs w" "mcs w' = mcs ?w0"
    "if err = None then reged (env w') = reged (env w) \<union> set (mcCollect ?a) \<and> snd ` reged (env w) \<inter> snd ` set (mcCollect ?a) = {}
     else reged (env w') = reged (env w)"
    using registerLoop_atomic [OF assms(1), of ?w0 "reged (env w)" "[]" "mcCollect ?a"]
    by (auto simp: mcRegister_def)
  have o1: "observed (Some h) w = None" and e: "err = None"
    using assms(2,3) m(1)
    by (auto simp: EnableMetrics_def act_simps connObserved_def newCollector_def split: if_splits option.splits)
  with assms(2,3) m show ?thesis
    by (auto simp: EnableMetrics_def act_simps connObserved_def newCollector_def samplePool_def
        NewMetricsCollector_def)
qed

text \<open>C20: \<open>Close\<close> undoes \<open>EnableMetrics\<close>, once. While metrics are enabled a second \<open>EnableMetrics\<close> is refused
  and changes nothing. Closing the handle, also after other work that leaves the registry and the
  registerer alone, leaves the hooks as they were before, no observed collector, so that metrics
  can be enabled again, and the registerer with what it held before; closing again does
  nothing.\<close>
theorem metrics_enable_close:
  assumes "lawful_registerer r reged" and "connHooks (dbConn d) = Some h"
    and "MetricsHook (fresh w) \<notin> set (snapshot (Some h) w)"
    and "EnableMetrics d rn r w = (Ret (Inr hd1), w1)"
    and "regs w2 = regs w1" and "reged (env w2) = reged (env w1)"
  shows "EnableMetrics d rn' r' w2 = (Ret (Inl (Msg ''database: metrics already enabled for this DB'')), w2)
     \<and> snapshot (Some h) w2 = snapshot (Some h) w @ [MetricsHook (hMc hd1)]
     \<and> (\<exists>hd2 w3. handleClose hd1 w2 = (Ret hd2, w3)
          \<and> snapshot (Some h) w3 = snapshot (Some h) w \<and> observed (Some h) w3 = None
          \<and> reged (env w3) = reged (env w) \<and> handleClose hd2 w3 = (Ret hd2, w3))"
proof -
  note ok = EnableMetrics_ok [OF assms(1,2,4)]
  let ?a = "fresh w"
  have r2: "regs w2 h = hr_setObserved (Some ?a) (hr_add (MetricsHook ?a) (regs w h))" using ok assms(5) by simp
  have "EnableMetrics d rn' r' w2 = (Ret (Inl (Msg ''database: metrics already enabled for this DB'')), w2)"
    using assms(2) r2
    by (simp add: EnableMetrics_def act_simps connObserved_def observed_def hr.attach_obs)
  moreover have "snapshot (Some h) w2 = snapshot (Some h) w @ [MetricsHook (hMc hd1)]"
    using r2 ok by (simp add: snapshot_def hr.attach_snap)
  moreover obtain w3 where w3: "mcUnregister r ?a (w2\<lparr>regs := (regs w2)(h := hr_setObserved None (hr_remove ?a (regs w2 h)))\<rparr>) = (Ret (), w3)"
    "reged (env w3) = {x \<in> reged (env w2). snd x \<notin> snd ` set (mcCollect ?a)}"
    "regs w3 = (regs w2)(h := hr_setObserved None (hr_remove ?a (regs w2 h)))"
    using unregister_all [OF assms(1), of "mcCollect ?a" "w2\<lparr>regs := (regs w2)(h := hr_setObserved None (hr_remove ?a (regs w2 h)))\<rparr>"]
    by (auto simp: mcUnregister_def)
  moreover have "handleClose hd1 w2 = (Ret (hd1\<lparr>hDone := True\<rparr>), w3)"
    using w3(1) ok by (simp add: handleClose_def act_simps)
  moreover have "reged (env w3) = reged (env w)"
    using w3(2) ok assms(6) taken_back [of "reged (env w)" "set (mcCollect ?a)"] by simp
  moreover have "snapshot (Some h) w3 = snapshot (Some h) w" "observed (Some h) w3 = None"
    using w3(3) r2 assms(3) hr.detach_attach_snap [of ?a "regs w h"]
    by (simp_all add: snapshot_def observed_def hr.detach_obs)
  ultimately show ?thesis by (auto simp: handleClose_def act_simps)
qed

text \<open>A \<open>DB\<close> whose statements all succeed and leave the state of the driver alone.\<close>

definition idleDB :: "'d db" where
  "idleDB =
     \<lparr>dbConn = \<lparr>connR = Runner 1 (\<lambda>c sql args s. ((0, None), s)) (\<lambda>c sql args s. ((0, None), s))
          (\<lambda>c sql args s. (0, s)) None None None None None None,
        connO = sampleOptions, connCtx = Background, connHooks = Some 0, connOps = None,
        connObs = newObservability\<rparr>,
      dbPool = \<lparr>poolBegin = (\<lambda>c s. (Inl (Msg ''none''), s)), poolPing = (\<lambda>c s. (None, s)),
        poolClose = (\<lambda>s. s), poolStat = (\<lambda>s. \<lparr>InUse = 1, Idle = 2, MaxC = 3\<rparr>), poolAcquire = None,
        poolBeginTx = None\<rparr>,
      dbRetry = NewRetryPolicy False 0 0, dbPoolMetrics = None\<rparr>"

abbreviation listDB :: "(nat \<times> string) list db" where
  "listDB \<equiv> idleDB"

lemma listDB_enables: "\<exists>hd1 w1. EnableMetrics listDB 7 listRegisterer (sampleWorld [] []) = (Ret (Inr hd1), w1)"
  by (simp add: EnableMetrics_def idleDB_def listRegisterer_def mcRegister_def mcCollect_def newCollector_def
      connObserved_def observed_def hr_observed_def sampleWorld_def sampleEnv_def act_simps samplePool_def)

theorem metrics_enable_close_witness:
  "\<exists>hd1 w1 hd2 w3. EnableMetrics listDB 7 listRegisterer (sampleWorld [] []) = (Ret (Inr hd1), w1)
     \<and> handleClose hd1 w1 = (Ret hd2, w3) \<and> drv (env w3) = [] \<and> snapshot (Some 0) w3 = []"
proof -
  obtain hd1 w1 where e: "EnableMetrics listDB 7 listRegisterer (sampleWorld [] []) = (Ret (Inr hd1), w1)"
    using listDB_enables by blast
  have "connHooks (dbConn listDB) = Some 0" by (simp add: idleDB_def)
  moreover have "snapshot (Some 0) (sampleWorld [] ([] :: (nat \<times> string) list)) = []"
    by (simp add: snapshot_def hr_snapshot_def sampleWorld_def)
  moreover have "drv (env (sampleWorld [] ([] :: (nat \<times> string) list))) = []"
    by (simp add: sampleWorld_def sampleEnv_def)
  ultimately show ?thesis
    using metrics_enable_close [OF listRegisterer_lawful _ _ e, of 0 w1] e by fastforce
qed

end
