(* ===== verification/Interleaving.thy ===== *)
theory Interleaving
  imports Main
begin

text \<open>
  Goroutines that run the same code over shared state: a thread is a value that says where its call
  stands, a step function advances it across one access to the shared state, and a schedule, the
  list of the threads that step next, is one interleaving. Statements over all schedules are
  statements over all interleavings.
\<close>

fun interleave :: "('t \<Rightarrow> 's \<Rightarrow> 't \<times> 's) \<Rightarrow> nat list \<Rightarrow> 't list \<times> 's \<Rightarrow> 't list \<times> 's" where
  "interleave step [] (ts, s) = (ts, s)"
| "interleave step (i # sched) (ts, s) =
     (if i < length ts
      then let (t', s') = step (ts ! i) s in interleave step sched (ts[i := t'], s')
      else interleave step sched (ts, s))"

lemma interleave_invariant:
  assumes "P ts s"
    and "\<And>ts s i t' s'. P ts s \<Longrightarrow> i < length ts \<Longrightarrow> step (ts ! i) s = (t', s') \<Longrightarrow> P (ts[i := t']) s'"
    and "interleave step sched (ts, s) = (ts', s')"
  shows "P ts' s'"
  using assms(1,3)
proof (induction sched arbitrary: ts s)
  case Nil
  then show ?case by simp
next
  case (Cons i sched)
  then show ?case
    using assms(2) [of ts s i] by (cases "step (ts ! i) s") (auto split: if_splits)
qed

text \<open>
  Threads that need nothing from each other: whatever the shared state, as long as it is valid, a
  step keeps it so, keeps its own thread in order and brings it closer to its end.
\<close>

locale independent_threads =
  fixes step :: "'t \<Rightarrow> 's \<Rightarrow> 't \<times> 's"
    and valid :: "'s \<Rightarrow> bool" and inOrder :: "'t \<Rightarrow> bool" and stepsLeft :: "'t \<Rightarrow> nat" and call :: "'t \<Rightarrow> 'q"
  assumes step_keeps: "step t s = (t', s') \<Longrightarrow> valid s \<Longrightarrow> inOrder t \<Longrightarrow>
    valid s' \<and> inOrder t' \<and> stepsLeft t' \<le> stepsLeft t - 1 \<and> call t' = call t"
begin

lemma threads_in_order:
  assumes "interleave step sched (ts, s) = (ts', s')" "valid s" "list_all inOrder ts"
  shows "valid s' \<and> list_all inOrder ts' \<and> map call ts' = map call ts"
proof -
  define P where "P ts1 s1 \<longleftrightarrow> valid s1 \<and> list_all inOrder ts1 \<and> map call ts1 = map call ts" for ts1 s1
  have "P ts' s'"
  proof (rule interleave_invariant [of P, OF _ _ assms(1)])
    fix ts1 s1 i t1 s2
    assume a: "P ts1 s1" "i < length ts1" "step (ts1 ! i) s1 = (t1, s2)"
    then have "valid s2 \<and> inOrder t1 \<and> call t1 = call (ts1 ! i)"
      using step_keeps by (simp add: P_def list_all_length)
    with a(1,2) show "P (ts1[i := t1]) s2"
      by (auto simp: P_def list_all_length nth_list_update map_update list_update_same_conv
          dest: arg_cong [where f = "\<lambda>l. l ! i"])
  qed (simp add: P_def assms)
  then show ?thesis by (simp add: P_def)
qed

lemma threads_progress:
  assumes "interleave step sched (ts, s) = (ts', s')" "valid s" "list_all inOrder ts" "i < length ts"
  shows "stepsLeft (ts' ! i) \<le> stepsLeft (ts ! i) - count_list sched i"
  using assms
proof (induction sched arbitrary: ts s)
  case Nil
  then show ?case by simp
next
  case (Cons j sched)
  show ?case
  proof (cases "j < length ts")
    case False
    with Cons show ?thesis by auto
  next
    case True
    obtain t1 s1 where step: "step (ts ! j) s = (t1, s1)" by fastforce
    have t1: "valid s1" "inOrder t1" "stepsLeft t1 \<le> stepsLeft (ts ! j) - 1"
      using step_keeps [OF step] Cons.prems True by (auto simp: list_all_length)
    have "list_all inOrder (ts[j := t1])"
      using Cons.prems(3) t1(2) True by (auto simp: list_all_length nth_list_update)
    then have "stepsLeft (ts' ! i) \<le> stepsLeft (ts[j := t1] ! i) - count_list sched i"
      using Cons.IH [OF _ t1(1)] Cons.prems True step by simp
    then show ?thesis
      using t1(3) True by (cases "j = i") (auto simp: nth_list_update)
  qed
qed

end

end
