(* ===== verification/Metrics_Concurrency.thy ===== *)
theory Metrics_Concurrency
  imports Metrics_Properties Interleaving
begin

text \<open>
  \<open>EnableMetrics\<close> called from several goroutines at once. The check for a collector in use and its
  installation are separate accesses to the hook registry, with the eight registrations between them,
  so the call is cut here into the steps that touch shared state; run alone, the steps are
  \<open>EnableMetrics\<close>.
\<close>

section \<open>The call in steps\<close>

text \<open>Where a call stands: before its check; registering (what is registered, what is left); taking
  registrations back; about to add the hook, to set the observed collector, to sample the pool;
  returned; or crashed on a nil registry.\<close>

datatype enabling =
    ECheck
  | ERegister nat "(nat \<times> string) list" "(nat \<times> string) list"
  | EUndo gerr "(nat \<times> string) list"
  | EAdd nat
  | EObserve nat
  | ESample nat
  | EEnabled nat
  | ERefused gerr
  | ECrashed string

definition enablePc :: "'d db \<Rightarrow> nat \<Rightarrow> 'd registerer \<Rightarrow> enabling \<Rightarrow> 'd world \<Rightarrow> enabling \<times> 'd world" where
  "enablePc d rn r pc w =
     (case pc of
        ECheck \<Rightarrow>
          if connObserved (dbConn d) w \<noteq> None
          then (ERefused (Msg ''database: metrics already enabled for this DB''), w)
          else (ERegister (fresh w) [] (mcCollect (fresh w)),
                w\<lparr>mcs := (mcs w)(fresh w := NewMetricsCollector rn), fresh := Suc (fresh w)\<rparr>)
      | ERegister a registered [] \<Rightarrow> (EAdd a, w)
      | ERegister a registered (c # cs) \<Rightarrow>
          (case regRegister r c (env w) of
             (Some e, s) \<Rightarrow> (EUndo (wrapE ''database: registering metrics: '' e) registered, w\<lparr>env := s\<rparr>)
           | (None, s) \<Rightarrow> (ERegister a (registered @ [c]) cs, w\<lparr>env := s\<rparr>))
      | EUndo e [] \<Rightarrow> (ERefused e, w)
      | EUndo e (c # cs) \<Rightarrow> (EUndo e cs, w\<lparr>env := snd (regUnregister r c (env w))\<rparr>)
      | EAdd a \<Rightarrow>
          (case connHooks (dbConn d) of
             None \<Rightarrow> (ECrashed ''invalid memory address or nil pointer dereference'', w)
           | Some h \<Rightarrow> (EObserve a, w\<lparr>regs := (regs w)(h := hr_add (MetricsHook a) (regs w h))\<rparr>))
      | EObserve a \<Rightarrow>
          (case connHooks (dbConn d) of
             None \<Rightarrow> (ECrashed ''invalid memory address or nil pointer dereference'', w)
           | Some h \<Rightarrow> (ESample a, w\<lparr>regs := (regs w)(h := hr_setObserved (Some a) (regs w h))\<rparr>))
      | ESample a \<Rightarrow> (EEnabled a, snd (samplePool (poolStat (dbPool d) (env w)) a w))
      | other \<Rightarrow> (other, w))"

text \<open>The later \<open>Close\<close> of the handle: it takes the hook out, clears the observed collector and then
  unregisters.\<close>

datatype closing = CRemove nat | CUnobserve nat | CUnregister "(nat \<times> string) list" | CClosed

definition closePc :: "nat \<Rightarrow> 'd registerer \<Rightarrow> closing \<Rightarrow> 'd world \<Rightarrow> closing \<times> 'd world" where
  "closePc h r pc w =
     (case pc of
        CRemove a \<Rightarrow> (CUnobserve a, w\<lparr>regs := (regs w)(h := hr_remove a (regs w h))\<rparr>)
      | CUnobserve a \<Rightarrow> (CUnregister (mcCollect a), w\<lparr>regs := (regs w)(h := hr_setObserved None (regs w h))\<rparr>)
      | CUnregister [] \<Rightarrow> (CClosed, w)
      | CUnregister (c # cs) \<Rightarrow> (CUnregister cs, w\<lparr>env := snd (regUnregister r c (env w))\<rparr>)
      | CClosed \<Rightarrow> (CClosed, w))"

text \<open>A goroutine that enables metrics and, when it got a handle, closes it at some later time.\<close>

datatype usage = Enabling enabling | Closing closing

fun usageStep :: "'d db \<Rightarrow> nat \<Rightarrow> 'd registerer \<Rightarrow> usage \<Rightarrow> 'd world \<Rightarrow> usage \<times> 'd world" where
  "usageStep d rn r (Enabling (EEnabled a)) w =
     (case connHooks (dbConn d) of
        None \<Rightarrow> (Enabling (EEnabled a), w)
      | Some h \<Rightarrow> (let (c, w') = closePc h r (CRemove a) w in (Closing c, w')))"
| "usageStep d rn r (Enabling pc) w = (let (pc', w') = enablePc d rn r pc w in (Enabling pc', w'))"
| "usageStep d rn r (Closing c) w =
     (case connHooks (dbConn d) of
        None \<Rightarrow> (Closing c, w)
      | Some h \<Rightarrow> (let (c', w') = closePc h r c w in (Closing c', w')))"

section \<open>Run alone, the steps are the call\<close>

text \<open>The next \<open>n\<close> steps of one call.\<close>

fun alone :: "nat \<Rightarrow> 'd db \<Rightarrow> nat \<Rightarrow> 'd registerer \<Rightarrow> enabling \<Rightarrow> 'd world \<Rightarrow> enabling \<times> 'd world" where
  "alone 0 d rn r pc w = (pc, w)"
| "alone (Suc n) d rn r pc w = (let (pc', w') = enablePc d rn r pc w in alone n d rn r pc' w')"

text \<open>The result of a call that has returned.\<close>

definition enableResult ::
  "nat option \<Rightarrow> 'd registerer \<Rightarrow> enabling \<Rightarrow> (gerr + 'd metricsHandle) outcome" where
  "enableResult h r pc =
     (case pc of
        EEnabled a \<Rightarrow> Ret (Inr \<lparr>hDone = False, hMc = a, hHooks = the h, hReg = r\<rparr>)
      | ERefused e \<Rightarrow> Ret (Inl e)
      | ECrashed p \<Rightarrow> Panic p
      | _ \<Rightarrow> Panic ''running'')"

text \<open>What is left of \<open>EnableMetrics\<close> at each point.\<close>

definition attachRest :: "'d db \<Rightarrow> 'd registerer \<Rightarrow> nat \<Rightarrow> ('d world, gerr + 'd metricsHandle) act" where
  "attachRest d r a =
     (case connHooks (dbConn d) of
        None \<Rightarrow> panic ''invalid memory address or nil pointer dereference''
      | Some h \<Rightarrow>
          andThen (updRegistry h (hr_add (MetricsHook a))) (\<lambda>_.
          andThen (updRegistry h (hr_setObserved (Some a))) (\<lambda>_.
          andThen (reading (\<lambda>w. poolStat (dbPool d) (env w))) (\<lambda>st.
          andThen (samplePool st a) (\<lambda>_.
          ret (Inr \<lparr>hDone = False, hMc = a, hHooks = h, hReg = r\<rparr>))))))"

lemma alone_returned [simp]:
  "alone n d rn r (EEnabled a) w = (EEnabled a, w)"
  "alone n d rn r (ERefused e) w = (ERefused e, w)"
  "alone n d rn r (ECrashed p) w = (ECrashed p, w)"
  by (induction n) (simp_all add: enablePc_def)

lemma alone_Suc: "0 < n \<Longrightarrow> alone n d rn r pc w = (case enablePc d rn r pc w of (pc', w') \<Rightarrow> alone (n - 1) d rn r pc' w')"
  by (cases n) simp_all

lemma alone_attach:
  assumes "3 \<le> n"
  shows "(case alone n d rn r (EAdd a) w of (pc, w') \<Rightarrow> (enableResult (connHooks (dbConn d)) r pc, w'))
     = attachRest d r a w"
proof -
  obtain k where "n = Suc (Suc (Suc k))" using assms le_Suc_ex [of 3 n] by (auto simp: numeral_eq_Suc)
  then show ?thesis
    by (cases "connHooks (dbConn d)")
      (simp_all add: enablePc_def attachRest_def enableResult_def act_simps samplePool_def)
qed

lemma alone_undo:
  assumes "length cs < n"
  shows "(case alone n d rn r (EUndo e cs) w of (pc, w') \<Rightarrow> (enableResult h r pc, w'))
     = andThen (for_each (\<lambda>c. andThen (driver (regUnregister r c)) (\<lambda>_. ret ())) cs) (\<lambda>_. ret (Inl e)) w"
  using assms
proof (induction cs arbitrary: n w)
  case Nil
  then show ?case by (simp add: alone_Suc enablePc_def enableResult_def act_simps)
next
  case (Cons c cs)
  then show ?case
    using Cons.IH [of "n - 1" "w\<lparr>env := snd (regUnregister r c (env w))\<rparr>"]
    by (simp add: alone_Suc [of n] enablePc_def act_simps)
qed

lemma alone_register:
  assumes "5 + length registered + 2 * length cs < n"
  shows "(case alone n d rn r (ERegister a registered cs) w of (pc, w') \<Rightarrow> (enableResult (connHooks (dbConn d)) r pc, w'))
     = andThen (registerLoop r registered cs) (\<lambda>err.
         case err of Some e \<Rightarrow> ret (Inl e) | None \<Rightarrow> attachRest d r a) w"
  using assms
proof (induction cs arbitrary: n w registered)
  case Nil
  then show ?case
    using alone_attach [of "n - 1" d r rn a w] by (simp add: alone_Suc [of n] enablePc_def act_simps)
next
  case (Cons c cs)
  obtain e s where s: "regRegister r c (env w) = (e, s)" by fastforce
  show ?case
  proof (cases e)
    case None
    with s Cons.IH [of "registered @ [c]" "n - 1" "w\<lparr>env := s\<rparr>"] Cons.prems show ?thesis
      by (simp add: alone_Suc [of n] enablePc_def act_simps)
  next
    case (Some x)
    with s alone_undo [of registered "n - 1" "connHooks (dbConn d)" r d rn _ "w\<lparr>env := s\<rparr>"] Cons.prems
    show ?thesis
      by (simp add: alone_Suc [of n] enablePc_def act_simps andThen_assoc split: prod.splits outcome.splits)
  qed
qed

lemma steps_are_EnableMetrics:
  "(case alone 23 d rn r ECheck w of (pc, w') \<Rightarrow> (enableResult (connHooks (dbConn d)) r pc, w'))
     = EnableMetrics d rn r w"
proof (cases "connObserved (dbConn d) w")
  case (Some m)
  then show ?thesis
    by (simp add: alone_Suc enablePc_def EnableMetrics_def act_simps enableResult_def)
next
  case None
  let ?w0 = "w\<lparr>mcs := (mcs w)(fresh w := NewMetricsCollector rn), fresh := Suc (fresh w)\<rparr>"
  have "length (mcCollect a) = 8" for a by (simp add: mcCollect_def)
  moreover have "EnableMetrics d rn r w = andThen (registerLoop r [] (mcCollect (fresh w))) (\<lambda>err.
      case err of Some e \<Rightarrow> ret (Inl e) | None \<Rightarrow> attachRest d r (fresh w)) ?w0"
    unfolding EnableMetrics_def attachRest_def mcRegister_def
    using None by (simp add: act_simps newCollector_def)
  moreover have "alone 23 d rn r ECheck w = alone 22 d rn r (ERegister (fresh w) [] (mcCollect (fresh w))) ?w0"
    using None by (simp add: alone_Suc [of 23] enablePc_def)
  ultimately show ?thesis
    using alone_register [of "[]" "mcCollect (fresh w)" 22 d r rn "fresh w" ?w0] by simp
qed

text \<open>The same for \<open>Close\<close>.\<close>

fun closeAlone :: "nat \<Rightarrow> nat \<Rightarrow> 'd registerer \<Rightarrow> closing \<Rightarrow> 'd world \<Rightarrow> closing \<times> 'd world" where
  "closeAlone 0 h r pc w = (pc, w)"
| "closeAlone (Suc n) h r pc w = (let (pc', w') = closePc h r pc w in closeAlone n h r pc' w')"

lemma closeAlone_unregister:
  "closeAlone (Suc (length cs)) h r (CUnregister cs) w
     = (CClosed, snd (for_each (\<lambda>c. andThen (driver (regUnregister r c)) (\<lambda>_. ret ())) cs w))"
  by (induction cs arbitrary: w) (simp_all add: closePc_def act_simps)

lemma steps_are_Close:
  assumes "\<not> hDone hd1"
  shows "closeAlone 11 (hHooks hd1) (hReg hd1) (CRemove (hMc hd1)) w = (CClosed, snd (handleClose hd1 w))"
proof -
  let ?a = "hMc hd1" and ?h = "hHooks hd1"
  let ?w2 = "w\<lparr>regs := (regs w)(?h := hr_setObserved None (hr_remove ?a (regs w ?h)))\<rparr>"
  define n where "n = Suc (length (mcCollect ?a))"
  have eleven: "(11::nat) = Suc (Suc n)" by (simp add: n_def mcCollect_def)
  have "closeAlone 11 ?h (hReg hd1) (CRemove ?a) w = closeAlone n ?h (hReg hd1) (CUnregister (mcCollect ?a)) ?w2"
    unfolding eleven by (simp add: closePc_def)
  moreover have "\<exists>w'. for_each (\<lambda>c. andThen (driver (regUnregister r c)) (\<lambda>_. ret ())) cs w = (Ret (), w')"
    for r :: "'a registerer" and cs w
    by (induction cs arbitrary: w) (simp_all add: act_simps)
  then obtain w' where "for_each (\<lambda>c. andThen (driver (regUnregister (hReg hd1) c)) (\<lambda>_. ret ())) (mcCollect ?a) ?w2
      = (Ret (), w')"
    by metis
  ultimately show ?thesis
    using assms closeAlone_unregister [of "mcCollect ?a" ?h "hReg hd1" ?w2, folded n_def]
    by (simp add: handleClose_def mcUnregister_def act_simps)
qed

section \<open>Exclusion\<close>

text \<open>What a goroutine holds in the registerer, the collector it has among the hooks, and the one it has
  made the observed one.\<close>

fun held :: "usage \<Rightarrow> (nat \<times> string) set" where
  "held (Enabling (ERegister a registered rest)) = set registered"
| "held (Enabling (EUndo e cs)) = set cs"
| "held (Enabling (EAdd a)) = set (mcCollect a)"
| "held (Enabling (EObserve a)) = set (mcCollect a)"
| "held (Enabling (ESample a)) = set (mcCollect a)"
| "held (Enabling (EEnabled a)) = set (mcCollect a)"
| "held (Closing (CRemove a)) = set (mcCollect a)"
| "held (Closing (CUnobserve a)) = set (mcCollect a)"
| "held (Closing (CUnregister cs)) = set cs"
| "held _ = {}"

fun attached :: "usage \<Rightarrow> nat option" where
  "attached (Enabling (EObserve a)) = Some a"
| "attached (Enabling (ESample a)) = Some a"
| "attached (Enabling (EEnabled a)) = Some a"
| "attached (Closing (CRemove a)) = Some a"
| "attached _ = None"

fun observing :: "usage \<Rightarrow> nat option" where
  "observing (Enabling (ESample a)) = Some a"
| "observing (Enabling (EEnabled a)) = Some a"
| "observing (Closing (CRemove a)) = Some a"
| "observing (Closing (CUnobserve a)) = Some a"
| "observing _ = None"

definition locks :: "usage \<Rightarrow> bool" where
  "locks u \<longleftrightarrow> ''db_queries_total'' \<in> snd ` held u"

text \<open>The addresses of a call are new, and it registers its own collectors in order.\<close>

fun sound :: "nat \<Rightarrow> usage \<Rightarrow> bool" where
  "sound f (Enabling (ERegister a registered rest)) \<longleftrightarrow> f \<le> a \<and> registered @ rest = mcCollect a"
| "sound f (Enabling (EAdd a)) \<longleftrightarrow> f \<le> a"
| "sound f (Enabling (EUndo e cs)) \<longleftrightarrow> distinct (map snd cs)"
| "sound f (Closing (CUnregister cs)) \<longleftrightarrow> distinct (map snd cs)"
| "sound f u \<longleftrightarrow> (\<forall>a. attached u = Some a \<or> observing u = Some a \<longrightarrow> f \<le> a)"

text \<open>The invariant in three parts: for the registerer with its initial contents \<open>R\<close>, for the hooks with
  the initial ones \<open>S\<close>, and for the observed collector.\<close>

definition regInv :: "('d env \<Rightarrow> (nat \<times> string) set) \<Rightarrow> (nat \<times> string) set \<Rightarrow> usage list \<Rightarrow> 'd world \<Rightarrow> bool" where
  "regInv reged R ts w \<longleftrightarrow>
     (\<forall>c. c \<in> reged (env w) \<longleftrightarrow> c \<in> R \<or> (\<exists>i < length ts. c \<in> held (ts ! i)))
     \<and> (\<forall>i < length ts. snd ` held (ts ! i) \<inter> snd ` R = {})
     \<and> (\<forall>i < length ts. \<forall>j < length ts. i \<noteq> j \<longrightarrow> snd ` held (ts ! i) \<inter> snd ` held (ts ! j) = {})"

definition hookInv :: "nat \<Rightarrow> 'd hook list \<Rightarrow> usage list \<Rightarrow> 'd world \<Rightarrow> bool" where
  "hookInv h S ts w \<longleftrightarrow>
     ((\<forall>i < length ts. attached (ts ! i) = None) \<longrightarrow> snapshot (Some h) w = S)
     \<and> (\<forall>i < length ts. \<forall>a. attached (ts ! i) = Some a \<longrightarrow> snapshot (Some h) w = S @ [MetricsHook a])"

definition obsInv :: "nat \<Rightarrow> usage list \<Rightarrow> 'd world \<Rightarrow> bool" where
  "obsInv h ts w \<longleftrightarrow>
     ((\<forall>i < length ts. observing (ts ! i) = None) \<longrightarrow> observed (Some h) w = None)
     \<and> (\<forall>i < length ts. \<forall>a. observing (ts ! i) = Some a \<longrightarrow> observed (Some h) w = Some a)"

lemma collect_locks: "''db_queries_total'' \<in> snd ` set (mcCollect a)"
  by (simp add: mcCollect_def)

lemma attached_locks: "attached u = Some a \<Longrightarrow> locks u"
  by (cases u rule: attached.cases) (simp_all add: locks_def collect_locks)

lemma observing_locks: "observing u = Some a \<Longrightarrow> locks u"
  by (cases u rule: observing.cases) (simp_all add: locks_def collect_locks)

lemma one_lock:
  assumes "regInv reged R ts w" "i < length ts" "j < length ts" "locks (ts ! i)" "locks (ts ! j)"
  shows "i = j"
  using assms unfolding regInv_def locks_def by blast

lemma regInv_change:
  assumes inv: "regInv reged R ts w" and i: "i < length ts"
    and r: "reged (env w') = (reged (env w) - (held (ts ! i) - held u)) \<union> (held u - held (ts ! i))"
    and new: "\<And>c x. c \<in> held u \<Longrightarrow> c \<notin> held (ts ! i) \<Longrightarrow> x \<in> reged (env w) \<Longrightarrow> snd x \<noteq> snd c"
  shows "regInv reged R (ts[i := u]) w'"
proof -
  have mem: "c \<in> reged (env w) \<longleftrightarrow> c \<in> R \<or> (\<exists>j < length ts. c \<in> held (ts ! j))" for c
    using inv unfolding regInv_def by blast
  have R: "snd x \<noteq> snd y" if "x \<in> held (ts ! j)" "y \<in> R" "j < length ts" for x y j
    using inv that unfolding regInv_def by blast
  have apart: "snd x \<noteq> snd y" if "x \<in> held (ts ! j)" "y \<in> held (ts ! k)" "j \<noteq> k" "j < length ts" "k < length ts" for x y j k
    using inv that unfolding regInv_def by blast
  have uR: "snd x \<noteq> snd y" if "x \<in> held u" "y \<in> R" for x y
    using new [of x y] mem [of y] R [of x i y] i that by metis
  have u: "snd x \<noteq> snd y" if "x \<in> held u" "y \<in> held (ts ! j)" "j \<noteq> i" "j < length ts" for x y j
    using new [of x y] mem [of y] apart [of x i y j] that i by metis
  have "c \<in> reged (env w') \<longleftrightarrow> c \<in> R \<or> c \<in> held u \<or> (\<exists>j < length ts. j \<noteq> i \<and> c \<in> held (ts ! j))" for c
    using r mem [of c] R [of c i c] apart [of c _ c i] i by auto
  then show ?thesis
    unfolding regInv_def using R uR u i apart
    by (auto simp: nth_list_update) (metis snd_conv)+
qed

text \<open>Unregistering by descriptor what a goroutine holds takes nothing from the others.\<close>

lemma regInv_own:
  assumes "regInv reged R ts w" "i < length ts" "held (ts ! i) = set (c # cs)" "distinct (map snd (c # cs))"
  shows "{x \<in> reged (env w). snd x \<noteq> snd c} = reged (env w) - {c}"
proof -
  have c: "c \<in> held (ts ! i)" using assms(3) by simp
  have "x = c" if x: "x \<in> reged (env w)" "snd x = snd c" for x
  proof -
    have "x \<in> R \<or> (\<exists>j < length ts. x \<in> held (ts ! j))" using assms(1) x(1) unfolding regInv_def by blast
    then show ?thesis
    proof (elim disjE exE conjE)
      assume "x \<in> R"
      with assms(1,2) c x(2) show ?thesis unfolding regInv_def by blast
    next
      fix j assume j: "j < length ts" "x \<in> held (ts ! j)"
      then have "j = i" using assms(1,2) c x(2) unfolding regInv_def by blast
      with j(2) assms(3,4) x(2) show ?thesis by (auto simp: image_iff)
    qed
  qed
  then show ?thesis by auto
qed

lemma hookInv_same:
  assumes "hookInv h S ts w" "i < length ts" "attached u = attached (ts ! i)"
    "snapshot (Some h) w' = snapshot (Some h) w"
  shows "hookInv h S (ts[i := u]) w'"
proof -
  have "attached (ts[i := u] ! j) = attached (ts ! j)" if "j < length ts" for j
    using assms(2,3) that by (simp add: nth_list_update)
  with assms(1,4) show ?thesis by (simp add: hookInv_def)
qed

lemma others_free:
  assumes "regInv reged R ts w" "i < length ts" "locks (ts ! i)" "j < length ts" "j \<noteq> i"
  shows "attached (ts ! j) = None" "observing (ts ! j) = None"
  using one_lock [OF assms(1,2,4,3)] attached_locks observing_locks assms(5) by (metis not_None_eq)+

lemma hookInv_add:
  assumes "regInv reged R ts w" "hookInv h S ts w" "i < length ts" "locks (ts ! i)" "attached (ts ! i) = None"
    "attached u = Some a" "snapshot (Some h) w' = snapshot (Some h) w @ [MetricsHook a]"
  shows "hookInv h S (ts[i := u]) w'"
proof -
  have "attached (ts ! j) = None" if "j < length ts" for j
    using others_free [OF assms(1,3,4)] assms(5) that by metis
  with assms show ?thesis by (auto simp: hookInv_def nth_list_update)
qed

lemma hookInv_remove:
  assumes "regInv reged R ts w" "hookInv h S ts w" "i < length ts" "attached (ts ! i) = Some a"
    "MetricsHook a \<notin> set S"
    "attached u = None" "snapshot (Some h) w' = remove1 (MetricsHook a) (snapshot (Some h) w)"
  shows "hookInv h S (ts[i := u]) w'"
proof -
  have "attached (ts[i := u] ! j) = None" if "j < length ts" for j
    using others_free [OF assms(1,3) attached_locks [OF assms(4)]] assms(3,6) that
    by (cases "j = i") auto
  moreover have "snapshot (Some h) w' = S"
    using assms by (auto simp: hookInv_def remove1_append)
  ultimately show ?thesis by (simp add: hookInv_def)
qed

lemma obsInv_same:
  assumes "obsInv h ts w" "i < length ts" "observing u = observing (ts ! i)"
    "observed (Some h) w' = observed (Some h) w"
  shows "obsInv h (ts[i := u]) w'"
proof -
  have "observing (ts[i := u] ! j) = observing (ts ! j)" if "j < length ts" for j
    using assms(2,3) that by (simp add: nth_list_update)
  with assms(1,4) show ?thesis by (simp add: obsInv_def)
qed

lemma obsInv_set:
  assumes "regInv reged R ts w" "i < length ts" "locks (ts ! i)"
    "observed (Some h) w' = observing u"
  shows "obsInv h (ts[i := u]) w'"
  using others_free(2) [OF assms(1,2,3)] assms(2,4) by (auto simp: obsInv_def nth_list_update)

section \<open>Every interleaving is exclusive\<close>

definition usersInv ::
  "nat \<Rightarrow> ('d env \<Rightarrow> (nat \<times> string) set) \<Rightarrow> (nat \<times> string) set \<Rightarrow> 'd hook list \<Rightarrow> nat
     \<Rightarrow> usage list \<Rightarrow> 'd world \<Rightarrow> bool" where
  "usersInv h reged R S f ts w \<longleftrightarrow>
     f \<le> fresh w \<and> list_all (sound f) ts \<and> regInv reged R ts w \<and> hookInv h S ts w \<and> obsInv h ts w"

text \<open>A step that leaves the hook registry alone.\<close>

lemma usersInv_quiet:
  assumes "usersInv h reged R S f ts w" "i < length ts" "sound f u"
    and "attached u = attached (ts ! i)" "observing u = observing (ts ! i)"
    and "regs w' = regs w" "fresh w \<le> fresh w'"
    and "reged (env w') = (reged (env w) - (held (ts ! i) - held u)) \<union> (held u - held (ts ! i))"
    and "\<And>c x. c \<in> held u \<Longrightarrow> c \<notin> held (ts ! i) \<Longrightarrow> x \<in> reged (env w) \<Longrightarrow> snd x \<noteq> snd c"
  shows "usersInv h reged R S f (ts[i := u]) w'"
  using assms snapshot_regs [OF assms(6)] observed_regs [OF assms(6)]
  by (auto simp: usersInv_def list_all_length nth_list_update
      intro!: regInv_change hookInv_same obsInv_same)

lemma collect_distinct: "distinct (map snd (mcCollect a))"
  by (simp add: mcCollect_def)

lemma collect_parts:
  assumes "registered @ rest = mcCollect a"
  shows "distinct (map snd registered)" "\<And>c cs. rest = c # cs \<Longrightarrow> c \<notin> set registered"
proof -
  have "distinct (map snd (registered @ rest))" unfolding assms by (rule collect_distinct)
  then show "distinct (map snd registered)" "\<And>c cs. rest = c # cs \<Longrightarrow> c \<notin> set registered" by auto
qed

text \<open>The step that unregisters the next of the collectors in hand.\<close>

lemma usersInv_unregister:
  assumes law: "lawful_registerer r reged" and inv: "usersInv h reged R S f ts w" and i: "i < length ts"
    and held: "held (ts ! i) = set (c # cs)" "distinct (map snd (c # cs))" "held u = set cs"
    and quiet: "sound f u" "attached u = attached (ts ! i)" "observing u = observing (ts ! i)"
  shows "usersInv h reged R S f (ts[i := u]) (w\<lparr>env := snd (regUnregister r c (env w))\<rparr>)"
proof -
  have "regInv reged R ts w" using inv by (simp add: usersInv_def)
  then have "reged (snd (regUnregister r c (env w))) = reged (env w) - {c}"
    unfolding lawful_unregister [OF law] by (rule regInv_own [OF _ i held(1,2)])
  moreover have "c \<notin> set cs" using held(2) by auto
  ultimately show ?thesis
    using held(1,3) by (intro usersInv_quiet [OF inv i quiet]) auto
qed

lemma usersInv_sound: "usersInv h reged R S f ts w \<Longrightarrow> i < length ts \<Longrightarrow> sound f (ts ! i)"
  by (simp add: usersInv_def list_all_length)

lemma usersInv_register:
  assumes law: "lawful_registerer r reged"
    and inv: "usersInv h reged R S f ts w" and i: "i < length ts"
    and u: "ts ! i = Enabling (ERegister a registered rest)"
    and step: "enablePc d rn r (ERegister a registered rest) w = (pc', w')"
  shows "usersInv h reged R S f (ts[i := Enabling pc']) w'"
proof -
  have sd: "f \<le> a" "registered @ rest = mcCollect a" using usersInv_sound [OF inv i] u by auto
  show ?thesis
  proof (cases rest)
    case Nil
    with step sd u show ?thesis
      by (intro usersInv_quiet [OF inv i]) (auto simp: enablePc_def)
  next
    case (Cons c cs)
    note parts = collect_parts(1) [OF sd(2)] collect_parts(2) [OF sd(2) Cons]
    obtain e s where s: "regRegister r c (env w) = (e, s)" by fastforce
    show ?thesis
    proof (cases e)
      case None
      with s have "reged s = insert c (reged (env w))" "\<forall>x \<in> reged (env w). snd x \<noteq> snd c"
        using lawful_register(1) [OF law] by (metis, metis image_eqI)
      moreover have "pc' = ERegister a (registered @ [c]) cs" "w' = w\<lparr>env := s\<rparr>"
        using step s None Cons by (simp_all add: enablePc_def)
      ultimately show ?thesis
        using u sd Cons parts(2) by (intro usersInv_quiet [OF inv i]) auto
    next
      case (Some x)
      then have same: "reged s = reged (env w)" using s lawful_register(2) [OF law] by blast
      obtain e' where pc': "pc' = EUndo e' registered" and w': "w' = w\<lparr>env := s\<rparr>"
        using step s Some Cons by (auto simp: enablePc_def)
      show ?thesis
        unfolding pc' w' using u parts(1) same by (intro usersInv_quiet [OF inv i]) simp_all
    qed
  qed
qed

lemma usersInv_enable:
  assumes law: "lawful_registerer r reged" and h: "connHooks (dbConn d) = Some h"
    and inv: "usersInv h reged R S f ts w" and i: "i < length ts" and u: "ts ! i = Enabling pc"
    and step: "enablePc d rn r pc w = (pc', w')"
  shows "usersInv h reged R S f (ts[i := Enabling pc']) w'"
proof (cases pc)
  case ECheck
  with step u inv show ?thesis
    by (intro usersInv_quiet [OF inv i]) (auto simp: enablePc_def usersInv_def split: if_splits)
next
  case (ERegister a registered rest)
  with usersInv_register [OF law inv i] u step show ?thesis by simp
next
  case (EUndo e cs)
  then have "distinct (map snd cs)" using usersInv_sound [OF inv i] u by simp
  with EUndo step u show ?thesis
    by (cases cs)
      (auto simp: enablePc_def intro!: usersInv_quiet [OF inv i] usersInv_unregister [OF law inv i])
next
  case (EAdd a)
  have l: "locks (ts ! i)" using u EAdd by (simp add: locks_def collect_locks)
  have "f \<le> a" using usersInv_sound [OF inv i] u EAdd by simp
  with EAdd step u h inv i l show ?thesis
    by (auto simp: enablePc_def usersInv_def list_all_length nth_list_update snapshot_def observed_def
        hr.snap_add hr.obs_add intro!: regInv_change obsInv_same hookInv_add)
next
  case (EObserve a)
  have l: "locks (ts ! i)" using u EObserve by (simp add: locks_def collect_locks)
  have "f \<le> a" using usersInv_sound [OF inv i] u EObserve by simp
  with EObserve step u h inv i l show ?thesis
    by (auto simp: enablePc_def usersInv_def list_all_length nth_list_update snapshot_def observed_def
        hr.snap_set_obs hr.obs_set_obs intro!: regInv_change hookInv_same obsInv_set)
next
  case (ESample a)
  have "f \<le> a" using usersInv_sound [OF inv i] u ESample by simp
  with ESample step u show ?thesis
    by (intro usersInv_quiet [OF inv i]) (auto simp: enablePc_def samplePool_def act_simps)
qed (use step u usersInv_sound [OF inv i] in \<open>auto intro!: usersInv_quiet [OF inv i] simp: enablePc_def\<close>)

lemma usersInv_close:
  assumes law: "lawful_registerer r reged" and S: "\<And>a. MetricsHook a \<in> set S \<Longrightarrow> a < f"
    and inv: "usersInv h reged R S f ts w" and i: "i < length ts"
    and u: "ts ! i = Closing c \<or> (\<exists>a. ts ! i = Enabling (EEnabled a) \<and> c = CRemove a)"
    and step: "closePc h r c w = (c', w')"
  shows "usersInv h reged R S f (ts[i := Closing c']) w'"
proof (cases c)
  case (CRemove a)
  have t: "attached (ts ! i) = Some a" "observing (ts ! i) = Some a" "held (ts ! i) = set (mcCollect a)" "f \<le> a"
    using u CRemove usersInv_sound [OF inv i] by auto
  then have "MetricsHook a \<notin> set S" using S [of a] by auto
  with CRemove step t inv i show ?thesis
    by (auto simp: closePc_def usersInv_def list_all_length nth_list_update snapshot_def observed_def
        hr.snap_remove hr.obs_remove intro!: regInv_change obsInv_same hookInv_remove)
next
  case (CUnobserve a)
  with u have t: "ts ! i = Closing (CUnobserve a)" by auto
  then have l: "locks (ts ! i)" by (simp add: locks_def collect_locks)
  from CUnobserve step t inv i l show ?thesis
    by (auto simp: closePc_def usersInv_def list_all_length nth_list_update snapshot_def observed_def
        hr.snap_set_obs hr.obs_set_obs collect_distinct intro!: regInv_change hookInv_same obsInv_set)
next
  case (CUnregister cs)
  with u have t: "ts ! i = Closing (CUnregister cs)" by auto
  then have "distinct (map snd cs)" using usersInv_sound [OF inv i] by simp
  with CUnregister step t show ?thesis
    by (cases cs)
      (auto simp: closePc_def intro!: usersInv_quiet [OF inv i] usersInv_unregister [OF law inv i])
next
  case CClosed
  with step u show ?thesis by (auto intro!: usersInv_quiet [OF inv i] simp: closePc_def)
qed

lemma usersInv_step:
  assumes "lawful_registerer r reged" "connHooks (dbConn d) = Some h"
    and "\<And>a. MetricsHook a \<in> set S \<Longrightarrow> a < f"
    and "usersInv h reged R S f ts w" "i < length ts" "usageStep d rn r (ts ! i) w = (u', w')"
  shows "usersInv h reged R S f (ts[i := u']) w'"
proof (cases "ts ! i")
  case (Closing c)
  with assms(2,6) obtain c' where "closePc h r c w = (c', w')" "u' = Closing c'"
    by (auto split: prod.splits)
  with usersInv_close [OF assms(1,3,4,5)] Closing show ?thesis by simp
next
  case (Enabling pc)
  show ?thesis
  proof (cases "\<exists>a. pc = EEnabled a")
    case True
    then obtain a where a: "pc = EEnabled a" by blast
    with assms(2,6) Enabling obtain c' where "closePc h r (CRemove a) w = (c', w')" "u' = Closing c'"
      by (auto split: prod.splits)
    with usersInv_close [OF assms(1,3,4,5)] Enabling a show ?thesis by simp
  next
    case False
    with assms(6) Enabling obtain pc' where "enablePc d rn r pc w = (pc', w')" "u' = Enabling pc'"
      by (cases pc) (auto split: prod.splits)
    with usersInv_enable [OF assms(1,2,4,5) Enabling] show ?thesis by simp
  qed
qed

definition finished :: "usage \<Rightarrow> bool" where
  "finished u \<longleftrightarrow> (case u of Enabling (ERefused e) \<Rightarrow> True | Closing CClosed \<Rightarrow> True | _ \<Rightarrow> False)"

lemma finished_held: "finished u \<Longrightarrow> held u = {} \<and> attached u = None \<and> observing u = None"
  by (auto simp: finished_def split: usage.splits enabling.splits closing.splits)

lemma usersInv_start:
  assumes "observed (Some h) w = None"
  shows "usersInv h reged (reged (env w)) (snapshot (Some h) w) (fresh w) (replicate n (Enabling ECheck)) w"
  using assms by (auto simp: usersInv_def regInv_def hookInv_def obsInv_def list_all_length)

lemma usersInv_run:
  assumes "lawful_registerer r reged" and "connHooks (dbConn d) = Some h"
    and "observed (Some h) w = None" and "\<And>a. MetricsHook a \<in> set (snapshot (Some h) w) \<Longrightarrow> a < fresh w"
    and "interleave (usageStep d rn r) sched (replicate n (Enabling ECheck), w) = (ts, w')"
  shows "length ts = n \<and> usersInv h reged (reged (env w)) (snapshot (Some h) w) (fresh w) ts w'"
proof -
  let ?P = "\<lambda>ts1 w1. length ts1 = n
    \<and> usersInv h reged (reged (env w)) (snapshot (Some h) w) (fresh w) ts1 w1"
  show ?thesis
    by (rule interleave_invariant [of ?P, OF _ _ assms(5)])
      (use usersInv_start [OF assms(3)] usersInv_step [OF assms(1,2,4)] in auto)
qed

text \<open>When all have been refused or have closed, nothing is left behind.\<close>

lemma usersInv_finished:
  assumes "usersInv h reged R S f ts w" and "list_all finished ts"
  shows "snapshot (Some h) w = S \<and> observed (Some h) w = None \<and> reged (env w) = R"
proof -
  have none: "held (ts ! i) = {} \<and> attached (ts ! i) = None \<and> observing (ts ! i) = None" if "i < length ts" for i
    using finished_held assms(2) that by (simp add: list_all_length)
  have "regInv reged R ts w" "hookInv h S ts w" "obsInv h ts w" using assms(1) by (auto simp: usersInv_def)
  with none have "c \<in> reged (env w) \<longleftrightarrow> c \<in> R" "snapshot (Some h) w = S" "observed (Some h) w = None" for c
    unfolding regInv_def hookInv_def obsInv_def by (metis empty_iff, simp_all)
  then show ?thesis by blast
qed

text \<open>C21: any number of goroutines may call \<open>EnableMetrics\<close> on one DB with the same registerer, and close
  what they got, at any time and interleaved in any way: at every moment at most one of them has
  a handle; while it has, its collector is the only one added to the hooks, is the observed one
  and is registered; and when all of them have been refused or have closed, hooks,
  observed collector and registerer are as they were.\<close>
theorem concurrent_enable_exclusive:
  assumes "lawful_registerer r reged" and "connHooks (dbConn d) = Some h"
    and "observed (Some h) w = None" and "\<And>a. MetricsHook a \<in> set (snapshot (Some h) w) \<Longrightarrow> a < fresh w"
    and "interleave (usageStep d rn r) sched (replicate n (Enabling ECheck), w) = (ts, w')"
  shows "length ts = n
     \<and> (\<forall>i < n. \<forall>j < n. \<forall>a b. ts ! i = Enabling (EEnabled a) \<and> ts ! j = Enabling (EEnabled b) \<longrightarrow> i = j)
     \<and> (\<forall>i < n. \<forall>a. ts ! i = Enabling (EEnabled a) \<longrightarrow>
          snapshot (Some h) w' = snapshot (Some h) w @ [MetricsHook a] \<and> observed (Some h) w' = Some a
          \<and> set (mcCollect a) \<subseteq> reged (env w'))
     \<and> (list_all finished ts \<longrightarrow>
          snapshot (Some h) w' = snapshot (Some h) w \<and> observed (Some h) w' = None
          \<and> reged (env w') = reged (env w))"
proof -
  from usersInv_run [OF assms]
  have inv: "usersInv h reged (reged (env w)) (snapshot (Some h) w) (fresh w) ts w'" and len: "length ts = n"
    by simp_all
  then have ri: "regInv reged (reged (env w)) ts w'" and hi: "hookInv h (snapshot (Some h) w) ts w'"
    and oi: "obsInv h ts w'"
    by (auto simp: usersInv_def)
  have "i = j" if "i < n" "j < n" "ts ! i = Enabling (EEnabled a)" "ts ! j = Enabling (EEnabled b)" for i j a b
    using one_lock [OF ri] attached_locks that len by (metis attached.simps(3))
  moreover have "snapshot (Some h) w' = snapshot (Some h) w @ [MetricsHook a] \<and> observed (Some h) w' = Some a
      \<and> set (mcCollect a) \<subseteq> reged (env w')" if "i < n" "ts ! i = Enabling (EEnabled a)" for i a
    using hi oi ri that len unfolding hookInv_def obsInv_def regInv_def by fastforce
  ultimately show ?thesis using len usersInv_finished [OF inv] by blast
qed

text \<open>Two goroutines that both pass the check before either registers: the second is refused.\<close>

definition enableTogether :: "nat list" where
  "enableTogether = 0 # 1 # replicate 12 0 @ replicate 12 1"

lemma two_enable:
  "fst (interleave (usageStep listDB 7 listRegisterer) enableTogether
      (replicate 2 (Enabling ECheck), sampleWorld [] []))
   = [Enabling (EEnabled 1),
      Enabling (ERefused (wrapE ''database: registering metrics: '' (Msg ''duplicate'')))]"
  by code_simp

theorem concurrent_enable_exclusive_witness:
  "snapshot (Some 0) (snd (interleave (usageStep listDB 7 listRegisterer) enableTogether
      (replicate 2 (Enabling ECheck), sampleWorld [] []))) = [MetricsHook 1]"
proof -
  have "connHooks (dbConn listDB) = Some 0" by (simp add: idleDB_def)
  moreover have "snapshot (Some 0) (sampleWorld [] ([] :: (nat \<times> string) list)) = []"
    "observed (Some 0) (sampleWorld [] ([] :: (nat \<times> string) list)) = None"
    by (simp_all add: snapshot_def hr_snapshot_def observed_def hr_observed_def sampleWorld_def)
  ultimately show ?thesis
    using concurrent_enable_exclusive [OF listRegisterer_lawful _ _ _
        prod.collapse [symmetric], of listDB 0 "sampleWorld [] []" 7 enableTogether 2]
    by (force simp: two_enable)
qed

section \<open>Different registerers\<close>

text \<open>A registerer per number in one driver state.\<close>

definition taggedRegisterer :: "nat \<Rightarrow> (nat \<times> nat \<times> string) list registerer" where
  "taggedRegisterer k =
     \<lparr>regRegister = (\<lambda>c s. if (k, snd c) \<in> set (map (\<lambda>(k, a, n). (k, n)) (drv s))
                       then (Some (Msg ''duplicate''), s) else (None, s\<lparr>drv := (k, c) # drv s\<rparr>)),
      regUnregister = (\<lambda>c s. ((k, snd c) \<in> set (map (\<lambda>(k, a, n). (k, n)) (drv s)),
                         s\<lparr>drv := filter (\<lambda>(k', a, n). (k', n) \<noteq> (k, snd c)) (drv s)\<rparr>))\<rparr>"

definition racingStep ::
  "'d db \<Rightarrow> (nat \<Rightarrow> 'd registerer) \<Rightarrow> nat \<times> usage \<Rightarrow> 'd world \<Rightarrow> (nat \<times> usage) \<times> 'd world" where
  "racingStep d rs t w = (let (u, w') = usageStep d (fst t) (rs (fst t)) (snd t) w in ((fst t, u), w'))"

text \<open>With a registerer of its own, each of two goroutines that pass the check together gets a handle:
  nothing between the check and the installation of the collector keeps the second one out.\<close>

abbreviation taggedDB :: "(nat \<times> nat \<times> string) list db" where
  "taggedDB \<equiv> idleDB"

lemma enable_race:
  "fst (interleave (racingStep taggedDB taggedRegisterer) enableTogether
      ([(0, Enabling ECheck), (1, Enabling ECheck)], sampleWorld [] []))
   = [(0, Enabling (EEnabled 1)), (1, Enabling (EEnabled 2))]"
  by code_simp

end
