(* ===== verification/Repository.thy ===== *)
theory Repository
  imports Core Go_Regexp "HOL-Library.Char_ord" "HOL-Library.List_Lexorder"
begin

text \<open>
  repository.go and results.go: the mapping of struct fields to columns, the validation of
  identifiers, the SQL builders and the repository operations. What reflection reports about the
  type parameter is a \<open>goType\<close> value and an entity is the list of its field values. The caches of
  reflection results are in theory Reflection_Cache, which proves that they change no result.
\<close>

section \<open>Types and columns\<close>

record structField =
  sfName :: string
  sfExported :: bool
  sfTag :: "string option"

text \<open>The element type of \<open>T\<close> (one pointer level removed): its name, \<open>%T\<close> of a value, whether it is a
  struct, and its fields in order.\<close>

record goType =
  gtName :: string
  gtString :: string
  gtStruct :: bool
  gtFields :: "structField list"

text \<open>A value of type \<open>T\<close>.\<close>

datatype entity = NilPointer | StructOf "gval list" | NotAStruct

record colField =
  colName :: string
  colIndex :: nat

text \<open>\<open>tableOf\<close> of database.go.\<close>

definition tableOf :: "goType \<Rightarrow> string" where
  "tableOf t = gtName t"

text \<open>\<open>snakeCase\<close> on ASCII names; bytes of other letters count as neither upper nor lower case.\<close>

fun snakeFrom :: "char option \<Rightarrow> string \<Rightarrow> string" where
  "snakeFrom prev [] = []"
| "snakeFrom prev (c # s) =
     (if isUpperA c
      then (if (case prev of None \<Rightarrow> False
                 | Some p \<Rightarrow> \<not> isUpperA p \<or> (s \<noteq> [] \<and> isLowerA (hd s)))
            then [CHR ''_'', toLowerA c] else [toLowerA c])
      else [c]) @ snakeFrom (Some c) s"

definition snakeCase :: "string \<Rightarrow> string" where
  "snakeCase s = snakeFrom None s"

definition columnOf :: "nat \<Rightarrow> structField \<Rightarrow> colField list" where
  "columnOf i sf =
     (if \<not> sfExported sf then []
      else let tag = (case sfTag sf of None \<Rightarrow> [] | Some t \<Rightarrow> cutBefore t CHR '','')
           in if sfTag sf \<noteq> None \<and> tag = ''-'' then []
              else [\<lparr>colName = (if tag = [] then snakeCase (sfName sf) else tag), colIndex = i\<rparr>])"

definition fieldsOf :: "goType \<Rightarrow> colField list" where
  "fieldsOf t =
     (if \<not> gtStruct t then []
      else concat (map (\<lambda>(i, sf). columnOf i sf) (enumerate 0 (gtFields t))))"

definition positionalFieldMap :: "colField list \<Rightarrow> string \<Rightarrow> nat option" where
  "positionalFieldMap flds = foldl (\<lambda>m (i, f). m(colName f \<mapsto> i)) Map.empty (enumerate 0 flds)"

definition fieldMapOf :: "goType \<Rightarrow> string \<Rightarrow> nat option" where
  "fieldMapOf t = positionalFieldMap (fieldsOf t)"

definition quotedList :: "string list \<Rightarrow> string" where
  "quotedList names = Join (map Quote names) '', ''"

definition columnsOf :: "goType \<Rightarrow> string" where
  "columnsOf t = Join (map (\<lambda>f. Quote (colName f)) (fieldsOf t)) '', ''"

definition entityValues :: "goType \<Rightarrow> entity \<Rightarrow> gerr + gval list" where
  "entityValues t e =
     (case e of
        NilPointer \<Rightarrow> Inl (Msg (''database: nil entity of type '' @ gtString t))
      | NotAStruct \<Rightarrow> Inl (Msg (''database: type '' @ gtString t @ '' has no db-tagged columns''))
      | StructOf vs \<Rightarrow> Inr (map (\<lambda>f. vs ! colIndex f) (fieldsOf t)))"

section \<open>Validation\<close>

definition identRe :: regex where
  "identRe = Seq Bol (Seq (Cls (\<lambda>c. isAlphaA c \<or> c = CHR ''_'')) (Seq (Star (Cls isWord)) Eol))"

definition orderByRe :: regex where
  "orderByRe = Seq Bol (Seq (Plus (Cls (\<lambda>c. isWord c \<or> c \<in> set ''.,'' \<or> isSpaceRE c))) Eol)"

definition validateIdentifier :: "string \<Rightarrow> gerr option" where
  "validateIdentifier name =
     (if \<not> matchString identRe name then Some (Msg (''database: invalid identifier '' @ Quote name)) else None)"

definition validateOrderBy :: "string \<Rightarrow> gerr option" where
  "validateOrderBy s =
     (if s = [] then None
      else if ContainsAny s '';'' \<or> Contains s ''--'' \<or> Contains s ''/*'' \<or> Contains s ''*/''
        then Some (Msg (''database: invalid ORDER BY clause '' @ Quote s))
      else if \<not> matchString orderByRe s then Some (Msg (''database: invalid ORDER BY clause '' @ Quote s))
      else None)"

fun validateColumns :: "string \<Rightarrow> string list \<Rightarrow> string list \<Rightarrow> gerr option" where
  "validateColumns kind seen [] = None"
| "validateColumns kind seen (c # cs) =
     (case validateIdentifier c of
        Some e \<Rightarrow> Some (Wrapf (''database: invalid '' @ kind @ '' column: '') e [])
      | None \<Rightarrow>
          if c \<in> set seen then Some (Msg (''database: duplicate '' @ kind @ '' column '' @ Quote c))
          else validateColumns kind (c # seen) cs)"

definition validateColumnList :: "string \<Rightarrow> string list \<Rightarrow> gerr option" where
  "validateColumnList kind cols =
     (if cols = [] then Some (Msg (''database: '' @ kind @ '' requires at least one column''))
      else validateColumns kind [] cols)"

text \<open>\<open>fieldNames\<close>: the keys of the mapping, sorted.\<close>

definition fieldNames :: "goType \<Rightarrow> string list" where
  "fieldNames t = sort (remdups (map colName (fieldsOf t)))"

fun resolveAll :: "goType \<Rightarrow> string \<Rightarrow> string list \<Rightarrow> gerr + nat list" where
  "resolveAll t kind [] = Inr []"
| "resolveAll t kind (c # cs) =
     (case fieldMapOf t c of
        None \<Rightarrow> Inl (Msg (''database: '' @ kind @ '' column '' @ Quote c @ '' is not mapped by '' @ gtName t
          @ ''; known columns: ['' @ Join (map Quote (fieldNames t)) '' '' @ '']''))
      | Some idx \<Rightarrow>
          (case resolveAll t kind cs of Inl e \<Rightarrow> Inl e | Inr idxs \<Rightarrow> Inr (idx # idxs)))"

definition resolveColumns :: "goType \<Rightarrow> string \<Rightarrow> string list \<Rightarrow> gerr + nat list" where
  "resolveColumns t kind cols =
     (case validateColumnList kind cols of Some e \<Rightarrow> Inl e | None \<Rightarrow> resolveAll t kind cols)"

section \<open>SQL builders\<close>

record spec =
  specSQL :: string
  specArgs :: "gval list"
  OrderBy :: string

definition placeholder :: "nat \<Rightarrow> string" where
  "placeholder n = CHR ''$'' # Itoa (int n)"

definition placeholderRange :: "nat \<Rightarrow> nat \<Rightarrow> string" where
  "placeholderRange from1 count = Join (map (\<lambda>i. placeholder (from1 + i)) [0..<count]) '', ''"

definition selectAllSQL :: "string \<Rightarrow> string \<Rightarrow> bool \<Rightarrow> gerr + string" where
  "selectAllSQL table cols byID =
     (case validateIdentifier table of
        Some e \<Rightarrow> Inl e
      | None \<Rightarrow> Inr (''SELECT '' @ cols @ '' FROM '' @ table @ (if byID then '' WHERE id = $1'' else [])))"

definition countSQL :: "spec \<Rightarrow> string" where
  "countSQL spec = ''SELECT COUNT(*) FROM ('' @ specSQL spec @ '') AS _count''"

definition orderByInSQLRe :: regex where
  "orderByInSQLRe = Seq WordB (Seq (FoldWord ''ORDER'') (Seq Spaces1 (Seq (FoldWord ''BY'') WordB)))"

definition pagingInSQLRe :: regex where
  "pagingInSQLRe =
     Seq WordB (Seq (Alt (FoldWord ''LIMIT'') (Alt (FoldWord ''OFFSET'') (FoldWord ''FETCH''))) WordB)"

definition clauseCollision :: "string \<Rightarrow> regex \<Rightarrow> string" where
  "clauseCollision sql re =
     (case findIndex re sql of Some (i, j) \<Rightarrow> TrimSpace (sub sql i j) | None \<Rightarrow> [])"

definition movePagination :: "string \<Rightarrow> gerr" where
  "movePagination frag =
     Msg (''database: specification SQL already contains '' @ frag
       @ ''; move OrderBy/Pagination into Specification fields'')"

definition pageOffset :: "int \<Rightarrow> int \<Rightarrow> int" where
  "pageOffset page pageSize =
     (let offset = wrap64 (wrap64 (page - 1) * pageSize) in if offset < 0 then 0 else offset)"

definition pageSQL :: "spec \<Rightarrow> int \<Rightarrow> int \<Rightarrow> gerr + string" where
  "pageSQL spec page pageSize =
     (case validateOrderBy (OrderBy spec) of
        Some e \<Rightarrow> Inl e
      | None \<Rightarrow>
          let frag = clauseCollision (specSQL spec) orderByInSQLRe
          in if OrderBy spec \<noteq> [] \<and> frag \<noteq> [] then Inl (movePagination frag)
             else let sql = (if OrderBy spec \<noteq> [] then specSQL spec @ '' ORDER BY '' @ OrderBy spec
                             else specSQL spec);
                      frag2 = clauseCollision sql pagingInSQLRe
                  in if pageSize \<le> 0 then Inr sql
                     else if frag2 \<noteq> [] then Inl (movePagination frag2)
                     else Inr (sql @ '' LIMIT '' @ Itoa pageSize @ '' OFFSET '' @ Itoa (pageOffset page pageSize)))"

definition findOneSQL :: "spec \<Rightarrow> gerr + string" where
  "findOneSQL spec =
     (case validateOrderBy (OrderBy spec) of
        Some e \<Rightarrow> Inl e
      | None \<Rightarrow>
          let frag = clauseCollision (specSQL spec) pagingInSQLRe
          in if frag \<noteq> []
             then Inl (Msg (''database: specification SQL already contains '' @ frag
               @ ''; FindOne adds LIMIT 1 internally''))
             else let frag2 = clauseCollision (specSQL spec) orderByInSQLRe
                  in if OrderBy spec \<noteq> [] \<and> frag2 \<noteq> []
                     then Inl (Msg (''database: specification SQL already contains '' @ frag2
                       @ ''; move OrderBy into Specification fields''))
                     else Inr ((if OrderBy spec \<noteq> [] then specSQL spec @ '' ORDER BY '' @ OrderBy spec
                                else specSQL spec) @ '' LIMIT 1''))"

definition existsSQL :: "spec \<Rightarrow> gerr + string" where
  "existsSQL spec =
     (if OrderBy spec \<noteq> []
      then Inl (Msg (''database: Exists ignores Specification.OrderBy '' @ Quote (OrderBy spec)
        @ ''; drop it or embed ordering in the specification SQL''))
      else let frag = clauseCollision (specSQL spec) pagingInSQLRe
           in if frag \<noteq> []
              then Inl (Msg (''database: specification SQL contains '' @ frag
                @ ''; remove pagination from Exists specifications''))
              else Inr (''SELECT EXISTS(SELECT 1 FROM ('' @ specSQL spec @ '') AS _exists)''))"

text \<open>The assignments \<open>"col" = $k\<close> for the columns at positions \<open>idxs\<close>, numbered from \<open>k\<close>.\<close>

definition setClauses :: "colField list \<Rightarrow> nat list \<Rightarrow> nat \<Rightarrow> string list" where
  "setClauses flds idxs k =
     map (\<lambda>(i, idx). Quote (colName (flds ! idx)) @ '' = '' @ placeholder (k + i)) (enumerate 0 idxs)"

definition upsertStatement ::
  "goType \<Rightarrow> string \<Rightarrow> entity \<Rightarrow> string list \<Rightarrow> string list \<Rightarrow> bool \<Rightarrow> gerr + string \<times> gval list" where
  "upsertStatement t table e conflictCols updateCols doNothing =
     (case validateIdentifier table of Some err \<Rightarrow> Inl err | None \<Rightarrow>
      (let flds = fieldsOf t
       in if flds = []
          then Inl (Msg (''database: type '' @ gtName t @ '' has no db-tagged columns to insert''))
          else case resolveColumns t ''conflict'' conflictCols of Inl err \<Rightarrow> Inl err | Inr conflictIdx \<Rightarrow>
          (case entityValues t e of Inl err \<Rightarrow> Inl err | Inr vals \<Rightarrow>
           (let sql = ''INSERT INTO '' @ table @ '' ('' @ quotedList (map colName flds) @ '') VALUES (''
                  @ placeholderRange 1 (length vals) @ '')'';
                target = '' ON CONFLICT ('' @ quotedList (map (\<lambda>i. colName (flds ! i)) conflictIdx)
            in if doNothing then Inr (sql @ target @ '') DO NOTHING'', vals)
               else case resolveColumns t ''update'' updateCols of Inl err \<Rightarrow> Inl err | Inr updateIdx \<Rightarrow>
                 Inr (sql @ target @ '') DO UPDATE SET ''
                        @ Join (setClauses flds updateIdx (length vals + 1)) '', '',
                      vals @ map (\<lambda>i. vals ! i) updateIdx)))))"

definition updateStatement ::
  "goType \<Rightarrow> string \<Rightarrow> entity \<Rightarrow> string list \<Rightarrow> spec \<Rightarrow> gerr + string \<times> gval list" where
  "updateStatement t table e setCols whereSpec =
     (case validateIdentifier table of Some err \<Rightarrow> Inl err | None \<Rightarrow>
      (if OrderBy whereSpec \<noteq> []
       then Inl (Msg ''database: Update does not support ORDER BY in the where specification'')
       else let frag = clauseCollision (specSQL whereSpec) pagingInSQLRe
            in if frag \<noteq> []
               then Inl (Msg (''database: where specification SQL contains '' @ frag
                 @ ''; remove pagination from Update conditions''))
               else case resolveColumns t ''set'' setCols of Inl err \<Rightarrow> Inl err | Inr setIdx \<Rightarrow>
               (case entityValues t e of Inl err \<Rightarrow> Inl err | Inr vals \<Rightarrow>
                  Inr (''UPDATE '' @ table @ '' SET ''
                         @ Join (setClauses (fieldsOf t) setIdx (length (specArgs whereSpec) + 1)) '', ''
                         @ '' WHERE ('' @ specSQL whereSpec @ '')'',
                       specArgs whereSpec @ map (\<lambda>i. vals ! i) setIdx))))"

section \<open>Results\<close>

record 't pageResult =
  Items :: "'t list"
  TotalCount :: int
  Page :: int
  PageSize :: int

definition HasNextPage :: "'t pageResult \<Rightarrow> bool" where
  "HasNextPage p \<longleftrightarrow> wrap64 (Page p * PageSize p) < TotalCount p"

record 't result =
  resData :: 't
  resErr :: "gerr option"
  resDuration :: int

definition IsSuccess :: "'t result \<Rightarrow> bool" where
  "IsSuccess r \<longleftrightarrow> resErr r = None"

definition Success :: "'t \<Rightarrow> int \<Rightarrow> 't result" where
  "Success x d = \<lparr>resData = x, resErr = None, resDuration = d\<rparr>"

definition Failure :: "'t \<Rightarrow> gerr option \<Rightarrow> int \<Rightarrow> 't result" where
  "Failure zero err d = \<lparr>resData = zero, resErr = err, resDuration = d\<rparr>"

section \<open>Repository operations\<close>

record 'd repository =
  repoTable :: string
  repoDB :: "'d db"

definition NewRepository :: "goType \<Rightarrow> 'd db \<Rightarrow> 'd repository" where
  "NewRepository t d = \<lparr>repoTable = tableOf t, repoDB = d\<rparr>"

definition NewRepositoryForTable :: "'d db \<Rightarrow> string \<Rightarrow> 'd repository" where
  "NewRepositoryForTable d table = \<lparr>repoTable = table, repoDB = d\<rparr>"

definition Table :: "'d repository \<Rightarrow> string" where
  "Table r = repoTable r"

definition GetByID ::
  "goType \<Rightarrow> ('d, 't) mapper \<Rightarrow> 'd repository \<Rightarrow> gval \<Rightarrow> ('d world, ('t \<times> bool) \<times> gerr option) act" where
  "GetByID t m r i =
     (case selectAllSQL (repoTable r) (columnsOf t) True of
        Inl e \<Rightarrow> ret ((zeroT m, False), Some e)
      | Inr sql \<Rightarrow> dbQueryRow m (repoDB r) sql [i])"

definition GetAll ::
  "goType \<Rightarrow> ('d, 't) mapper \<Rightarrow> 'd repository \<Rightarrow> ('d world, 't list \<times> gerr option) act" where
  "GetAll t m r =
     (case selectAllSQL (repoTable r) (columnsOf t) False of
        Inl e \<Rightarrow> ret ([], Some e)
      | Inr sql \<Rightarrow> dbQuery m (repoDB r) sql [])"

definition Find ::
  "('d, 't) mapper \<Rightarrow> 'd repository \<Rightarrow> spec \<Rightarrow> ('d world, 't list \<times> gerr option) act" where
  "Find m r sp =
     (case pageSQL sp 1 0 of
        Inl e \<Rightarrow> ret ([], Some e)
      | Inr sql \<Rightarrow> dbQuery m (repoDB r) sql (specArgs sp))"

definition emptyPage :: "'t pageResult" where
  "emptyPage = \<lparr>Items = [], TotalCount = 0, Page = 0, PageSize = 0\<rparr>"

definition Paginate ::
  "('d, int) mapper \<Rightarrow> ('d, 't) mapper \<Rightarrow> 'd repository \<Rightarrow> spec \<Rightarrow> int \<Rightarrow> int
     \<Rightarrow> ('d world, 't pageResult \<times> gerr option) act" where
  "Paginate mi m r sp page pageSize =
     andThen (dbScalar mi (repoDB r) (countSQL sp) (specArgs sp)) (\<lambda>(total, err).
     case err of
       Some e \<Rightarrow> ret (emptyPage, Some e)
     | None \<Rightarrow>
         (case pageSQL sp page pageSize of
            Inl e \<Rightarrow> ret (emptyPage, Some e)
          | Inr sql \<Rightarrow>
              andThen (dbQuery m (repoDB r) sql (specArgs sp)) (\<lambda>(items, err).
              case err of
                Some e \<Rightarrow> ret (emptyPage, Some e)
              | None \<Rightarrow>
                  ret (\<lparr>Items = items, TotalCount = total, Page = page, PageSize = pageSize\<rparr>, None))))"

definition Count :: "('d, int) mapper \<Rightarrow> 'd repository \<Rightarrow> spec \<Rightarrow> ('d world, int \<times> gerr option) act" where
  "Count mi r sp = dbScalar mi (repoDB r) (countSQL sp) (specArgs sp)"

definition FindOne ::
  "('d, 't) mapper \<Rightarrow> 'd repository \<Rightarrow> spec \<Rightarrow> ('d world, ('t \<times> bool) \<times> gerr option) act" where
  "FindOne m r sp =
     (case findOneSQL sp of
        Inl e \<Rightarrow> ret ((zeroT m, False), Some e)
      | Inr sql \<Rightarrow> dbQueryRow m (repoDB r) sql (specArgs sp))"

definition Exists :: "('d, bool) mapper \<Rightarrow> 'd repository \<Rightarrow> spec \<Rightarrow> ('d world, bool \<times> gerr option) act" where
  "Exists mb r sp =
     (case existsSQL sp of
        Inl e \<Rightarrow> ret (False, Some e)
      | Inr sql \<Rightarrow> dbScalar mb (repoDB r) sql (specArgs sp))"

definition Upsert ::
  "goType \<Rightarrow> 'd repository \<Rightarrow> entity \<Rightarrow> string list \<Rightarrow> string list \<Rightarrow> ('d world, int \<times> gerr option) act" where
  "Upsert t r e conflictCols updateCols =
     (case upsertStatement t (repoTable r) e conflictCols updateCols False of
        Inl err \<Rightarrow> ret (0, Some err)
      | Inr (sql, args) \<Rightarrow> dbExecute (repoDB r) sql args)"

definition UpsertDoNothing ::
  "goType \<Rightarrow> 'd repository \<Rightarrow> entity \<Rightarrow> string list \<Rightarrow> ('d world, int \<times> gerr option) act" where
  "UpsertDoNothing t r e conflictCols =
     (case upsertStatement t (repoTable r) e conflictCols [] True of
        Inl err \<Rightarrow> ret (0, Some err)
      | Inr (sql, args) \<Rightarrow> dbExecute (repoDB r) sql args)"

definition Update ::
  "goType \<Rightarrow> 'd repository \<Rightarrow> entity \<Rightarrow> string list \<Rightarrow> spec \<Rightarrow> ('d world, int \<times> gerr option) act" where
  "Update t r e setCols whereSpec =
     (case updateStatement t (repoTable r) e setCols whereSpec of
        Inl err \<Rightarrow> ret (0, Some err)
      | Inr (sql, args) \<Rightarrow> dbExecute (repoDB r) sql args)"

definition EnsureTable :: "'d db option \<Rightarrow> string \<Rightarrow> string \<Rightarrow> ('d world, gerr option) act" where
  "EnsureTable d name ddl =
     (case d of
        None \<Rightarrow> ret (Some (Msg ''database: EnsureTable requires a non-nil DB''))
      | Some d' \<Rightarrow>
          (case validateIdentifier name of
             Some e \<Rightarrow> ret (Some e)
           | None \<Rightarrow>
               let trimmed = TrimSpace ddl; upper = ToUpper trimmed
               in if \<not> HasPrefix upper ''CREATE TABLE''
                  then ret (Some (Msg (''database: EnsureTable ddl must start with CREATE TABLE (got ''
                    @ Quote trimmed @ '')'')))
                  else if \<not> Contains upper ''IF NOT EXISTS''
                  then ret (Some (Msg (''database: EnsureTable ddl must contain IF NOT EXISTS to stay idempotent (got ''
                    @ Quote trimmed @ '')'')))
                  else andThen (dbExecute d' trimmed []) (\<lambda>(n, err). ret err)))"

end
