(* ===== verification/Repository_Properties.thy ===== *)
theory Repository_Properties
  imports Repository Fixtures
begin

text \<open>
  Properties of the repository layer: what the validators admit, that placeholders and arguments of
  the generated statements line up, that paging neither skips nor repeats rows, and that no paging
  clause is doubled.
\<close>

section \<open>Validators\<close>

lemma identRe_iff:
  "matchString identRe s \<longleftrightarrow> s \<noteq> [] \<and> (isAlphaA (hd s) \<or> hd s = CHR ''_'') \<and> list_all isWord (tl s)"
  unfolding identRe_def by (rule match_anchored_head)

lemma orderByRe_iff:
  "matchString orderByRe s \<longleftrightarrow> s \<noteq> [] \<and> list_all (\<lambda>c. isWord c \<or> c \<in> set ''.,'' \<or> isSpaceRE c) s"
  unfolding orderByRe_def by (rule match_anchored_class)

text \<open>
  The interface between the validators and the builders that splice a validated text into SQL: what
  is admitted consists of allowed characters, so it cannot bring in a delimiter that the builder did
  not write itself.
\<close>

locale text_guard =
  fixes guard :: "string \<Rightarrow> gerr option" and allowed :: "char \<Rightarrow> bool"
  assumes admitted: "guard s = None \<Longrightarrow> list_all allowed s"
begin

lemma no_new_delimiters:
  assumes "guard s = None" and "\<not> allowed c"
  shows "count_list (pre @ s @ post) c = count_list (pre @ post) c"
proof -
  have "c \<notin> set s" using admitted [OF assms(1)] assms(2) by (auto simp: list_all_iff)
  then show ?thesis by (simp add: count_notin)
qed

end

interpretation ident: text_guard validateIdentifier isWord
proof
  fix s assume "validateIdentifier s = None"
  then have "matchString identRe s" by (simp add: validateIdentifier_def split: if_splits)
  then show "list_all isWord s" by (cases s) (auto simp: identRe_iff isWord_def)
qed

interpretation orderBy: text_guard validateOrderBy "\<lambda>c. isWord c \<or> c \<in> set ''.,'' \<or> isSpaceRE c"
proof
  fix s assume "validateOrderBy s = None"
  then show "list_all (\<lambda>c. isWord c \<or> c \<in> set ''.,'' \<or> isSpaceRE c) s"
    by (auto simp: validateOrderBy_def orderByRe_iff split: if_splits)
qed

section \<open>Columns\<close>

lemma positionalFieldMap_snoc:
  "positionalFieldMap (xs @ [f]) = (positionalFieldMap xs)(colName f \<mapsto> length xs)"
  by (simp add: positionalFieldMap_def enumerate_append_eq)

lemma positionalFieldMap_Some:
  "positionalFieldMap xs c = Some i \<Longrightarrow> i < length xs \<and> colName (xs ! i) = c"
proof (induction xs arbitrary: i rule: rev_induct)
  case Nil
  then show ?case by (simp add: positionalFieldMap_def)
next
  case (snoc f xs)
  then show ?case by (fastforce simp: positionalFieldMap_snoc nth_append split: if_splits)
qed

lemma resolveAll_Inr:
  "resolveAll t kind cols = Inr idxs \<Longrightarrow> length idxs = length cols
     \<and> (\<forall>i < length cols. idxs ! i < length (fieldsOf t) \<and> colName (fieldsOf t ! (idxs ! i)) = cols ! i)"
proof (induction cols arbitrary: idxs)
  case (Cons c cs)
  then obtain j js where "fieldMapOf t c = Some j" "resolveAll t kind cs = Inr js" "idxs = j # js"
    by (auto split: option.splits sum.splits)
  with Cons.IH [of js] show ?case
    by (auto simp: fieldMapOf_def nth_Cons less_Suc_eq_0_disj dest: positionalFieldMap_Some)
qed simp

lemma resolveColumns_Inr:
  assumes "resolveColumns t kind cols = Inr idxs"
  shows "length idxs = length cols" and "cols \<noteq> []"
    and "map (\<lambda>i. colName (fieldsOf t ! i)) idxs = cols"
    and "i < length cols \<Longrightarrow> idxs ! i < length (fieldsOf t)"
    and "i < length cols \<Longrightarrow> colName (fieldsOf t ! (idxs ! i)) = cols ! i"
proof -
  have r: "resolveAll t kind cols = Inr idxs" and "cols \<noteq> []"
    using assms by (auto simp: resolveColumns_def validateColumnList_def split: option.splits if_splits)
  note all = resolveAll_Inr [OF r]
  show "length idxs = length cols" and "cols \<noteq> []" using all \<open>cols \<noteq> []\<close> by simp_all
  show "map (\<lambda>i. colName (fieldsOf t ! i)) idxs = cols"
    using all by (intro nth_equalityI) simp_all
  show "i < length cols \<Longrightarrow> idxs ! i < length (fieldsOf t)"
    and "i < length cols \<Longrightarrow> colName (fieldsOf t ! (idxs ! i)) = cols ! i"
    using all by simp_all
qed

lemma entityValues_length: "entityValues t e = Inr vals \<Longrightarrow> length vals = length (fieldsOf t)"
  by (auto simp: entityValues_def split: entity.splits)

lemma setClauses_named:
  assumes "map (\<lambda>i. colName (flds ! i)) idxs = cols"
  shows "setClauses flds idxs k = map (\<lambda>i. Quote (cols ! i) @ '' = '' @ placeholder (k + i)) [0..<length cols]"
proof -
  have l: "length idxs = length cols" using assms by (metis length_map)
  have "colName (flds ! (idxs ! i)) = cols ! i" if "i < length cols" for i
    using assms that l by (metis nth_map)
  then show ?thesis
    using l by (intro nth_equalityI) (simp_all add: setClauses_def nth_enumerate_eq)
qed

section \<open>Statements with arguments\<close>

text \<open>C24: an upsert binds every placeholder to the value of the column it stands for. The columns of
  the type are inserted in order from \<open>$1\<close> on, the conflict target is the list of columns asked for,
  and the \<open>i\<close>-th column to update is set to the placeholder whose argument is the entity's value for
  the field mapped to that very column; there are no arguments left over.\<close>
theorem upsert_aligned:
  assumes "upsertStatement t table e conflictCols updateCols False = Inr (sql, args)"
  shows "\<exists>vals. entityValues t e = Inr vals \<and> length vals = length (fieldsOf t)
     \<and> sql = ''INSERT INTO '' @ table @ '' ('' @ quotedList (map colName (fieldsOf t)) @ '') VALUES (''
         @ placeholderRange 1 (length vals) @ '') ON CONFLICT ('' @ quotedList conflictCols
         @ '') DO UPDATE SET ''
         @ Join (map (\<lambda>i. Quote (updateCols ! i) @ '' = '' @ placeholder (length vals + 1 + i))
             [0..<length updateCols]) '', ''
     \<and> length args = length vals + length updateCols \<and> take (length vals) args = vals
     \<and> (\<forall>i < length updateCols. \<exists>j < length vals.
          colName (fieldsOf t ! j) = updateCols ! i \<and> args ! (length vals + 1 + i - 1) = vals ! j)"
proof -
  obtain cidx vals uidx where c: "resolveColumns t ''conflict'' conflictCols = Inr cidx"
    and v: "entityValues t e = Inr vals" and u: "resolveColumns t ''update'' updateCols = Inr uidx"
    and sql: "sql = ''INSERT INTO '' @ table @ '' ('' @ quotedList (map colName (fieldsOf t)) @ '') VALUES (''
         @ placeholderRange 1 (length vals) @ '')''
         @ '' ON CONFLICT ('' @ quotedList (map (\<lambda>i. colName (fieldsOf t ! i)) cidx)
         @ '') DO UPDATE SET '' @ Join (setClauses (fieldsOf t) uidx (length vals + 1)) '', ''"
    and args: "args = vals @ map (\<lambda>i. vals ! i) uidx"
    using assms by (auto simp: upsertStatement_def Let_def split: option.splits sum.splits if_splits)
  have l: "length vals = length (fieldsOf t)" by (rule entityValues_length [OF v])
  have "\<exists>j < length vals. colName (fieldsOf t ! j) = updateCols ! i \<and> args ! (length vals + 1 + i - 1) = vals ! j"
    if "i < length updateCols" for i
    using that resolveColumns_Inr(1,4,5) [OF u] l args
    by (intro exI [of _ "uidx ! i"]) (simp add: nth_append)
  then show ?thesis
    using v l sql args resolveColumns_Inr(1) [OF u] resolveColumns_Inr(3) [OF c]
      setClauses_named [OF resolveColumns_Inr(3) [OF u]]
    by simp
qed

definition orderType :: goType where
  "orderType = \<lparr>gtName = ''Order'', gtString = ''app.Order'', gtStruct = True,
     gtFields = [\<lparr>sfName = ''ID'', sfExported = True, sfTag = Some ''id''\<rparr>,
       \<lparr>sfName = ''note'', sfExported = False, sfTag = None\<rparr>,
       \<lparr>sfName = ''Total'', sfExported = True, sfTag = Some ''total,omitempty''\<rparr>]\<rparr>"

lemma orderType_fields: "fieldsOf orderType = [\<lparr>colName = ''id'', colIndex = 0\<rparr>, \<lparr>colName = ''total'', colIndex = 2\<rparr>]"
  by (simp add: orderType_def fieldsOf_def columnOf_def cutBefore_def)

lemma orderType_resolves:
  "resolveColumns orderType kind [''id''] = Inr [0]" "resolveColumns orderType kind [''total''] = Inr [1]"
  "validateIdentifier ''orders'' = None"
  by (simp_all add: resolveColumns_def validateColumnList_def validateIdentifier_def identRe_iff isWord_def
      isAlphaA_def isUpperA_def isLowerA_def isDigit_def fieldMapOf_def orderType_fields positionalFieldMap_def)

theorem upsert_aligned_witness:
  "\<exists>sql args. upsertStatement orderType ''orders'' (StructOf [GInt 1, GNil, GInt 7]) [''id''] [''total''] False = Inr (sql, args)
     \<and> args = [GInt 1, GInt 7, GInt 7]"
proof -
  have v: "entityValues orderType (StructOf [GInt 1, GNil, GInt 7]) = Inr [GInt 1, GInt 7]"
    by (simp add: entityValues_def orderType_fields)
  obtain sql where s: "upsertStatement orderType ''orders'' (StructOf [GInt 1, GNil, GInt 7]) [''id''] [''total''] False
      = Inr (sql, [GInt 1, GInt 7, GInt 7])"
    by (simp add: upsertStatement_def orderType_resolves v orderType_fields Let_def)
  from upsert_aligned [OF this] s show ?thesis by blast
qed

text \<open>C25: an update keeps the caller's placeholders. The arguments of the where specification stay at
  \<open>$1\<close> to \<open>$n\<close>, the assignments continue at \<open>$n+1\<close>, and the \<open>i\<close>-th assigned column gets the entity's value
  for the field mapped to that column.\<close>
theorem update_aligned:
  assumes "updateStatement t table e setCols wh = Inr (sql, args)"
  shows "\<exists>vals. entityValues t e = Inr vals
     \<and> sql = ''UPDATE '' @ table @ '' SET ''
         @ Join (map (\<lambda>i. Quote (setCols ! i) @ '' = '' @ placeholder (length (specArgs wh) + 1 + i))
             [0..<length setCols]) '', '' @ '' WHERE ('' @ specSQL wh @ '')''
     \<and> length args = length (specArgs wh) + length setCols \<and> take (length (specArgs wh)) args = specArgs wh
     \<and> (\<forall>i < length setCols. \<exists>j < length vals.
          colName (fieldsOf t ! j) = setCols ! i \<and> args ! (length (specArgs wh) + 1 + i - 1) = vals ! j)"
proof -
  obtain sidx vals where s: "resolveColumns t ''set'' setCols = Inr sidx" and v: "entityValues t e = Inr vals"
    and sql: "sql = ''UPDATE '' @ table @ '' SET ''
         @ Join (setClauses (fieldsOf t) sidx (length (specArgs wh) + 1)) '', '' @ '' WHERE ('' @ specSQL wh @ '')''"
    and args: "args = specArgs wh @ map (\<lambda>i. vals ! i) sidx"
    using assms by (auto simp: updateStatement_def Let_def split: option.splits sum.splits if_splits)
  have l: "length vals = length (fieldsOf t)" by (rule entityValues_length [OF v])
  have "\<exists>j < length vals. colName (fieldsOf t ! j) = setCols ! i
      \<and> args ! (length (specArgs wh) + 1 + i - 1) = vals ! j" if "i < length setCols" for i
    using that resolveColumns_Inr(1,4,5) [OF s] l args
    by (intro exI [of _ "sidx ! i"]) (simp add: nth_append)
  then show ?thesis
    using v l sql args resolveColumns_Inr(1) [OF s] setClauses_named [OF resolveColumns_Inr(3) [OF s]]
    by simp
qed

theorem update_aligned_witness:
  "\<exists>sql args. updateStatement orderType ''orders'' (StructOf [GInt 1, GNil, GInt 7]) [''total'']
       \<lparr>specSQL = ''id = $1'', specArgs = [GInt 1], OrderBy = []\<rparr> = Inr (sql, args) \<and> args = [GInt 1, GInt 7]"
proof -
  have v: "entityValues orderType (StructOf [GInt 1, GNil, GInt 7]) = Inr [GInt 1, GInt 7]"
    by (simp add: entityValues_def orderType_fields)
  have c: "clauseCollision ''id = $1'' pagingInSQLRe = []" by code_simp
  obtain sql where s: "updateStatement orderType ''orders'' (StructOf [GInt 1, GNil, GInt 7]) [''total'']
       \<lparr>specSQL = ''id = $1'', specArgs = [GInt 1], OrderBy = []\<rparr> = Inr (sql, [GInt 1, GInt 7])"
    by (simp add: updateStatement_def orderType_resolves v c Let_def)
  from update_aligned [OF this] s show ?thesis by blast
qed

section \<open>Spliced names\<close>

lemma natDigits_count: "\<not> isDigit c \<Longrightarrow> count_list (natDigits n) c = 0"
  using natDigits_isDigit [of n] by (auto simp: list_all_iff intro: count_notin)

lemma isDigit_isWord: "isDigit c \<Longrightarrow> isWord c"
  by (simp add: isWord_def)

lemma pageSQL_shape:
  assumes "pageSQL sp page size1 = Inr sql"
  shows "validateOrderBy (OrderBy sp) = None"
    and "sql = specSQL sp @ (if OrderBy sp \<noteq> [] then '' ORDER BY '' @ OrderBy sp else [])
       @ (if 0 < size1 then '' LIMIT '' @ Itoa size1 @ '' OFFSET '' @ Itoa (pageOffset page size1) else [])"
    and "OrderBy sp \<noteq> [] \<Longrightarrow> clauseCollision (specSQL sp) orderByInSQLRe = []"
    and "0 < size1 \<Longrightarrow>
       clauseCollision (specSQL sp @ (if OrderBy sp \<noteq> [] then '' ORDER BY '' @ OrderBy sp else [])) pagingInSQLRe = []"
  using assms by (auto simp: pageSQL_def Let_def split: option.splits if_splits)

text \<open>C26: names and orderings cannot bring delimiters into a statement. In the statements that select
  by table, every character other than letters, digits and underscore occurs as often as in the
  text the builder writes itself; in a paged statement, quotes, semicolons, parentheses and the
  characters of comments occur as often as in the caller's SQL.\<close>
theorem spliced_names_harmless:
  "(\<forall>c. selectAllSQL table cols byID = Inr sql \<and> \<not> isWord c \<longrightarrow>
      count_list sql c = count_list (''SELECT '' @ cols @ '' FROM '' @ (if byID then '' WHERE id = $1'' else [])) c)
   \<and> (\<forall>c \<in> set (''();-*/'' @ [CHR 0x22, CHR 0x27]). pageSQL sp page size1 = Inr sql \<longrightarrow>
        count_list sql c = count_list (specSQL sp) c)"
proof (intro conjI allI ballI impI)
  fix c assume s: "selectAllSQL table cols byID = Inr sql \<and> \<not> isWord c"
  then have "validateIdentifier table = None" and sql: "sql = (''SELECT '' @ cols @ '' FROM '') @ table @ (if byID then '' WHERE id = $1'' else [])"
    by (auto simp: selectAllSQL_def split: option.splits)
  from ident.no_new_delimiters [OF this(1)] s show "count_list sql c
      = count_list (''SELECT '' @ cols @ '' FROM '' @ (if byID then '' WHERE id = $1'' else [])) c"
    unfolding sql by simp
next
  fix c assume c: "c \<in> set (''();-*/'' @ [CHR 0x22, CHR 0x27])" and p: "pageSQL sp page size1 = Inr sql"
  have w: "\<not> isWord c" "\<not> isDigit c" "\<not> (isWord c \<or> c \<in> set ''.,'' \<or> isSpaceRE c)"
    using c by (auto simp: isWord_def isAlphaA_def isUpperA_def isLowerA_def isDigit_def isSpaceRE_def)
  have "count_list (OrderBy sp) c = 0"
    using orderBy.no_new_delimiters [OF pageSQL_shape(1) [OF p] w(3), of "[]" "[]"] by simp
  moreover have "count_list (Itoa size1) c = 0" if "0 < size1"
    using that natDigits_count [OF w(2)] by (simp add: Itoa_def)
  moreover have "count_list (Itoa (pageOffset page size1)) c = 0"
    using natDigits_count [OF w(2)] by (simp add: Itoa_def pageOffset_def Let_def)
  moreover have "count_list '' ORDER BY '' c = 0" "count_list '' LIMIT '' c = 0" "count_list '' OFFSET '' c = 0"
    using c by auto
  ultimately show "count_list sql c = count_list (specSQL sp) c"
    unfolding pageSQL_shape(2) [OF p] by (simp only: count_list_append split: if_split) simp
qed

theorem spliced_names_harmless_witness:
  "count_list ''SELECT a FROM orders'' CHR '';'' = 0"
proof -
  have "selectAllSQL ''orders'' ''a'' False = Inr ''SELECT a FROM orders''"
    by (simp add: selectAllSQL_def orderType_resolves)
  moreover have "\<not> isWord CHR '';''"
    by (simp add: isWord_def isAlphaA_def isUpperA_def isLowerA_def isDigit_def)
  ultimately show ?thesis
    using spliced_names_harmless [of "''orders''" "''a''" False "''SELECT a FROM orders''"] by simp
qed

section \<open>Paging\<close>

text \<open>The rows a query delivers under \<open>LIMIT n OFFSET k\<close>.\<close>

definition window :: "'a list \<Rightarrow> int \<Rightarrow> int \<Rightarrow> 'a list" where
  "window rows n k = take (nat n) (drop (nat k) rows)"

lemma pageOffset_exact:
  assumes "1 \<le> page" and "0 < size1" and "page * size1 < 2 ^ 63"
  shows "pageOffset page size1 = (page - 1) * size1"
proof -
  have "0 \<le> (page - 1) * size1" using assms by simp
  moreover have "(page - 1) * size1 < 2 ^ 63" using assms by (simp add: algebra_simps)
  moreover have "wrap64 (page - 1) = page - 1"
  proof -
    have "page \<le> page * size1" using mult_left_mono [of 1 size1 page] assms by simp
    then have "page < 2 ^ 63" using assms(3) by linarith
    then show ?thesis using assms(1) by (intro wrap64_id) (simp add: in64_def)
  qed
  ultimately show ?thesis by (simp add: pageOffset_def in64_def Let_def)
qed

text \<open>Paging neither skips nor repeats a row. The pages \<open>1\<close> to \<open>k\<close> of a result, each cut out by the
  \<open>LIMIT\<close> and \<open>OFFSET\<close> that \<open>pageSQL\<close> appends, are together its first \<open>k * pageSize\<close> rows in order, as
  long as the row numbers fit 63 bits.\<close>
theorem pages_partition:
  assumes "0 < size1" and "int k * size1 < 2 ^ 63"
  shows "concat (map (\<lambda>p. window rows size1 (pageOffset (int p) size1)) [1..<Suc k]) = take (k * nat size1) rows"
  using assms(2)
proof (induction k)
  case 0
  then show ?case by simp
next
  case (Suc k)
  have "int k * size1 < 2 ^ 63" using Suc.prems assms(1) by (simp add: algebra_simps)
  moreover have "pageOffset (int (Suc k)) size1 = int k * size1"
    using pageOffset_exact [of "int (Suc k)" size1] Suc.prems assms(1) by simp
  moreover have "nat (int k * size1) = k * nat size1" using assms(1) by (simp add: nat_mult_distrib)
  ultimately show ?case
    using Suc.IH by (simp add: window_def take_add [symmetric] add.commute)
qed

theorem pages_partition_witness:
  "concat (map (\<lambda>p. window [1, 2, 3, 4, 5 :: nat] 2 (pageOffset (int p) 2)) [1..<Suc 2]) = take (2 * nat 2) [1, 2, 3, 4, 5]"
  by (rule pages_partition) simp_all

text \<open>\<open>HasNextPage\<close> tells whether the next page would have rows: for a page of positive number and
  size whose successor ends within 63 bits it holds exactly when the window of the next page is not
  empty.\<close>
theorem has_next_page_exact:
  assumes "1 \<le> Page p" and "0 < PageSize p" and "(Page p + 1) * PageSize p < 2 ^ 63"
    and "TotalCount p = int (length rows)"
  shows "HasNextPage p \<longleftrightarrow> window rows (PageSize p) (pageOffset (Page p + 1) (PageSize p)) \<noteq> []"
proof -
  have o1: "pageOffset (Page p + 1) (PageSize p) = Page p * PageSize p"
    using pageOffset_exact [of "Page p + 1" "PageSize p"] assms by simp
  have "0 \<le> Page p * PageSize p" "Page p * PageSize p < 2 ^ 63"
    using assms by (simp_all add: algebra_simps)
  then have "HasNextPage p \<longleftrightarrow> Page p * PageSize p < int (length rows)"
    using assms(4) by (simp add: HasNextPage_def in64_def)
  also have "\<dots> \<longleftrightarrow> nat (Page p * PageSize p) < length rows"
    using \<open>0 \<le> Page p * PageSize p\<close> by (simp add: nat_less_iff)
  finally show ?thesis using assms(2) by (auto simp: window_def o1)
qed

theorem has_next_page_exact_witness:
  "HasNextPage \<lparr>Items = [1, 2 :: nat], TotalCount = 3, Page = 1, PageSize = 2\<rparr>
     \<longleftrightarrow> window [1, 2, 3 :: nat] 2 (pageOffset (1 + 1) 2) \<noteq> []"
  using has_next_page_exact [of "\<lparr>Items = [1, 2 :: nat], TotalCount = 3, Page = 1, PageSize = 2\<rparr>" "[1, 2, 3 :: nat]"]
  by simp

text \<open>With no page size, which \<open>pageSQL\<close> takes as no limit, \<open>HasNextPage\<close> promises a further page for
  every result that has rows, although all of them were delivered.\<close>
theorem has_next_page_unlimited:
  assumes "pageSQL sp page 0 = Inr sql" and "Page p = page" and "PageSize p = 0" and "0 < TotalCount p"
  shows "HasNextPage p \<and> sql = specSQL sp @ (if OrderBy sp \<noteq> [] then '' ORDER BY '' @ OrderBy sp else [])"
  using assms(2-4) pageSQL_shape(2) [OF assms(1)] by (simp add: HasNextPage_def wrap64_def)

theorem has_next_page_unlimited_witness:
  "HasNextPage \<lparr>Items = [1, 2 :: nat], TotalCount = 2, Page = 1, PageSize = 0\<rparr>"
proof -
  have "pageSQL \<lparr>specSQL = ''SELECT 1'', specArgs = [], OrderBy = []\<rparr> 1 0 = Inr ''SELECT 1''"
    by (simp add: pageSQL_def validateOrderBy_def)
  from has_next_page_unlimited [OF this, of "\<lparr>Items = [1, 2 :: nat], TotalCount = 2, Page = 1, PageSize = 0\<rparr>"]
  show ?thesis by simp
qed

section \<open>No doubled clauses\<close>

lemma stripFront_keeps:
  "c \<in> set s \<Longrightarrow> (\<And>e. e \<in> set encs \<Longrightarrow> c \<notin> set e) \<Longrightarrow> c \<in> set (stripFront encs s)"
proof (induction encs s rule: stripFront.induct)
  case (1 encs s)
  show ?case
  proof (cases "find (\<lambda>e. e \<noteq> [] \<and> HasPrefix s e) encs")
    case None
    then show ?thesis using "1.prems"(1) by (subst stripFront.simps) simp
  next
    case (Some e)
    then have e: "e \<in> set encs" "HasPrefix s e" by (auto simp: find_Some_iff)
    then obtain u where "s = e @ u" by (auto simp: HasPrefix_iff)
    then have "c \<in> set (drop (length e) s)" using "1.prems" e(1) by auto
    from "1.IH" [OF Some this "1.prems"(2)] Some show ?thesis
      by (subst stripFront.simps) simp
  qed
qed

lemma TrimSpace_keeps:
  assumes "c \<in> set s" and "\<And>e. e \<in> set spaceEncodings \<Longrightarrow> c \<notin> set e"
  shows "TrimSpace s \<noteq> []"
proof -
  have "c \<in> set (rev (stripFront spaceEncodings s))" using stripFront_keeps [OF assms] by simp
  then have "c \<in> set (stripFront (map rev spaceEncodings) (rev (stripFront spaceEncodings s)))"
    by (rule stripFront_keeps) (use assms(2) in auto)
  then show ?thesis by (auto simp: TrimSpace_def)
qed

lemma space_not_alpha:
  assumes "isAlphaA c" and "e \<in> set spaceEncodings"
  shows "c \<notin> set e"
proof -
  have "list_all (\<lambda>e. list_all (\<lambda>c. \<not> isAlphaA c) e) spaceEncodings" by code_simp
  then show ?thesis using assms by (auto simp: list_all_iff)
qed

lemma foldLetter_first:
  assumes "j \<in> set (ends (foldLetter a) s i)" and "isAlphaA a" and "toLowerA a \<notin> {CHR ''s'', CHR ''k''}"
  shows "i < length s \<and> isAlphaA (s ! i) \<and> j = Suc i"
proof -
  have m: "i < length s" "toLowerA (s ! i) = toLowerA a" "j = Suc i"
    using assms(1,3) by (auto simp: foldLetter_def Let_def split: if_splits)
  moreover have "isAlphaA (toLowerA a)"
    using assms(2) by (auto simp: toLowerA_def isAlphaA_def isLowerA_def isUpperA_def)
  moreover have "isAlphaA (toLowerA x) \<Longrightarrow> isAlphaA x" for x
    by (auto simp: toLowerA_def isAlphaA_def split: if_splits)
  ultimately show ?thesis by metis
qed

lemma FoldWord_first:
  assumes "j \<in> set (ends (FoldWord (a # w)) s i)" and "isAlphaA a" and "toLowerA a \<notin> {CHR ''s'', CHR ''k''}"
  shows "i < j \<and> j \<le> length s \<and> isAlphaA (s ! i)"
proof -
  from assms(1) obtain k where k: "k \<in> set (ends (foldLetter a) s i)" "j \<in> set (ends (FoldWord w) s k)" by auto
  note f = foldLetter_first [OF k(1) assms(2,3)]
  then have "Suc i \<le> j \<and> j \<le> length s" using ends_bounds [of "Suc i" s j] k(2) by auto
  then show ?thesis using f by simp
qed

lemma word_clause_first:
  assumes "j \<in> set (ends (Seq WordB (Seq r rest)) s i)"
    and "\<And>k. k \<in> set (ends r s i) \<Longrightarrow> i < k \<and> k \<le> length s \<and> isAlphaA (s ! i)"
  shows "i < j \<and> isAlphaA (s ! i)"
proof -
  from assms(1) obtain k where k: "k \<in> set (ends r s i)" "j \<in> set (ends rest s k)" by (auto split: if_splits)
  have "k \<le> j" using ends_bounds [OF _ k(2)] assms(2) [OF k(1)] by simp
  with assms(2) [OF k(1)] show ?thesis by simp
qed

lemma clause_starts_with_letter:
  assumes "j \<in> set (ends re s i)" and "re = orderByInSQLRe \<or> re = pagingInSQLRe"
  shows "i < j \<and> isAlphaA (s ! i)"
proof -
  have l: "isAlphaA a \<and> toLowerA a \<notin> {CHR ''s'', CHR ''k''}" if "a \<in> set ''OLF''" for a
  proof -
    have "list_all (\<lambda>a. isAlphaA a \<and> toLowerA a \<notin> {CHR ''s'', CHR ''k''}) ''OLF''" by code_simp
    then show ?thesis using that unfolding list_all_iff by blast
  qed
  have w: "i < k \<and> k \<le> length s \<and> isAlphaA (s ! i)" if "k \<in> set (ends (FoldWord (a # w)) s i)" "a \<in> set ''OLF''" for a w k
    using FoldWord_first [OF that(1)] l [OF that(2)] by blast
  show ?thesis
  proof (cases "re = orderByInSQLRe")
    case True
    show ?thesis
      by (rule word_clause_first [OF assms(1) [unfolded True orderByInSQLRe_def]]) (rule w, assumption, simp)
  next
    case False
    with assms(2) have re: "re = pagingInSQLRe" by simp
    show ?thesis
      by (rule word_clause_first [OF assms(1) [unfolded re pagingInSQLRe_def]])
        (auto simp del: FoldWord.simps dest: w [of _ "CHR ''L''"] w [of _ "CHR ''O''"] w [of _ "CHR ''F''"])
  qed
qed

lemma clauseCollision_complete:
  assumes "re = orderByInSQLRe \<or> re = pagingInSQLRe"
  shows "clauseCollision s re = [] \<longleftrightarrow> \<not> matchString re s"
proof (cases "findIndex re s")
  case None
  then show ?thesis by (simp add: clauseCollision_def matchString_def)
next
  case (Some p)
  obtain i j where p: "p = (i, j)" by fastforce
  have b: "i < j" "isAlphaA (s ! i)" "j \<le> length s"
    using findIndex_bounds [of re s i j] Some p clause_starts_with_letter [OF _ assms] by auto
  have "s ! i \<in> set (sub s i j)"
    using b by (auto simp: sub_def in_set_conv_nth intro!: exI [of _ 0])
  then have "TrimSpace (sub s i j) \<noteq> []"
    by (rule TrimSpace_keeps) (rule space_not_alpha [OF b(2)])
  then show ?thesis using Some p by (simp add: clauseCollision_def matchString_def)
qed

text \<open>C28: a paged statement has one paging clause, the one appended. What stands before it contains no
  \<open>LIMIT\<close>, \<open>OFFSET\<close> or \<open>FETCH\<close> as a word in any letter case, and an ordering is appended only to SQL
  that has no \<open>ORDER BY\<close> of its own.\<close>
theorem single_paging_clause:
  assumes "pageSQL sp page size1 = Inr sql" and "0 < size1"
  shows "\<exists>body. sql = body @ '' LIMIT '' @ Itoa size1 @ '' OFFSET '' @ Itoa (pageOffset page size1)
     \<and> \<not> matchString pagingInSQLRe body
     \<and> body = specSQL sp @ (if OrderBy sp \<noteq> [] then '' ORDER BY '' @ OrderBy sp else [])
     \<and> (OrderBy sp \<noteq> [] \<longrightarrow> \<not> matchString orderByInSQLRe (specSQL sp))"
  using pageSQL_shape [OF assms(1)] assms(2) by (simp add: clauseCollision_complete)

lemma paged_sample:
  "validateOrderBy ''a'' = None" "clauseCollision ''TABLE t'' orderByInSQLRe = []"
  "clauseCollision ''TABLE t ORDER BY a'' pagingInSQLRe = []"
  by code_simp+

theorem single_paging_clause_witness:
  "\<exists>sql body. pageSQL \<lparr>specSQL = ''TABLE t'', specArgs = [], OrderBy = ''a''\<rparr> 2 5 = Inr sql
     \<and> sql = body @ '' LIMIT '' @ Itoa 5 @ '' OFFSET '' @ Itoa (pageOffset 2 5) \<and> \<not> matchString pagingInSQLRe body"
proof -
  let ?sp = "\<lparr>specSQL = ''TABLE t'', specArgs = [], OrderBy = ''a''\<rparr>"
  obtain sql where s: "pageSQL ?sp 2 5 = Inr sql" using paged_sample by (simp add: pageSQL_def Let_def)
  from single_paging_clause [OF s] s show ?thesis by auto
qed

text \<open>The single-row path does not look at the ordering it appends. \<open>FindOne\<close> accepts an ordering
  that carries a paging clause of its own and sends a statement with two, which \<open>pageSQL\<close> refuses
  for the same specification.\<close>
theorem find_one_doubles_limit:
  "findOneSQL \<lparr>specSQL = ''TABLE t'', specArgs = [], OrderBy = ''a LIMIT 5''\<rparr>
     = Inr ''TABLE t ORDER BY a LIMIT 5 LIMIT 1''
   \<and> isl (pageSQL \<lparr>specSQL = ''TABLE t'', specArgs = [], OrderBy = ''a LIMIT 5''\<rparr> 1 1)"
  by code_simp

text \<open>The name given to \<open>EnsureTable\<close> is validated and then not looked at: the DDL may create another
  table.\<close>

lemma EnsureTable_ignores_name:
  assumes "validateIdentifier a = None" and "validateIdentifier b = None"
  shows "EnsureTable d a ddl = EnsureTable d b ddl"
  using assms by (simp add: EnsureTable_def split: option.split)

end
