(* ===== verification/Reflection_Cache.thy ===== *)
theory Reflection_Cache
  imports Repository Interleaving
begin

text \<open>
  The two package-level caches of repository.go, \<open>structFieldsCache\<close> and \<open>structColumnsCache\<close>: a
  \<open>sync.Map\<close> is a partial map whose \<open>Load\<close> and \<open>Store\<close> are single steps, and calls of \<open>fieldsOf\<close> and
  \<open>columnsOf\<close> from any number of goroutines are threads that interleave between those steps. The
  rest of the development calls the uncached \<open>fieldsOf\<close> and \<open>columnsOf\<close> of theory Repository; the theorem
  here is what entitles it to.
\<close>

section \<open>The caches and their clients\<close>

record reflectCaches =
  structFieldsCache :: "goType \<Rightarrow> colField list option"
  structColumnsCache :: "goType \<Rightarrow> string option"

definition noCaches :: reflectCaches where
  "noCaches = \<lparr>structFieldsCache = Map.empty, structColumnsCache = Map.empty\<rparr>"

text \<open>Where a call of \<open>fieldsOf\<close> stands: before its \<open>Load\<close>, before its \<open>Store\<close> of the mapping it has
  computed, or returned.\<close>

datatype fieldsCall = FLoad | FStore "colField list" | FReturned "colField list"

definition fieldsStep :: "goType \<Rightarrow> fieldsCall \<Rightarrow> reflectCaches \<Rightarrow> fieldsCall \<times> reflectCaches" where
  "fieldsStep t f c =
     (case f of
        FLoad \<Rightarrow>
          (case structFieldsCache c t of
             Some cached \<Rightarrow> (FReturned cached, c)
           | None \<Rightarrow>
               if \<not> gtStruct t then (FStore [], c)
               else (FStore (concat (map (\<lambda>(i, sf). columnOf i sf) (enumerate 0 (gtFields t)))), c))
      | FStore flds \<Rightarrow> (FReturned flds, c\<lparr>structFieldsCache := (structFieldsCache c)(t \<mapsto> flds)\<rparr>)
      | FReturned flds \<Rightarrow> (f, c))"

text \<open>A call of \<open>columnsOf\<close> loads, calls \<open>fieldsOf\<close> once for the capacity of the slice and once for the loop,
  and stores the joined list.\<close>

datatype columnsCall =
  CLoad | CCapacity fieldsCall | CRange fieldsCall | CStore string | CReturned string

definition columnsStep :: "goType \<Rightarrow> columnsCall \<Rightarrow> reflectCaches \<Rightarrow> columnsCall \<times> reflectCaches" where
  "columnsStep t k c =
     (case k of
        CLoad \<Rightarrow>
          (case structColumnsCache c t of
             Some cached \<Rightarrow> (CReturned cached, c)
           | None \<Rightarrow> (CCapacity FLoad, c))
      | CCapacity (FReturned flds) \<Rightarrow> (CRange FLoad, c)
      | CCapacity f \<Rightarrow> (let (f', c') = fieldsStep t f c in (CCapacity f', c'))
      | CRange (FReturned flds) \<Rightarrow> (CStore (Join (map (\<lambda>f. Quote (colName f)) flds) '', ''), c)
      | CRange f \<Rightarrow> (let (f', c') = fieldsStep t f c in (CRange f', c'))
      | CStore joined \<Rightarrow> (CReturned joined, c\<lparr>structColumnsCache := (structColumnsCache c)(t \<mapsto> joined)\<rparr>)
      | CReturned joined \<Rightarrow> (k, c))"

text \<open>A goroutine in one of the two calls.\<close>

datatype reflectCall = FieldsCall goType fieldsCall | ColumnsCall goType columnsCall

fun callStep :: "reflectCall \<Rightarrow> reflectCaches \<Rightarrow> reflectCall \<times> reflectCaches" where
  "callStep (FieldsCall t f) c = (let (f', c') = fieldsStep t f c in (FieldsCall t f', c'))"
| "callStep (ColumnsCall t k) c = (let (k', c') = columnsStep t k c in (ColumnsCall t k', c'))"

section \<open>A memo table\<close>

text \<open>What a cache owes its clients: every entry is the value the function has at its key.\<close>

locale memo =
  fixes table :: "'c \<Rightarrow> 'k \<Rightarrow> 'v option"
    and store :: "'k \<Rightarrow> 'v \<Rightarrow> 'c \<Rightarrow> 'c"
    and compute :: "'k \<Rightarrow> 'v"
  assumes load_store: "table (store k v c) = (table c)(k \<mapsto> v)"
begin

definition valid :: "'c \<Rightarrow> bool" where
  "valid c \<longleftrightarrow> (\<forall>k v. table c k = Some v \<longrightarrow> v = compute k)"

lemma valid_empty: "table c = Map.empty \<Longrightarrow> valid c"
  by (simp add: valid_def)

lemma valid_hit: "valid c \<Longrightarrow> table c k = Some v \<Longrightarrow> v = compute k"
  by (simp add: valid_def)

lemma valid_store: "valid c \<Longrightarrow> valid (store k (compute k) c)"
  by (simp add: valid_def load_store)

lemma valid_frame: "table c' = table c \<Longrightarrow> valid c' = valid c"
  by (simp add: valid_def)

end

definition storeFields :: "goType \<Rightarrow> colField list \<Rightarrow> reflectCaches \<Rightarrow> reflectCaches" where
  "storeFields t flds c = c\<lparr>structFieldsCache := (structFieldsCache c)(t \<mapsto> flds)\<rparr>"

definition storeColumns :: "goType \<Rightarrow> string \<Rightarrow> reflectCaches \<Rightarrow> reflectCaches" where
  "storeColumns t joined c = c\<lparr>structColumnsCache := (structColumnsCache c)(t \<mapsto> joined)\<rparr>"

interpretation fmemo: memo structFieldsCache storeFields fieldsOf
  by unfold_locales (simp add: storeFields_def)

interpretation cmemo: memo structColumnsCache storeColumns columnsOf
  by unfold_locales (simp add: storeColumns_def)

section \<open>Every call is right at every moment\<close>

definition cachesValid :: "reflectCaches \<Rightarrow> bool" where
  "cachesValid c \<longleftrightarrow> fmemo.valid c \<and> cmemo.valid c"

definition fieldsRight :: "goType \<Rightarrow> fieldsCall \<Rightarrow> bool" where
  "fieldsRight t f \<longleftrightarrow> (case f of FLoad \<Rightarrow> True | FStore v \<Rightarrow> v = fieldsOf t | FReturned v \<Rightarrow> v = fieldsOf t)"

definition columnsRight :: "goType \<Rightarrow> columnsCall \<Rightarrow> bool" where
  "columnsRight t k \<longleftrightarrow>
     (case k of CLoad \<Rightarrow> True | CCapacity f \<Rightarrow> fieldsRight t f | CRange f \<Rightarrow> fieldsRight t f
      | CStore s \<Rightarrow> s = columnsOf t | CReturned s \<Rightarrow> s = columnsOf t)"

fun callRight :: "reflectCall \<Rightarrow> bool" where
  "callRight (FieldsCall t f) = fieldsRight t f"
| "callRight (ColumnsCall t k) = columnsRight t k"

text \<open>How many steps of its own a call still takes.\<close>

fun fieldsLeft :: "fieldsCall \<Rightarrow> nat" where
  "fieldsLeft FLoad = 2"
| "fieldsLeft (FStore v) = 1"
| "fieldsLeft (FReturned v) = 0"

fun columnsLeft :: "columnsCall \<Rightarrow> nat" where
  "columnsLeft CLoad = 8"
| "columnsLeft (CCapacity f) = fieldsLeft f + 5"
| "columnsLeft (CRange f) = fieldsLeft f + 2"
| "columnsLeft (CStore s) = 1"
| "columnsLeft (CReturned s) = 0"

fun callLeft :: "reflectCall \<Rightarrow> nat" where
  "callLeft (FieldsCall t f) = fieldsLeft f"
| "callLeft (ColumnsCall t k) = columnsLeft k"

fun callOf :: "reflectCall \<Rightarrow> goType \<times> bool" where
  "callOf (FieldsCall t f) = (t, True)"
| "callOf (ColumnsCall t k) = (t, False)"

lemma fieldsStep_right:
  assumes "fieldsStep t f c = (f', c')" "cachesValid c" "fieldsRight t f"
  shows "cachesValid c' \<and> fieldsRight t f' \<and> fieldsLeft f' \<le> fieldsLeft f - 1"
proof (cases f)
  case FLoad
  with assms show ?thesis
    by (auto simp: fieldsStep_def fieldsRight_def fieldsOf_def cachesValid_def
        dest: fmemo.valid_hit split: option.splits if_splits)
next
  case (FStore v)
  with assms have "c' = storeFields t (fieldsOf t) c" and f': "f' = FReturned (fieldsOf t)"
    by (auto simp: fieldsStep_def fieldsRight_def storeFields_def)
  moreover have "cmemo.valid (storeFields t (fieldsOf t) c) = cmemo.valid c"
    by (rule cmemo.valid_frame) (simp add: storeFields_def)
  ultimately show ?thesis
    using assms(2) fmemo.valid_store FStore by (simp add: cachesValid_def fieldsRight_def)
next
  case (FReturned v)
  with assms show ?thesis by (auto simp: fieldsStep_def)
qed

lemma columnsStep_right:
  assumes "columnsStep t k c = (k', c')" "cachesValid c" "columnsRight t k"
  shows "cachesValid c' \<and> columnsRight t k' \<and> columnsLeft k' \<le> columnsLeft k - 1"
proof (cases k)
  case CLoad
  with assms show ?thesis
    by (auto simp: columnsStep_def columnsRight_def cachesValid_def fieldsRight_def
        dest: cmemo.valid_hit split: option.splits)
next
  case (CCapacity f)
  show ?thesis
    using assms CCapacity fieldsStep_right [of t f c]
    by (cases f) (auto simp: columnsStep_def columnsRight_def fieldsRight_def split: prod.splits)
next
  case (CRange f)
  show ?thesis
    using assms CRange fieldsStep_right [of t f c]
    by (cases f)
      (auto simp: columnsStep_def columnsRight_def fieldsRight_def columnsOf_def split: prod.splits)
next
  case (CStore s)
  with assms have "c' = storeColumns t (columnsOf t) c" and k': "k' = CReturned (columnsOf t)"
    by (auto simp: columnsStep_def columnsRight_def storeColumns_def)
  moreover have "fmemo.valid (storeColumns t (columnsOf t) c) = fmemo.valid c"
    by (rule fmemo.valid_frame) (simp add: storeColumns_def)
  ultimately show ?thesis
    using assms(2) cmemo.valid_store CStore by (simp add: cachesValid_def columnsRight_def)
next
  case (CReturned s)
  with assms show ?thesis by (auto simp: columnsStep_def)
qed

lemma callStep_right:
  assumes "callStep r c = (r', c')" "cachesValid c" "callRight r"
  shows "cachesValid c' \<and> callRight r' \<and> callLeft r' \<le> callLeft r - 1 \<and> callOf r' = callOf r"
  using assms fieldsStep_right columnsStep_right by (cases r) (auto split: prod.splits)

interpretation reflect: independent_threads callStep cachesValid callRight callLeft callOf
  by unfold_locales (rule callStep_right)

section \<open>Concurrent use of the caches\<close>

definition started :: "goType \<times> bool \<Rightarrow> reflectCall" where
  "started q = (case q of (t, True) \<Rightarrow> FieldsCall t FLoad | (t, False) \<Rightarrow> ColumnsCall t CLoad)"

definition answered :: "goType \<times> bool \<Rightarrow> reflectCall" where
  "answered q =
     (case q of (t, True) \<Rightarrow> FieldsCall t (FReturned (fieldsOf t))
              | (t, False) \<Rightarrow> ColumnsCall t (CReturned (columnsOf t)))"

lemma started_right [simp]: "callRight (started q) \<and> callLeft (started q) \<le> 8 \<and> callOf (started q) = q"
  by (auto simp: started_def fieldsRight_def columnsRight_def split: prod.splits bool.splits)

lemma done_answered:
  assumes "callRight r" "callLeft r = 0"
  shows "r = answered (callOf r)"
proof (cases r)
  case (FieldsCall t f)
  with assms show ?thesis by (cases f) (auto simp: fieldsRight_def answered_def)
next
  case (ColumnsCall t k)
  with assms show ?thesis by (cases k) (auto simp: columnsRight_def answered_def)
qed

lemma started_list_right: "list_all callRight (map started calls)" "map callOf (map started calls) = calls"
  by (simp_all add: list_all_iff map_idI)

lemma noCaches_valid: "cachesValid noCaches"
  by (simp add: cachesValid_def noCaches_def fmemo.valid_empty cmemo.valid_empty)

text \<open>C29. The reflection caches are transparent: any number of goroutines may call \<open>fieldsOf\<close> and
  \<open>columnsOf\<close> for any types from empty caches, their loads and stores interleaved in any order; a
  goroutine that has been given eight steps has returned, what it returned is what the uncached function
  computes for its own type, and every entry left in the caches is right for its key.\<close>

theorem concurrent_calls_answered:
  assumes "interleave callStep sched (map started calls, noCaches) = (ts, c)"
    and "i < length calls" and "8 \<le> count_list sched i"
  shows "ts ! i = answered (calls ! i)
    \<and> (\<forall>t flds. structFieldsCache c t = Some flds \<longrightarrow> flds = fieldsOf t)
    \<and> (\<forall>t joined. structColumnsCache c t = Some joined \<longrightarrow> joined = columnsOf t)"
proof -
  note run = reflect.threads_in_order [OF assms(1) noCaches_valid started_list_right(1),
      unfolded started_list_right(2)]
  have len: "length ts = length calls" using run by (metis length_map)
  have "callLeft (ts ! i) \<le> callLeft (map started calls ! i) - count_list sched i"
    using reflect.threads_progress [OF assms(1) noCaches_valid started_list_right(1)] assms(2) by simp
  then have "callLeft (ts ! i) = 0"
    using started_right [of "calls ! i"] assms(2,3) by simp
  moreover have "callRight (ts ! i)" "callOf (ts ! i) = calls ! i"
    using run len assms(2) by (auto simp: list_all_length dest: arg_cong [where f = "\<lambda>l. l ! i"])
  ultimately have "ts ! i = answered (calls ! i)" using done_answered by fastforce
  with run show ?thesis by (auto simp: cachesValid_def dest: fmemo.valid_hit cmemo.valid_hit)
qed

text \<open>Two goroutines asking for the columns of the same type, step by step in turn: both miss.\<close>

definition sampleType :: goType where
  "sampleType = \<lparr>gtName = ''Order'', gtString = ''Order'', gtStruct = True,
     gtFields = [\<lparr>sfName = ''UserID'', sfExported = True, sfTag = None\<rparr>]\<rparr>"

lemma sampleType_columns: "columnsOf sampleType = ''\"user_id\"''"
  by code_simp

theorem concurrent_calls_answered_witness:
  "fst (interleave callStep (concat (replicate 8 [0, 1]))
      (map started [(sampleType, False), (sampleType, False)], noCaches)) ! 1
    = ColumnsCall sampleType (CReturned ''\"user_id\"'')"
  using concurrent_calls_answered
    [of "concat (replicate 8 [0, 1])" "[(sampleType, False), (sampleType, False)]" _ _ 1,
     OF prod.collapse [symmetric]]
  by (simp add: numeral_eq_Suc answered_def sampleType_columns)

end
