(* ===== verification/Routing.thy ===== *)
theory Routing
  imports Transaction "HOL-Library.Word"
begin

text \<open>
  replica.go and view.go: handles that route statements to other handles. A \<open>Cluster\<close> holds a primary
  and replicas and a 32-bit counter that is incremented atomically by every read, so reads that
  overlap are reads in some order; a \<open>DBView\<close> runs statements of a \<open>DB\<close> under another timeout.
\<close>

section \<open>Cluster\<close>

record 'd cluster =
  clPrimary :: "'d db"
  clReplicas :: "'d db list"
  clRR :: "32 word"

definition ErrNilPrimary :: gerr where
  "ErrNilPrimary = Sentinel ''database: cluster requires a non-nil primary DB''"

definition firstNil :: "'a option list \<Rightarrow> nat option" where
  "firstNil xs = (case filter (\<lambda>i. xs ! i = None) [0..<length xs] of [] \<Rightarrow> None | i # _ \<Rightarrow> Some i)"

definition NewCluster :: "'d db option \<Rightarrow> 'd db option list \<Rightarrow> gerr + 'd cluster" where
  "NewCluster primary replicas =
     (case primary of
        None \<Rightarrow> Inl ErrNilPrimary
      | Some p \<Rightarrow>
          (case firstNil replicas of
             Some i \<Rightarrow> Inl (Msg (''database: cluster replica at index '' @ Itoa (int i) @ '' is nil''))
           | None \<Rightarrow> Inr \<lparr>clPrimary = p, clReplicas = map the replicas, clRR = 0\<rparr>))"

definition Primary :: "'d cluster \<Rightarrow> 'd db" where
  "Primary cl = clPrimary cl"

text \<open>\<open>Replica\<close>: the counter before the increment picks the replica; on a 64-bit platform the conversion
  to \<open>int\<close> keeps its value.\<close>

definition Replica :: "'d cluster \<Rightarrow> 'd db \<times> 'd cluster" where
  "Replica cl =
     (let n = length (clReplicas cl)
      in if n = 0 then (clPrimary cl, cl)
         else let rr = clRR cl + 1; next1 = unat (rr - 1)
              in (clReplicas cl ! (next1 mod n), cl\<lparr>clRR := rr\<rparr>))"

definition clusterExecute :: "'d cluster \<Rightarrow> string \<Rightarrow> gval list \<Rightarrow> ('d world, int \<times> gerr option) act" where
  "clusterExecute cl sql args = dbExecute (Primary cl) sql args"

definition clusterTransactional ::
  "'d cluster \<Rightarrow> ('d tx \<Rightarrow> ('d world, gerr option) act) \<Rightarrow> ('d world, gerr option) act" where
  "clusterTransactional cl fn = dbTransactional (Primary cl) fn"

definition clusterTransactionalLevel ::
  "'d cluster \<Rightarrow> string \<Rightarrow> ('d tx \<Rightarrow> ('d world, gerr option) act) \<Rightarrow> ('d world, gerr option) act" where
  "clusterTransactionalLevel cl level fn = dbTransactionalLevel (Primary cl) level fn"

text \<open>The reads deliver the cluster with its advanced counter beside their result.\<close>

definition onReplica ::
  "string \<Rightarrow> 'a \<Rightarrow> 'd cluster option \<Rightarrow> ('d db \<Rightarrow> ('d world, 'a \<times> gerr option) act)
     \<Rightarrow> ('d world, ('a \<times> gerr option) \<times> 'd cluster option) act" where
  "onReplica name zero cl fn =
     (case cl of
        None \<Rightarrow> ret ((zero, Some (Msg (''database: '' @ name @ '' requires a non-nil Cluster''))), None)
      | Some c \<Rightarrow>
          (case Replica c of (d, c') \<Rightarrow> andThen (fn d) (\<lambda>r. ret (r, Some c'))))"

definition ClusterQuery ::
  "('d, 't) mapper \<Rightarrow> 'd cluster option \<Rightarrow> string \<Rightarrow> gval list
     \<Rightarrow> ('d world, ('t list \<times> gerr option) \<times> 'd cluster option) act" where
  "ClusterQuery m cl sql args = onReplica ''ClusterQuery'' [] cl (\<lambda>d. dbQuery m d sql args)"

definition ClusterQueryRow ::
  "('d, 't) mapper \<Rightarrow> 'd cluster option \<Rightarrow> string \<Rightarrow> gval list
     \<Rightarrow> ('d world, (('t \<times> bool) \<times> gerr option) \<times> 'd cluster option) act" where
  "ClusterQueryRow m cl sql args =
     onReplica ''ClusterQueryRow'' (zeroT m, False) cl (\<lambda>d. dbQueryRow m d sql args)"

definition ClusterScalar ::
  "('d, 't) mapper \<Rightarrow> 'd cluster option \<Rightarrow> string \<Rightarrow> gval list
     \<Rightarrow> ('d world, ('t \<times> gerr option) \<times> 'd cluster option) act" where
  "ClusterScalar m cl sql args = onReplica ''ClusterScalar'' (zeroT m) cl (\<lambda>d. dbScalar m d sql args)"

section \<open>DBView\<close>

definition minCommandTimeout :: int where
  "minCommandTimeout = 50 * Millisecond"

definition ErrInvalidView :: gerr where
  "ErrInvalidView = Sentinel ''database: DBView not initialized; use DB.WithCommandTimeout''"

record 'd view =
  viewDB :: "'d db option"
  cmdTimeout :: int

definition WithCommandTimeout :: "'d db \<Rightarrow> int \<Rightarrow> ('d world, 'd view) act" where
  "WithCommandTimeout d t =
     (if t < minCommandTimeout
      then andThen (loggerLine (dbConn d) ''database clamping command timeout to minimum'') (\<lambda>_.
           ret \<lparr>viewDB = Some d, cmdTimeout = minCommandTimeout\<rparr>)
      else ret \<lparr>viewDB = Some d, cmdTimeout = t\<rparr>)"

definition viewCommandTimeout :: "'d view option \<Rightarrow> int" where
  "viewCommandTimeout v = (case v of None \<Rightarrow> 0 | Some v' \<Rightarrow> cmdTimeout v')"

text \<open>The connection of a view has no hooks, no telemetry client and a zero \<open>observability\<close>.\<close>

definition viewConn :: "'d view option \<Rightarrow> gerr + 'd db \<times> 'd conn" where
  "viewConn v =
     (case v of
        None \<Rightarrow> Inl ErrInvalidView
      | Some v' \<Rightarrow>
          (case viewDB v' of
             None \<Rightarrow> Inl ErrInvalidView
           | Some d \<Rightarrow>
               Inr (d, \<lparr>connR = connR (dbConn d), connO = (connO (dbConn d))\<lparr>CommandTimeout := cmdTimeout v'\<rparr>,
                        connCtx = connCtx (dbConn d), connHooks = None, connOps = None,
                        connObs = zeroObservability\<rparr>)))"

definition viewRun ::
  "'d view option \<Rightarrow> 'a \<Rightarrow> ('d conn \<Rightarrow> ('d world, 'a \<times> gerr option) act) \<Rightarrow> ('d world, 'a \<times> gerr option) act" where
  "viewRun v zero run =
     (case viewConn v of
        Inl e \<Rightarrow> ret (zero, Some e)
      | Inr (d, c) \<Rightarrow> retried (base (dbConn d)) (dbRetry d) (run c))"

definition viewExecute ::
  "'d view option \<Rightarrow> string \<Rightarrow> gval list \<Rightarrow> ('d world, int \<times> gerr option) act" where
  "viewExecute v sql args = viewRun v 0 (\<lambda>c. connExecute c sql args)"

definition ViewQuery ::
  "('d, 't) mapper \<Rightarrow> 'd view option \<Rightarrow> string \<Rightarrow> gval list \<Rightarrow> ('d world, 't list \<times> gerr option) act" where
  "ViewQuery m v sql args = viewRun v [] (\<lambda>c. runQuery m c sql args)"

definition ViewQueryRow ::
  "('d, 't) mapper \<Rightarrow> 'd view option \<Rightarrow> string \<Rightarrow> gval list \<Rightarrow> ('d world, ('t \<times> bool) \<times> gerr option) act" where
  "ViewQueryRow m v sql args = viewRun v (zeroT m, False) (\<lambda>c. runQueryRow m c sql args)"

definition ViewScalar ::
  "('d, 't) mapper \<Rightarrow> 'd view option \<Rightarrow> string \<Rightarrow> gval list \<Rightarrow> ('d world, 't \<times> gerr option) act" where
  "ViewScalar m v sql args = viewRun v (zeroT m) (\<lambda>c. runScalar m c sql args)"

end
