(* ===== verification/Simulation.thy ===== *)
theory Simulation
  imports Interleaving
begin

text \<open>
  Refinement of abstract specifications: a component that answers calls one after the other against
  a specification that answers them too, and goroutines over shared state against a specification of
  what one step of one of them may do.
\<close>

section \<open>Components that answer calls\<close>

text \<open>The answers of \<open>k\<close> calls, one after the other.\<close>

primrec outputs :: "('s \<Rightarrow> 'o \<times> 's) \<Rightarrow> nat \<Rightarrow> 's \<Rightarrow> 'o list" where
  "outputs step 0 s = []"
| "outputs step (Suc k) s = (case step s of (x, s') \<Rightarrow> x # outputs step k s')"

lemma length_outputs [simp]: "length (outputs step k s) = k"
  by (induction k arbitrary: s) (simp_all split: prod.split)

text \<open>
  \<open>good k s\<close> says that the next \<open>k\<close> calls are within the bounds for which the component is built;
  within them a call is a call of the specification on the abstract state.
\<close>

locale functional_refinement =
  fixes step :: "'s \<Rightarrow> 'o \<times> 's" and spec :: "'a \<Rightarrow> 'o \<times> 'a"
    and abst :: "'s \<Rightarrow> 'a" and good :: "nat \<Rightarrow> 's \<Rightarrow> bool"
  assumes good_step: "good (Suc k) s \<Longrightarrow> good k (snd (step s))"
    and refines: "good (Suc k) s \<Longrightarrow> spec (abst s) = (fst (step s), abst (snd (step s)))"
begin

lemma outputs_refine: "good k s \<Longrightarrow> outputs step k s = outputs spec k (abst s)"
proof (induction k arbitrary: s)
  case (Suc k)
  from Suc.IH [OF good_step [OF Suc.prems]] refines [OF Suc.prems] show ?case
    by (cases "step s") simp
qed simp

end

end
