(* ===== verification/Routing_Properties.thy ===== *)
theory Routing_Properties
  imports Routing Retry_Properties Simulation "HOL-Library.Multiset"
begin

text \<open>
  The properties of the cluster (replica.go) and of the views (view.go): the rotation of reads over
  the replicas on a 32-bit counter, where statements of a cluster go, and what a view does to the
  statements of its \<open>DB\<close>.
\<close>

section \<open>Rotation\<close>

text \<open>The handles that \<open>k\<close> calls of \<open>Replica\<close> deliver, one after the other.\<close>

abbreviation picked :: "nat \<Rightarrow> 'd cluster \<Rightarrow> 'd db list" where
  "picked \<equiv> outputs Replica"

lemma Replica_pick:
  assumes "clReplicas cl \<noteq> []"
  shows "Replica cl = (clReplicas cl ! (unat (clRR cl) mod length (clReplicas cl)), cl\<lparr>clRR := clRR cl + 1\<rparr>)"
  using assms by (simp add: Replica_def Let_def)

lemma picked_map:
  assumes "clReplicas cl \<noteq> []"
  shows "picked k cl =
    map (\<lambda>j. clReplicas cl ! (unat (clRR cl + of_nat j) mod length (clReplicas cl))) [0..<k]"
  using assms
proof (induction k arbitrary: cl)
  case (Suc k)
  have "[0..<Suc k] = 0 # map Suc [0..<k]"
    by (simp add: map_Suc_upt upt_conv_Cons del: upt_Suc)
  then show ?case
    using Suc.IH [of "cl\<lparr>clRR := clRR cl + 1\<rparr>"] Suc.prems
    by (simp add: Replica_pick comp_def ac_simps del: upt_Suc)
qed simp

lemma counter_mod:
  fixes rr :: "32 word"
  assumes "n dvd 2 ^ 32 \<or> unat rr + j < 2 ^ 32"
  shows "unat (rr + of_nat j) mod n = (unat rr + j) mod n"
proof -
  have "unat (rr + of_nat j) = (unat rr + j) mod 2 ^ 32"
    by (simp add: unat_word_ariths unat_of_nat mod_add_right_eq)
  then show ?thesis
    using assms by (auto simp: mod_mod_cancel)
qed

lemma mset_rotate: "mset (rotate k xs) = mset xs"
  by (metis append_take_drop_id mset_append rotate_drop_take union_commute)

lemma round_map:
  assumes "length xs = n" and "0 < n"
  shows "map (\<lambda>j. xs ! ((a + j) mod n)) [0..<n] = rotate a xs"
  using assms by (intro nth_equalityI) (simp_all add: nth_rotate)

lemma rounds_mset:
  assumes "length xs = n" and "0 < n"
  shows "mset (map (\<lambda>j. xs ! ((a + j) mod n)) [0..<m * n]) = repeat_mset m (mset xs)"
proof (induction m)
  case (Suc m)
  have "[0..<Suc m * n] = [0..<m * n] @ map (\<lambda>j. j + m * n) [0..<n]"
    using upt_add_eq_append [of 0 "m * n" n] by (simp only: map_add_upt mult_Suc add_0_left add.commute [of n] zero_le)
  moreover have "map (\<lambda>j. xs ! ((a + (j + m * n)) mod n)) [0..<n] = rotate a xs"
    using round_map [OF assms, of a] by (simp add: add.assoc [symmetric])
  ultimately show ?case
    using Suc.IH by (simp add: comp_def mset_rotate)
qed simp

text \<open>Reads rotate over the replicas. In \<open>m * n\<close> consecutive reads of a cluster with \<open>n\<close>
  replicas every replica serves exactly \<open>m\<close>, wherever the counter stands, provided the 32-bit
  counter does not pass its end on the way or \<open>n\<close> is a power of two it can pass it with.\<close>
theorem replica_rotation_fair:
  assumes "clReplicas cl \<noteq> []" and "n = length (clReplicas cl)"
    and "n dvd 2 ^ 32 \<or> unat (clRR cl) + m * n \<le> 2 ^ 32"
  shows "mset (picked (m * n) cl) = repeat_mset m (mset (clReplicas cl))"
proof -
  have "unat (clRR cl + of_nat j) mod n = (unat (clRR cl) + j) mod n" if "j < m * n" for j
    by (rule counter_mod) (use assms(3) that in linarith)
  then have "picked (m * n) cl = map (\<lambda>j. clReplicas cl ! ((unat (clRR cl) + j) mod n)) [0..<m * n]"
    using assms(1,2) by (simp add: picked_map)
  with rounds_mset [of "clReplicas cl" n "unat (clRR cl)" m] assms(1,2) show ?thesis by simp
qed

definition numberedDB :: "nat \<Rightarrow> gerr option list db" where
  "numberedDB i = sampleDB\<lparr>dbConn := sampleConn\<lparr>connR := scriptRunner i\<rparr>\<rparr>"

definition sampleCluster :: "32 word \<Rightarrow> gerr option list cluster" where
  "sampleCluster rr =
     \<lparr>clPrimary = numberedDB 1, clReplicas = [numberedDB 2, numberedDB 3, numberedDB 4], clRR = rr\<rparr>"

lemma sampleCluster_simps [simp]:
  "clReplicas (sampleCluster rr) = [numberedDB 2, numberedDB 3, numberedDB 4]"
  "clPrimary (sampleCluster rr) = numberedDB 1" "clRR (sampleCluster rr) = rr"
  by (simp_all add: sampleCluster_def)

theorem replica_rotation_fair_witness:
  "mset (picked (2 * 3) (sampleCluster 7))
     = repeat_mset 2 (mset [numberedDB 2, numberedDB 3, numberedDB 4])"
proof -
  have "unat (7 :: 32 word) + 2 * 3 \<le> 2 ^ 32" by simp
  then show ?thesis
    using replica_rotation_fair [of "sampleCluster 7" 3 2]
    unfolding sampleCluster_simps by (metis length_Cons list.distinct(1) list.size(3) numeral_3_eq_3)
qed

text \<open>Where the counter wraps, the rotation stumbles: with three replicas the first one serves twice in
  a row.\<close>

lemma replica_wrap_repeats:
  assumes "clReplicas cl = [a, b, c]" and "clRR cl = - 1"
  shows "picked 2 cl = [a, a]"
proof -
  have "unat (- 1 :: 32 word) mod 3 = 0"
    by (simp add: unsigned_minus_1_eq_mask mask_eq_exp_minus_1)
  with assms show ?thesis by (simp add: numeral_2_eq_2 Replica_pick)
qed

section \<open>Where statements go\<close>

fun callSent :: "event \<Rightarrow> (nat \<times> string \<times> gval list) list" where
  "callSent (Call i meth c sql args) = [(i, sql, args)]"
| "callSent _ = []"

text \<open>The statements of a trace of events in order: the runner each one went to, its text and its
  arguments.\<close>

definition sent :: "event list \<Rightarrow> (nat \<times> string \<times> gval list) list" where
  "sent t = concat (map callSent t)"

lemma sent_append [simp]: "sent (s @ t) = sent s @ sent t"
  by (simp add: sent_def)

lemma sent_visible: "sent (visible t) = sent t"
proof (induction t)
  case (Cons e t)
  then show ?case by (cases e) (simp_all add: sent_def)
qed simp

lemma sent_callHooks [simp]: "sent (callHooks ph info xs) = []"
  by (simp add: sent_def callHooks_def comp_def)

lemma sent_after:
  assumes "visible t' = visible t @ b"
  shows "sent t' = sent t @ sent b"
  using arg_cong [OF assms, of sent] by (simp add: sent_visible)

lemma attemptsTrace_sent:
  assumes "attemptsTrace c parent op1 meth sql args xs errs t"
  shows "sent t = replicate (length errs) (runner_id (connR c), sql, args)"
proof -
  have "sent [Call (runner_id (connR c)) meth cc sql args] = [(runner_id (connR c), sql, args)]" for cc
    by (simp add: sent_def)
  with assms show ?thesis
    by induction (simp_all add: sent_def [of "[]"] flip: append_Cons append.append_Nil)
qed

text \<open>\<open>servedBy d sql args w w'\<close>: between the two worlds the statement \<open>sql\<close> with \<open>args\<close>, and no other, went
  to the runner of \<open>d\<close> and to no other, at least once and at most as often as its retry policy
  allows.\<close>

definition servedBy :: "'d db \<Rightarrow> string \<Rightarrow> gval list \<Rightarrow> 'd world \<Rightarrow> 'd world \<Rightarrow> bool" where
  "servedBy d sql args w w' \<longleftrightarrow> (\<exists>n \<ge> 1. int n \<le> max 0 (rpMaxCount (dbRetry d)) + 1
     \<and> sent (trace w') = sent (trace w) @ replicate n (runner_id (connR (dbConn d)), sql, args))"

context statement_op
begin

lemma retry_sent:
  assumes log: "obsLogger (connObs c)"
  shows "\<exists>n \<ge> 1. int n \<le> max 0 (rpMaxCount p) + 1
    \<and> sent (trace (snd (retryDo b p run w))) = sent (trace w) @ replicate n (runner_id (connR c), sql, args)"
proof (cases "rpEnabled p")
  case True
  from retry_attempts [OF this log] obtain v e w' errs t where
    r: "retryDo b p run w = (Ret (v, e), w')" "visible (trace w') = visible (trace w) @ t"
    "attemptsTrace c parent op1 meth sql args (snapshot (connHooks c) w) errs t"
    and l: "loopEnd p 0 errs e"
    by blast
  from l have "1 \<le> length errs" "int (length errs) \<le> max 0 (rpMaxCount p) + 1"
    by (auto simp: loopEnd_def Suc_le_eq)
  moreover have "sent (trace w') = sent (trace w) @ replicate (length errs) (runner_id (connR c), sql, args)"
    using attemptsTrace_sent [OF r(3)] sent_after [OF r(2)] by simp
  ultimately show ?thesis using r(1) by auto
next
  case False
  obtain v err w' br where r: "run w = (Ret (v, err), w')" "visible (trace w') = visible (trace w) @ br"
    "\<And>errs t. attemptsTrace c parent op1 meth sql args (snapshot (connHooks c) w) errs t \<Longrightarrow>
       attemptsTrace c parent op1 meth sql args (snapshot (connHooks c) w) (err # errs) (br @ t)"
    using run_attempt [OF log] by metis
  have "sent (br @ []) = replicate (length [err]) (runner_id (connR c), sql, args)"
    by (rule attemptsTrace_sent) (rule r(3) [OF attemptsTrace.no_attempt])
  with sent_after [OF r(2)] have "sent (trace w') = sent (trace w) @ [(runner_id (connR c), sql, args)]"
    by simp
  with False r(1) show ?thesis
    by (intro exI [of _ 1]) (simp add: retryDo_def)
qed

lemma retry_returns:
  assumes "obsLogger (connObs c)"
  shows "\<exists>x w'. retryDo b p run w = (Ret x, w')"
proof (cases "rpEnabled p")
  case True
  from retry_attempts [OF this assms] show ?thesis by blast
next
  case False
  with bracket [OF assms, of w] show ?thesis by (auto simp: retryDo_def)
qed

end

lemma withSpan_served:
  assumes "\<And>w. servedBy d sql args w (snd (fn w))"
  shows "servedBy d sql args w (snd (withSpan c operation fn w))"
proof -
  have "sent (trace (snd (withSpan c operation fn w))) =
     sent (trace (snd (fn (case connOps c of None \<Rightarrow> w
        | Some t \<Rightarrow> w\<lparr>env := spanStart t (''db.'' @ operation) (env w)\<rparr>))))"
    by (auto simp: withSpan_def act_simps split: option.splits prod.splits outcome.splits)
  moreover have "servedBy d sql args w (snd (fn (w\<lparr>env := s\<rparr>)))" for s
    using assms [of "w\<lparr>env := s\<rparr>"] by (simp add: servedBy_def)
  ultimately show ?thesis
    using assms [of w] by (cases "connOps c") (simp_all add: servedBy_def)
qed

lemma db_served:
  assumes "obsLogger (connObs (dbConn d))"
  shows "servedBy d sql args w (snd (dbExecute d sql args w))"
    "servedBy d sql args w (snd (dbQuery m1 d sql args w))"
    "servedBy d sql args w (snd (dbQueryRow m2 d sql args w))"
    "servedBy d sql args w (snd (dbScalar m3 d sql args w))"
  unfolding db_op_defs
  by (rule withSpan_served, simp add: servedBy_def exec.retry_sent [OF assms, simplified])
    (rule withSpan_served, simp add: servedBy_def query.retry_sent [OF assms, simplified],
     rule withSpan_served, simp add: servedBy_def query_row.retry_sent [OF assms, simplified],
     simp add: servedBy_def scalar.retry_sent [OF assms, simplified])

lemma withSpan_returns:
  assumes "\<And>w. \<exists>x w'. fn w = (Ret x, w')"
  shows "\<exists>x w'. withSpan c operation fn w = (Ret x, w')"
  using assms [of w] assms [of "w\<lparr>env := s\<rparr>" for s]
  by (cases "connOps c") (auto simp: withSpan_def act_simps split: prod.splits outcome.splits, metis outcome.distinct(1) fst_conv)

lemma db_returns:
  assumes "obsLogger (connObs (dbConn d))"
  shows "\<exists>x w'. dbExecute d sql args w = (Ret x, w')"
    "\<exists>x w'. dbQuery m1 d sql args w = (Ret x, w')"
    "\<exists>x w'. dbQueryRow m2 d sql args w = (Ret x, w')"
    "\<exists>x w'. dbScalar m3 d sql args w = (Ret x, w')"
  unfolding db_op_defs connExecute_Context
  by (rule withSpan_returns, rule exec.retry_returns [OF assms])
    (rule withSpan_returns, rule query.retry_returns [OF assms],
     rule withSpan_returns, rule query_row.retry_returns [OF assms],
     rule scalar.retry_returns [OF assms])

lemma onReplica_served:
  assumes "\<And>w. servedBy (fst (Replica cl)) sql args w (snd (fn (fst (Replica cl)) w))"
  shows "servedBy (fst (Replica cl)) sql args w (snd (onReplica name zero (Some cl) fn w))"
  using assms [of w]
  by (auto simp: onReplica_def act_simps split: prod.splits outcome.splits)

lemma Replica_member:
  "fst (Replica cl) \<in> (if clReplicas cl = [] then {clPrimary cl} else set (clReplicas cl))"
  by (simp add: Replica_def Let_def)

text \<open>A cluster sends writes to its primary and reads to one replica. Every statement of
  \<open>Execute\<close>, all its retries included, goes to the primary's pool; every statement of one
  \<open>ClusterQuery\<close>, \<open>ClusterQueryRow\<close> or \<open>ClusterScalar\<close> goes to the one replica that \<open>Replica\<close>
  picked, which is the primary only when there are no replicas; and it is the caller's statement
  with the caller's arguments, nothing else.\<close>
theorem cluster_routes:
  assumes "list_all (\<lambda>d. obsLogger (connObs (dbConn d))) (clPrimary cl # clReplicas cl)"
  shows "servedBy (clPrimary cl) sql args w (snd (clusterExecute cl sql args w))
    \<and> servedBy (fst (Replica cl)) sql args w (snd (ClusterQuery m1 (Some cl) sql args w))
    \<and> servedBy (fst (Replica cl)) sql args w (snd (ClusterQueryRow m2 (Some cl) sql args w))
    \<and> servedBy (fst (Replica cl)) sql args w (snd (ClusterScalar m3 (Some cl) sql args w))
    \<and> fst (Replica cl) \<in> (if clReplicas cl = [] then {clPrimary cl} else set (clReplicas cl))"
proof -
  have logs: "obsLogger (connObs (dbConn (fst (Replica cl))))" "obsLogger (connObs (dbConn (clPrimary cl)))"
    using assms Replica_member [of cl] by (auto simp: list_all_iff split: if_splits)
  show ?thesis
    unfolding clusterExecute_def Primary_def ClusterQuery_def ClusterQueryRow_def ClusterScalar_def
    by (intro conjI onReplica_served Replica_member)
      (rule db_served(1) [OF logs(2)] db_served(2-4) [OF logs(1)])+
qed

theorem cluster_routes_witness:
  "servedBy (numberedDB 2) ''SELECT'' [] (sampleWorld [] [Some (Msg ''eof'')])
     (snd (ClusterQuery sampleMapper (Some (sampleCluster 0)) ''SELECT'' []
       (sampleWorld [] [Some (Msg ''eof'')])))"
  using cluster_routes [of "sampleCluster 0" "''SELECT''" "[]" "sampleWorld [] [Some (Msg ''eof'')]" sampleMapper
      sampleMapper sampleMapper]
  by (simp add: Replica_pick numberedDB_def)

section \<open>Views\<close>

lemma no_hooks [simp]:
  assumes "connHooks c = None"
  shows "fireBeforeContext c parent op1 sql args = ret ()"
    "fireAfterContext c parent op1 sql args d err rows = ret ()"
  using assms
  by (auto simp: fireBeforeContext_def fireAfterContext_def eachHook_def snapshot_def hr_snapshot_def)

lemma viewConn_simps:
  assumes "viewDB v = Some d"
  shows "\<exists>c. viewConn (Some v) = Inr (d, c) \<and> connR c = connR (dbConn d) \<and> base c = base (dbConn d)
    \<and> connHooks c = None \<and> \<not> obsLogger (connObs c)
    \<and> SlowQuery (connO c) = SlowQuery (connO (dbConn d)) \<and> CommandTimeout (connO c) = cmdTimeout v"
  using assms by (simp add: viewConn_def zeroObservability_def base_def)

text \<open>C37: a statement sent through a view panics as soon as it is slow. The connection a view builds
  carries no logger, so when the driver took longer than \<open>SlowQuery\<close> the report of the slow
  statement is a nil dereference: one statement went out, with the view's timeout and without any
  hook being called, and the caller gets a panic in place of its result.\<close>
theorem view_slow_statement_panics:
  assumes "viewDB v = Some d" and "0 < SlowQuery (connO (dbConn d))"
    and slow: "\<And>cc s. clock s + SlowQuery (connO (dbConn d)) < clock (snd (rExec (connR (dbConn d)) cc sql args s))"
  shows "fst (viewExecute (Some v) sql args w) = Panic ''invalid memory address or nil pointer dereference''
    \<and> trace (snd (viewExecute (Some v) sql args w)) = trace w
        @ [Call (runner_id (connR (dbConn d))) ''Exec''
             (WithDeadline (base (dbConn d)) (clock (env w) + cmdTimeout v)) sql args]"
proof -
  obtain c where c: "viewConn (Some v) = Inr (d, c)" "connR c = connR (dbConn d)" "base c = base (dbConn d)"
    "connHooks c = None" "\<not> obsLogger (connObs c)" "SlowQuery (connO c) = SlowQuery (connO (dbConn d))"
    "CommandTimeout (connO c) = cmdTimeout v"
    using viewConn_simps [OF assms(1)] by blast
  let ?cc = "WithDeadline (base (dbConn d)) (clock (env w) + cmdTimeout v)"
  obtain n err s where x: "rExec (connR (dbConn d)) ?cc sql args (env w) = ((n, err), s)"
    by (metis surj_pair)
  have "clock (env w) + SlowQuery (connO (dbConn d)) < clock s"
    using slow [of "env w" ?cc] by (simp add: x)
  then have run: "connExecute c sql args w = (Panic ''invalid memory address or nil pointer dereference'',
      w\<lparr>trace := trace w @ [Call (runner_id (connR (dbConn d))) ''Exec'' ?cc sql args], env := s\<rparr>)"
    using c x assms(2)
    by (simp add: connExecute_Context connExecuteContext_def call_simps act_simps track_def logWarn_def)
  then show ?thesis
    by (simp add: viewExecute_def viewRun_def c(1) retried_def retryDo_def doLoop.simps)
qed

definition slowRunner :: "unit runner" where
  "slowRunner = Runner 1 (\<lambda>c sql args s. ((1, None), s\<lparr>clock := clock s + Second\<rparr>))
     (\<lambda>c sql args s. ((0, None), s)) (\<lambda>c sql args s. (0, s)) None None None None None None"

definition slowDB :: "unit db" where
  "slowDB =
     \<lparr>dbConn = \<lparr>connR = slowRunner, connO = sampleOptions, connCtx = Background, connHooks = Some 0,
                connOps = None, connObs = newObservability\<rparr>,
      dbPool = \<lparr>poolBegin = (\<lambda>c s. (Inl (Msg ''none''), s)), poolPing = (\<lambda>c s. (None, s)),
                poolClose = (\<lambda>s. s), poolStat = (\<lambda>s. \<lparr>InUse = 0, Idle = 0, MaxC = 1\<rparr>),
                poolAcquire = None, poolBeginTx = None\<rparr>,
      dbRetry = NewRetryPolicy True 3 (100 * Millisecond), dbPoolMetrics = None\<rparr>"

theorem view_slow_statement_panics_witness:
  "fst (viewExecute (Some \<lparr>viewDB = Some slowDB, cmdTimeout = Minute\<rparr>) ''DELETE'' [] (sampleWorld [] ()))
     = Panic ''invalid memory address or nil pointer dereference''"
  using view_slow_statement_panics [of "\<lparr>viewDB = Some slowDB, cmdTimeout = Minute\<rparr>" slowDB "''DELETE''" "[]"]
  by (simp add: slowDB_def slowRunner_def sampleOptions_def)

end
