(* ===== verification/Streams.thy ===== *)
theory Streams
  imports Connection Repository
begin

text \<open>
  batch.go, bulk.go and iterate.go: statements that are pipelined, rows that are copied in and rows
  that are streamed out. The streaming loop runs as long as the driver delivers rows and the consumer
  takes them, so it is a partial function whose value is \<open>None\<close> when it does not return.
\<close>

section \<open>Batches\<close>

text \<open>\<open>Batch\<close>: the queue of \<open>pgx.Batch\<close>, oldest statement first.\<close>

type_synonym batch = "(string \<times> gval list) list"

definition txBatch :: batch where
  "txBatch = []"

definition batchQueue :: "batch \<Rightarrow> string \<Rightarrow> gval list \<Rightarrow> batch" where
  "batchQueue b sql args = b @ [(sql, args)]"

definition batchLen :: "batch \<Rightarrow> nat" where
  "batchLen b = length b"

text \<open>\<open>BatchResults\<close>; \<open>bCancel\<close> tells whether the cancel function is still there.\<close>

record 'd batchResults =
  bRes :: "'d batchRes option"
  bCancel :: bool
  bErr :: "gerr option"

definition SendBatch :: "'d tx \<Rightarrow> batch \<Rightarrow> ('d world, 'd batchResults) act" where
  "SendBatch tx b =
     (case asBatch (connR tx) of
        None \<Rightarrow> ret \<lparr>bRes = None, bCancel = False,
                     bErr = Some (Msg ''database: this transaction does not support batch'')\<rparr>
      | Some sender \<Rightarrow>
          andThen (timeout (base tx) (CommandTimeout (connO tx))) (\<lambda>cctx.
          andThen (emit (Call (runner_id (connR tx)) ''SendBatch'' cctx [] [])) (\<lambda>_.
          andThen (driver (sender cctx b)) (\<lambda>res.
          ret \<lparr>bRes = Some res, bCancel = True, bErr = None\<rparr>))))"

text \<open>A method call on the \<open>pgx.BatchResults\<close>; on a nil interface it is a nil dereference.\<close>

definition onResults ::
  "'d batchResults \<Rightarrow> ('d batchRes \<Rightarrow> ('d, 'a) drvcall) \<Rightarrow> ('d world, 'a) act" where
  "onResults br f =
     (case bRes br of
        None \<Rightarrow> panic ''invalid memory address or nil pointer dereference''
      | Some res \<Rightarrow> driver (f res))"

definition ExecResult :: "'d batchResults \<Rightarrow> ('d world, int \<times> gerr option) act" where
  "ExecResult br =
     (case bErr br of
        Some e \<Rightarrow> ret (0, Some e)
      | None \<Rightarrow>
          andThen (onResults br brExec) (\<lambda>(n, err).
          ret (if err \<noteq> None then (0, err) else (n, None))))"

definition RowScan :: "'d batchResults \<Rightarrow> ('d world, gval list \<times> gerr option) act" where
  "RowScan br =
     (case bErr br of
        Some e \<Rightarrow> ret ([], Some e)
      | None \<Rightarrow> onResults br brQueryRowScan)"

definition batchClose :: "'d batchResults \<Rightarrow> ('d world, gerr option \<times> 'd batchResults) act" where
  "batchClose br =
     andThen
       (if bCancel br
        then (case bRes br of
                None \<Rightarrow> ret ()
              | Some res \<Rightarrow> driver (\<lambda>s. ((), brCancelled res s)))
        else ret ()) (\<lambda>_.
     let br' = br\<lparr>bCancel := False\<rparr>
     in case bErr br of
          Some e \<Rightarrow> ret (Some e, br')
        | None \<Rightarrow> andThen (onResults br' brClose) (\<lambda>e. ret (e, br')))"

section \<open>Bulk loading\<close>

text \<open>\<open>sliceRows\<close>: the source \<open>CopyFrom\<close> reads until \<open>Next\<close> is false.\<close>

record sliceRows =
  srRows :: "gval list list"
  srI :: nat

definition srNext :: "sliceRows \<Rightarrow> bool" where
  "srNext s \<longleftrightarrow> srI s < length (srRows s)"

definition srValues :: "sliceRows \<Rightarrow> (gval list \<times> gerr option) \<times> sliceRows" where
  "srValues s = ((srRows s ! srI s, None), s\<lparr>srI := srI s + 1\<rparr>)"

definition srErr :: "sliceRows \<Rightarrow> gerr option" where
  "srErr s = None"

text \<open>What a reader that follows the protocol of a \<open>CopyFromSource\<close> gets.\<close>

function readSource :: "sliceRows \<Rightarrow> gerr + gval list list" where
  "readSource s =
     (if srNext s
      then (case srValues s of
              ((row, Some e), s') \<Rightarrow> Inl e
            | ((row, None), s') \<Rightarrow>
                (case readSource s' of Inl e \<Rightarrow> Inl e | Inr rows \<Rightarrow> Inr (row # rows)))
      else (case srErr s of Some e \<Rightarrow> Inl e | None \<Rightarrow> Inr []))"
  by pat_completeness auto
termination
  by (relation "measure (\<lambda>s. length (srRows s) - srI s)") (auto simp: srNext_def srValues_def)

declare readSource.simps [simp del]

fun firstInvalid :: "string list \<Rightarrow> gerr option" where
  "firstInvalid [] = None"
| "firstInvalid (col # cols) =
     (case validateIdentifier col of Some e \<Rightarrow> Some e | None \<Rightarrow> firstInvalid cols)"

text \<open>The capability \<open>asCopier\<close> stands for a \<open>CopyFrom\<close> that read its source; the source of the
  library never fails.\<close>

definition BulkInsert ::
  "'d pinned \<Rightarrow> string \<Rightarrow> string list \<Rightarrow> gval list list \<Rightarrow> ('d world, int \<times> gerr option) act" where
  "BulkInsert c table columns rows =
     (case validateIdentifier table of
        Some e \<Rightarrow> ret (0, Some e)
      | None \<Rightarrow>
          if columns = [] then ret (0, Some (Msg ''database: BulkInsert requires at least one column''))
          else (case firstInvalid columns of
                  Some e \<Rightarrow> ret (0, Some e)
                | None \<Rightarrow>
                    (case asCopier (connR (pinConn c)) of
                       None \<Rightarrow> ret (0, Some (Msg ''database: this connection does not support COPY''))
                     | Some copier \<Rightarrow>
                         andThen (timeout (base (pinConn c)) (CommandTimeout (connO (pinConn c)))) (\<lambda>cctx.
                         case readSource \<lparr>srRows = rows, srI = 0\<rparr> of
                           Inl e \<Rightarrow> ret (0, Some (wrapE (''database: copy into '' @ Quote table @ '': '') e))
                         | Inr read \<Rightarrow>
                             andThen (emit (Call (runner_id (connR (pinConn c))) ''CopyFrom'' cctx table [])) (\<lambda>_.
                             andThen (driver (copier cctx table columns read)) (\<lambda>(n, err).
                             ret (case err of
                                    Some e \<Rightarrow> (0, Some (wrapE (''database: copy into '' @ Quote table @ '': '') e))
                                  | None \<Rightarrow> (n, None))))))))"

section \<open>Streaming\<close>

text \<open>\<open>pgx.Rows\<close> with the row decoder of the type parameter. \<open>Next\<close> and \<open>Err\<close> depend on the context
  the query was started with.\<close>

record ('d, 't) rowStream =
  rowsNext :: "nat \<Rightarrow> ctx \<Rightarrow> ('d, bool) drvcall"
  rowDecode :: "nat \<Rightarrow> ('d, 't \<times> gerr option) drvcall"
  rowsErr :: "nat \<Rightarrow> ctx \<Rightarrow> ('d, gerr option) drvcall"
  rowsClose :: "nat \<Rightarrow> 'd env \<Rightarrow> 'd env"

text \<open>
  The watchdog timer: when it will cancel the stream, or that it was stopped in time. The context of
  the stream is the connection's, canceled by the watchdog unless it was stopped.
\<close>

datatype watchdog = Armed int | Disarmed

definition wdStop :: "int \<Rightarrow> watchdog \<Rightarrow> watchdog" where
  "wdStop t wd = (case wd of Armed d \<Rightarrow> if t < d then Disarmed else Armed d | Disarmed \<Rightarrow> Disarmed)"

definition streamCtx :: "'d conn \<Rightarrow> watchdog \<Rightarrow> ctx" where
  "streamCtx c wd = (case wd of Armed d \<Rightarrow> WithCancelAt (base c) d | Disarmed \<Rightarrow> base c)"

definition disarmAfter :: "bool \<Rightarrow> int \<Rightarrow> watchdog \<Rightarrow> bool \<times> watchdog" where
  "disarmAfter firstRow t wd = (if \<not> firstRow then (False, wd) else (True, wdStop t wd))"

definition iterEnd ::
  "('d, 't) rowStream \<Rightarrow> 'd conn \<Rightarrow> nat \<Rightarrow> bool \<Rightarrow> watchdog \<Rightarrow> ('d world, gerr option) act" where
  "iterEnd st c rows firstRow wd =
     andThen (driver (rowsErr st rows (streamCtx c wd))) (\<lambda>qerr.
     ret (case qerr of
            None \<Rightarrow> None
          | Some e \<Rightarrow>
              if firstRow \<and> errIs e DeadlineExceeded
              then Some (wrapE (''database: first row not available within ''
                     @ durationString (CommandTimeout (connO c)) @ '': '') e)
              else Some e))"

partial_function (option) iterLoop ::
  "('d, 't) rowStream \<Rightarrow> 'd conn \<Rightarrow> nat \<Rightarrow> ('t \<Rightarrow> ('d world, gerr option) act) \<Rightarrow> bool \<Rightarrow> watchdog
     \<Rightarrow> 'd world \<Rightarrow> (gerr option outcome \<times> 'd world) option" where
  "iterLoop st c rows fn firstRow wd w =
     (case rowsNext st rows (streamCtx c wd) (env w) of (got, s) \<Rightarrow>
        if \<not> got then Some (iterEnd st c rows firstRow wd (w\<lparr>env := s\<rparr>))
        else (case disarmAfter firstRow (clock s) wd of (disarmed, wd') \<Rightarrow>
             (case rowDecode st rows s of ((row, derr), s') \<Rightarrow>
             (case derr of
                Some e \<Rightarrow> Some (Ret (Some e), w\<lparr>env := s'\<rparr>)
              | None \<Rightarrow>
                  (case fn row (w\<lparr>env := s'\<rparr>) of (r, w') \<Rightarrow>
                  (case r of
                     Panic p \<Rightarrow> Some (Panic p, w')
                   | Ret ferr \<Rightarrow>
                       (case ferr of
                          Some fe \<Rightarrow> Some (Ret (Some (wrapE ''database: iterator stopped by consumer: '' fe)), w')
                        | None \<Rightarrow> iterLoop st c rows fn (\<not> disarmed) wd' w')))))))"

text \<open>\<open>runIter\<close>: the deferred calls close the rows on every exit of the loop.\<close>

definition runIter ::
  "('d, 't) rowStream \<Rightarrow> 'd conn \<Rightarrow> string \<Rightarrow> gval list \<Rightarrow> ('t \<Rightarrow> ('d world, gerr option) act)
     \<Rightarrow> 'd world \<Rightarrow> (gerr option outcome \<times> 'd world) option" where
  "runIter st c sql args fn w =
     (let start = clock (env w)
      in case callQuery (connR c) (base c) sql args w of
           (Panic p, w1) \<Rightarrow> Some (Panic p, w1)
         | (Ret (rows, Some e), w1) \<Rightarrow> Some (andThen (track c start sql) (\<lambda>_. ret (Some e)) w1)
         | (Ret (rows, None), w1) \<Rightarrow>
             (case iterLoop st c rows fn True (Armed (clock (env w1) + CommandTimeout (connO c))) w1 of
                None \<Rightarrow> None
              | Some (r, w2) \<Rightarrow> Some (r, w2\<lparr>env := rowsClose st rows (env w2)\<rparr>)))"

definition Iter where
  "Iter st d sql args fn = runIter st (dbConn d) sql args fn"

definition ConnIter where
  "ConnIter st c sql args fn = runIter st (pinConn c) sql args fn"

definition TxIter :: "('d, 't) rowStream \<Rightarrow> 'd tx \<Rightarrow> string \<Rightarrow> gval list \<Rightarrow> ('t \<Rightarrow> ('d world, gerr option) act)
     \<Rightarrow> 'd world \<Rightarrow> (gerr option outcome \<times> 'd world) option" where
  "TxIter st tx sql args fn = runIter st tx sql args fn"

end
