(* ===== verification/Streams_Properties.thy ===== *)
theory Streams_Properties
  imports Streams Fixtures
begin

text \<open>
  The properties of streaming, of bulk loading and of batches (iterate.go, bulk.go, batch.go).
\<close>

section \<open>Streaming\<close>

text \<open>
  What pgx promises of the rows of a query: \<open>content\<close> is what is still to come in a state of the
  driver. With rows to come, \<open>Next\<close> delivers the next one in the state \<open>arrive\<close>, provided the
  context of the query is still alive when the row arrives; without, it is false and \<open>Err\<close> tells
  how the stream ended.
\<close>

definition finiteStream ::
  "('d, 't) rowStream \<Rightarrow> nat \<Rightarrow> ('d \<Rightarrow> 't list) \<Rightarrow> ('d env \<Rightarrow> 'd env) \<Rightarrow> gerr option \<Rightarrow> bool" where
  "finiteStream st rows content arrive qerr \<longleftrightarrow>
     (\<forall>cc s. content (drv s) = [] \<longrightarrow>
        \<not> fst (rowsNext st rows cc s) \<and> content (drv (snd (rowsNext st rows cc s))) = []
        \<and> fst (rowsErr st rows cc s) = qerr) \<and>
     (\<forall>cc s x xs. content (drv s) = x # xs \<longrightarrow> ctxErr (arrive s) cc = None \<longrightarrow>
        rowsNext st rows cc s = (True, arrive s) \<and>
        (\<exists>s'. rowDecode st rows (arrive s) = ((x, None), s') \<and> content (drv s') = xs))"

text \<open>The rows a consumer with the verdicts \<open>g\<close> gets to see, and the result of the stream.\<close>

definition visited :: "('t \<Rightarrow> gerr option) \<Rightarrow> 't list \<Rightarrow> 't list" where
  "visited g xs = takeWhile (\<lambda>x. g x = None) xs @ take 1 (dropWhile (\<lambda>x. g x = None) xs)"

definition endError :: "'d conn \<Rightarrow> bool \<Rightarrow> gerr option \<Rightarrow> gerr option" where
  "endError c firstRow qerr =
     (case qerr of
        None \<Rightarrow> None
      | Some e \<Rightarrow>
          if firstRow \<and> errIs e DeadlineExceeded
          then Some (wrapE (''database: first row not available within ''
                 @ durationString (CommandTimeout (connO c)) @ '': '') e)
          else Some e)"

definition iterResult ::
  "'d conn \<Rightarrow> bool \<Rightarrow> ('t \<Rightarrow> gerr option) \<Rightarrow> 't list \<Rightarrow> gerr option \<Rightarrow> gerr option" where
  "iterResult c firstRow g xs qerr =
     (case dropWhile (\<lambda>x. g x = None) xs of
        x # _ \<Rightarrow> Some (wrapE ''database: iterator stopped by consumer: '' (the (g x)))
      | [] \<Rightarrow> endError c (firstRow = even (length xs)) qerr)"

lemma visited_simps [simp]:
  "visited g [] = []"
  "visited g (x # xs) = x # (if g x = None then visited g xs else [])"
  by (simp_all add: visited_def)

lemma iterResult_Nil [simp]: "iterResult c b g [] qerr = endError c b qerr"
  by (simp add: iterResult_def)

lemma iterResult_Cons [simp]:
  "iterResult c b g (x # xs) qerr =
     (case g x of
        Some e \<Rightarrow> Some (wrapE ''database: iterator stopped by consumer: '' e)
      | None \<Rightarrow> iterResult c (\<not> b) g xs qerr)"
proof -
  have "(b = even (length (x # xs))) = ((\<not> b) = even (length xs))" by auto
  then show ?thesis
    by (cases "g x"; cases "dropWhile (\<lambda>x. g x = None) xs"; cases b)
      (simp_all add: iterResult_def del: dropWhile_eq_Nil_conv)
qed

lemma iterEnd_app:
  assumes "fst (rowsErr st rows (streamCtx c wd) (env w)) = qerr"
  shows "\<exists>s. iterEnd st c rows b wd w = (Ret (endError c b qerr), w\<lparr>env := s\<rparr>)"
  using assms
  by (cases "rowsErr st rows (streamCtx c wd) (env w)")
    (auto simp: iterEnd_def endError_def act_simps split: option.splits)

text \<open>One turn of the loop on a row that arrives in time.\<close>

lemma iterLoop_row:
  assumes fs: "finiteStream st rows content arrive qerr" and more: "content (drv (env w)) = x # xs"
    and live: "ctxErr (arrive (env w)) (streamCtx c wd) = None"
  shows "\<exists>s. content (drv s) = xs \<and> iterLoop st c rows fn b wd w =
     (case fn x (w\<lparr>env := s\<rparr>) of
        (Panic p, w') \<Rightarrow> Some (Panic p, w')
      | (Ret (Some fe), w') \<Rightarrow> Some (Ret (Some (wrapE ''database: iterator stopped by consumer: '' fe)), w')
      | (Ret None, w') \<Rightarrow>
          iterLoop st c rows fn (\<not> b) (snd (disarmAfter b (clock (arrive (env w))) wd)) w')"
proof -
  from fs more live obtain s where "rowsNext st rows (streamCtx c wd) (env w) = (True, arrive (env w))"
    "rowDecode st rows (arrive (env w)) = ((x, None), s)" "content (drv s) = xs"
    unfolding finiteStream_def by blast
  then show ?thesis
    by (intro exI [of _ s])
      (cases b; simp add: iterLoop.simps [of st c rows fn _ wd w] disarmAfter_def
        split: prod.split outcome.split option.split)
qed

lemma iterLoop_end:
  assumes fs: "finiteStream st rows content arrive qerr" and none: "content (drv (env w)) = []"
  shows "\<exists>s. iterLoop st c rows fn b wd w = Some (Ret (endError c b qerr), w\<lparr>env := s\<rparr>)"
proof -
  obtain got s where n: "rowsNext st rows (streamCtx c wd) (env w) = (got, s)" by fastforce
  with fs none have g: "\<not> got" "content (drv s) = []"
    unfolding finiteStream_def by (metis fst_conv, metis snd_conv)
  with fs have "fst (rowsErr st rows (streamCtx c wd) (env (w\<lparr>env := s\<rparr>))) = qerr"
    by (simp add: finiteStream_def)
  from iterEnd_app [OF this, of b] obtain s' where
    "iterEnd st c rows b wd (w\<lparr>env := s\<rparr>) = (Ret (endError c b qerr), w\<lparr>env := s\<rparr>\<lparr>env := s'\<rparr>)"
    by blast
  with n g(1) show ?thesis by (auto simp: iterLoop.simps [of st c rows fn b wd w])
qed

text \<open>With the watchdog stopped the loop runs through whatever is left, however long the rows take.\<close>

lemma iterLoop_disarmed:
  assumes fs: "finiteStream st rows content arrive qerr"
    and base: "\<And>s :: 'd env. done_at s (base c) = None"
    and fn: "\<And>x w. fst (fn x w) = Ret (g x)" "\<And>x w. trace (snd (fn x w)) = trace w @ [ev x]"
      "\<And>x w. content (drv (env (snd (fn x w)))) = content (drv (env (w :: 'd world)))"
  shows "\<exists>w'. iterLoop st c rows fn b Disarmed w = Some (Ret (iterResult c b g (content (drv (env w))) qerr), w')
     \<and> trace w' = trace w @ map ev (visited g (content (drv (env w))))"
proof (induction "content (drv (env w))" arbitrary: w b)
  case Nil
  from iterLoop_end [OF fs, of w c fn b Disarmed] Nil show ?case by auto
next
  case (Cons x xs)
  have "ctxErr (arrive (env w)) (streamCtx c Disarmed) = None"
    by (simp add: ctxErr_def streamCtx_def base)
  from iterLoop_row [OF fs Cons.hyps(2) [symmetric] this, of fn b]
  obtain s where s: "content (drv s) = xs" "iterLoop st c rows fn b Disarmed w =
     (case fn x (w\<lparr>env := s\<rparr>) of
        (Panic p, w') \<Rightarrow> Some (Panic p, w')
      | (Ret (Some fe), w') \<Rightarrow> Some (Ret (Some (wrapE ''database: iterator stopped by consumer: '' fe)), w')
      | (Ret None, w') \<Rightarrow>
          iterLoop st c rows fn (\<not> b) (snd (disarmAfter b (clock (arrive (env w))) Disarmed)) w')"
    by blast
  obtain w1 where w1: "fn x (w\<lparr>env := s\<rparr>) = (Ret (g x), w1)" "trace w1 = trace w @ [ev x]"
    "content (drv (env w1)) = xs"
    using fn(1) [of x "w\<lparr>env := s\<rparr>"] fn(2) [of x "w\<lparr>env := s\<rparr>"] fn(3) [of x "w\<lparr>env := s\<rparr>"] s(1)
    by (cases "fn x (w\<lparr>env := s\<rparr>)") auto
  have "snd (disarmAfter b t Disarmed) = Disarmed" for t
    by (simp add: disarmAfter_def wdStop_def)
  with s(2) w1 Cons.hyps(1) [of w1 "\<not> b"] Cons.hyps(2) [symmetric] show ?case
    by (cases "g x") auto
qed

text \<open>C34: a stream of finitely many rows is consumed completely. When the first row arrives within
  \<open>CommandTimeout\<close>, and however long the others take, \<open>runIter\<close> returns; the consumer was given the
  rows in order, each once, up to the first one it refused; the result is that refusal, wrapped, or
  else the error the stream ended with; and the rows are closed. A deadline error at the end is
  reported as a missing first row whenever the number of rows delivered is even: the flag that is to
  tell the first row apart is flipped by every row.\<close>
theorem iter_visits_rows:
  fixes w :: "'d world"
  assumes fs: "finiteStream st rows content arrive qerr"
    and base: "\<And>s :: 'd env. done_at s (base c) = None"
    and query: "rQuery (connR c) (base c) sql args (env w) = ((rows, None), s0)" and rows: "content (drv s0) = xs"
    and first: "xs = [] \<or> clock (arrive s0) < clock s0 + CommandTimeout (connO c)"
    and fn: "\<And>x w. fst (fn x w) = Ret (g x)" "\<And>x w. trace (snd (fn x w)) = trace w @ [ev x]"
      "\<And>x w. content (drv (env (snd (fn x w)))) = content (drv (env (w :: 'd world)))"
  shows "\<exists>w' s. runIter st c sql args fn w = Some (Ret (iterResult c True g xs qerr), w')
     \<and> trace w' = trace w @ Call (runner_id (connR c)) ''Query'' (base c) sql args # map ev (visited g xs)
     \<and> env w' = rowsClose st rows s"
proof -
  let ?w1 = "w\<lparr>trace := trace w @ [Call (runner_id (connR c)) ''Query'' (base c) sql args], env := s0\<rparr>"
  let ?wd = "Armed (clock s0 + CommandTimeout (connO c))"
  have "\<exists>w'. iterLoop st c rows fn True ?wd ?w1 = Some (Ret (iterResult c True g xs qerr), w')
     \<and> trace w' = trace ?w1 @ map ev (visited g xs)"
  proof (cases xs)
    case Nil
    with iterLoop_end [OF fs, of ?w1 c fn True ?wd] rows show ?thesis by auto
  next
    case (Cons y ys)
    with first have t: "clock (arrive s0) < clock s0 + CommandTimeout (connO c)" by simp
    then have "ctxErr (arrive (env ?w1)) (streamCtx c ?wd) = None"
      by (simp add: ctxErr_def streamCtx_def base)
    moreover have "content (drv (env ?w1)) = y # ys" using rows Cons by simp
    ultimately obtain s where s: "content (drv s) = ys" and loop: "iterLoop st c rows fn True ?wd ?w1 =
       (case fn y (?w1\<lparr>env := s\<rparr>) of
          (Panic p, w') \<Rightarrow> Some (Panic p, w')
        | (Ret (Some fe), w') \<Rightarrow> Some (Ret (Some (wrapE ''database: iterator stopped by consumer: '' fe)), w')
        | (Ret None, w') \<Rightarrow>
            iterLoop st c rows fn (\<not> True) (snd (disarmAfter True (clock (arrive (env ?w1))) ?wd)) w')"
      using iterLoop_row [OF fs] by blast
    have stopped: "snd (disarmAfter True (clock (arrive (env ?w1))) ?wd) = Disarmed"
      using t by (simp add: disarmAfter_def wdStop_def)
    obtain w2 where w2: "fn y (?w1\<lparr>env := s\<rparr>) = (Ret (g y), w2)" "trace w2 = trace ?w1 @ [ev y]"
      "content (drv (env w2)) = ys"
      using fn(1) [of y "?w1\<lparr>env := s\<rparr>"] fn(2) [of y "?w1\<lparr>env := s\<rparr>"] fn(3) [of y "?w1\<lparr>env := s\<rparr>"] s
      by (cases "fn y (?w1\<lparr>env := s\<rparr>)") auto
    from iterLoop_disarmed [OF fs base fn, where b = False and w = w2] w2 Cons show ?thesis
      unfolding loop stopped by (cases "g y") auto
  qed
  then show ?thesis
    by (auto simp: runIter_def callQuery_def act_simps query)
qed

text \<open>Rows kept in the driver's state, one second apart.\<close>

definition slowStream :: "gerr option \<Rightarrow> (nat list, nat) rowStream" where
  "slowStream qerr =
     \<lparr>rowsNext = (\<lambda>r cc s. let s' = s\<lparr>clock := clock s + Second\<rparr> in
        if drv s = [] then (False, s) else if ctxErr s' cc = None then (True, s') else (False, s')),
      rowDecode = (\<lambda>r s. ((hd (drv s), None), s\<lparr>drv := tl (drv s)\<rparr>)),
      rowsErr = (\<lambda>r cc s. (if drv s = [] then qerr else ctxErr s cc, s)), rowsClose = (\<lambda>r s. s)\<rparr>"

definition listRunner :: "nat list runner" where
  "listRunner = Runner 1 (\<lambda>c sql args s. ((0, None), s)) (\<lambda>c sql args s. ((0, None), s))
     (\<lambda>c sql args s. (0, s)) None None None None None None"

definition listConn :: "nat list conn" where
  "listConn =
     \<lparr>connR = listRunner, connO = sampleOptions, connCtx = Background, connHooks = None,
      connOps = None, connObs = newObservability\<rparr>"

definition rowLogger :: "nat \<Rightarrow> (nat list world, gerr option) act" where
  "rowLogger x w = (Ret (if x = 99 then Some (Msg ''enough'') else None),
     w\<lparr>trace := trace w @ [LogLine (replicate x CHR ''x'')]\<rparr>)"

theorem iter_visits_rows_witness:
  "\<exists>w'. runIter (slowStream (Some DeadlineExceeded)) listConn ''SELECT'' [] rowLogger (sampleWorld [] [1, 2])
     = Some (Ret (Some (wrapE (''database: first row not available within ''
         @ durationString (30 * Second) @ '': '') DeadlineExceeded)), w')
   \<and> trace w' = [Call 1 ''Query'' Background ''SELECT'' [], LogLine ''x'', LogLine ''xx'']"
proof -
  let ?g = "\<lambda>x :: nat. if x = 99 then Some (Msg ''enough'') else None"
  have fs: "finiteStream (slowStream (Some DeadlineExceeded)) 0 id (\<lambda>s. s\<lparr>clock := clock s + Second\<rparr>)
     (Some DeadlineExceeded)"
    by (auto simp: finiteStream_def slowStream_def Let_def)
  have b: "done_at s (base listConn) = None" for s :: "nat list env"
    by (simp add: listConn_def base_def)
  have q: "rQuery (connR listConn) (base listConn) ''SELECT'' [] (env (sampleWorld [] [1, 2]))
     = ((0, None), sampleEnv [1, 2])"
    by (simp add: listConn_def listRunner_def sampleWorld_def)
  have r: "id (drv (sampleEnv [1, 2])) = [1, 2 :: nat]"
    by (simp add: sampleEnv_def)
  have f: "[1, 2 :: nat] = [] \<or> clock ((\<lambda>s. s\<lparr>clock := clock s + Second\<rparr>) (sampleEnv [1, 2 :: nat]))
     < clock (sampleEnv [1, 2 :: nat]) + CommandTimeout (connO listConn)"
    by (simp add: sampleEnv_def listConn_def sampleOptions_def)
  have l: "fst (rowLogger x w) = Ret (?g x)" "trace (snd (rowLogger x w)) = trace w @ [LogLine (replicate x CHR ''x'')]"
    "id (drv (env (snd (rowLogger x w)))) = id (drv (env w))" for x w
    by (simp_all add: rowLogger_def)
  obtain w' where
    "runIter (slowStream (Some DeadlineExceeded)) listConn ''SELECT'' [] rowLogger (sampleWorld [] [1, 2])
       = Some (Ret (iterResult listConn True ?g [1, 2] (Some DeadlineExceeded)), w')"
    "trace w' = trace (sampleWorld [] [1, 2 :: nat])
       @ Call (runner_id (connR listConn)) ''Query'' (base listConn) ''SELECT'' []
       # map (\<lambda>x. LogLine (replicate x CHR ''x'')) (visited ?g [1, 2])"
    using iter_visits_rows [where fn = rowLogger and g = ?g, OF fs b q r f l] by blast
  then show ?thesis
    by (simp add: listConn_def listRunner_def sampleOptions_def base_def endError_def sampleWorld_def numeral_2_eq_2)
qed

section \<open>Bulk loading\<close>

lemma readSource_drop:
  "i \<le> length rows \<Longrightarrow> readSource \<lparr>srRows = rows, srI = i\<rparr> = Inr (drop i rows)"
proof (induction "length rows - i" arbitrary: i)
  case 0
  then show ?case by (simp add: readSource.simps srNext_def srErr_def)
next
  case (Suc n)
  then have "i < length rows" by linarith
  with Suc.hyps(1) [of "Suc i"] Suc.hyps(2) show ?case
    by (simp add: readSource.simps [of "\<lparr>srRows = rows, srI = i\<rparr>"] srNext_def srValues_def Cons_nth_drop_Suc)
qed

lemma firstInvalid_None: "firstInvalid cols = None \<longleftrightarrow> list_all (\<lambda>c. validateIdentifier c = None) cols"
  by (induction cols) (auto split: option.splits)

text \<open>C35: \<open>BulkInsert\<close> copies exactly the rows it was given. With a valid table name, at least one
  column and valid column names it makes one \<open>CopyFrom\<close>, bounded by \<open>CommandTimeout\<close>, whose source
  delivers all rows in order and then ends; the count of the driver is returned, or its error with the
  table name. In all other cases it returns an error and sends nothing.\<close>
theorem bulk_insert_delivers:
  "case (if validateIdentifier table = None \<and> columns \<noteq> [] \<and> list_all (\<lambda>col. validateIdentifier col = None) columns
         then asCopier (connR (pinConn c)) else None) of
     None \<Rightarrow> \<exists>e. BulkInsert c table columns rows w = (Ret (0, Some e), w)
   | Some copier \<Rightarrow>
       let cctx = WithDeadline (base (pinConn c)) (clock (env w) + CommandTimeout (connO (pinConn c)));
           ((n, err), s) = copier cctx table columns rows (env w)
       in BulkInsert c table columns rows w =
            (Ret (case err of
                    None \<Rightarrow> (n, None)
                  | Some e \<Rightarrow> (0, Some (wrapE (''database: copy into '' @ Quote table @ '': '') e))),
             w\<lparr>trace := trace w @ [Call (runner_id (connR (pinConn c))) ''CopyFrom'' cctx table []], env := s\<rparr>)"
proof -
  have src: "readSource \<lparr>srRows = rows, srI = 0\<rparr> = Inr rows"
    using readSource_drop [of 0 rows] by simp
  show ?thesis
    using firstInvalid_None [of columns]
    by (auto simp: BulkInsert_def src act_simps Let_def split: option.splits prod.splits)
qed

section \<open>Batches\<close>

lemma queued_in_order:
  "fold (\<lambda>(sql, args) b. batchQueue b sql args) ss b = b @ ss"
  by (induction ss arbitrary: b) (auto simp: batchQueue_def)

text \<open>A batch is one round trip. However many statements were queued, \<open>SendBatch\<close> makes one call
  to the driver with all of them in the order of the \<open>Queue\<close> calls. On a transaction without that
  capability nothing is sent and every method of the results returns the same error; \<open>Close\<close> cancels
  the context at its first call only, and does so before the results are drained.\<close>
theorem batch_single_round_trip:
  "let b = fold (\<lambda>(sql, args) b. batchQueue b sql args) ss txBatch;
       cctx = WithDeadline (base tx) (clock (env w) + CommandTimeout (connO tx))
   in case asBatch (connR tx) of
     Some sender \<Rightarrow>
       let (res, s) = sender cctx ss (env w);
           br = \<lparr>bRes = Some res, bCancel = True, bErr = None\<rparr>
       in SendBatch tx b w = (Ret br, w\<lparr>trace := trace w @ [Call (runner_id (connR tx)) ''SendBatch'' cctx [] []], env := s\<rparr>)
        \<and> batchClose br = andThen (driver (\<lambda>s. ((), brCancelled res s))) (\<lambda>_. batchClose (br\<lparr>bCancel := False\<rparr>))
        \<and> batchClose (br\<lparr>bCancel := False\<rparr>) = andThen (driver (brClose res)) (\<lambda>e. ret (e, br\<lparr>bCancel := False\<rparr>))
   | None \<Rightarrow>
       \<exists>br e. SendBatch tx b w = (Ret br, w) \<and> ExecResult br w = (Ret (0, Some e), w)
         \<and> RowScan br w = (Ret ([], Some e), w) \<and> batchClose br w = (Ret (Some e, br), w)"
proof -
  have "fold (\<lambda>(sql, args) b. batchQueue b sql args) ss txBatch = ss"
    by (simp add: queued_in_order txBatch_def)
  then show ?thesis
    by (auto simp: SendBatch_def batchClose_def ExecResult_def RowScan_def onResults_def act_simps Let_def
        split: option.splits prod.splits)
qed

end
