(* ===== verification/Listen.thy ===== *)
theory Listen
  imports Connection Repository
begin

text \<open>
  listen.go: LISTEN and NOTIFY. The fetch goroutine of \<open>listenLoop\<close> runs beside the rest of the
  program; its code between two blocking points is one turn of the function \<open>listenTurn\<close>, and the
  relation \<open>listenStep\<close> interleaves turns with the closing of the stop channel and with whatever else
  happens to the environment meanwhile.
\<close>

section \<open>Channels and options\<close>

definition notifyTick :: int where
  "notifyTick = Second"

definition channelRe :: regex where
  "channelRe = Seq Bol (Seq (Plus (Cls isWord)) Eol)"

definition validateChannel :: "string \<Rightarrow> gerr option" where
  "validateChannel channel =
     (if \<not> matchString channelRe channel
      then Some (Msg (''database: invalid channel name '' @ Quote channel @ '' (allowed: [a-zA-Z0-9_]+)''))
      else None)"

record listenOptions =
  RetryDelay :: int
  MaxBackoff :: int
  ReacquireAfter :: int

definition normalized :: "listenOptions \<Rightarrow> listenOptions" where
  "normalized o0 =
     (let o1 = (if ReacquireAfter o0 \<le> 0 then o0\<lparr>ReacquireAfter := 3\<rparr> else o0);
          o2 = (if RetryDelay o1 \<le> 0 then o1\<lparr>RetryDelay := 500 * Millisecond\<rparr> else o1)
      in if MaxBackoff o2 < RetryDelay o2
         then let o3 = o2\<lparr>MaxBackoff := 5 * Second\<rparr>
              in if MaxBackoff o3 < RetryDelay o3 then o3\<lparr>MaxBackoff := RetryDelay o3\<rparr> else o3
         else o2)"

type_synonym 'd waiter = "ctx \<Rightarrow> ('d, string option \<times> gerr option) drvcall"

definition resolveListenBackend :: "'d runner \<Rightarrow> gerr + 'd waiter" where
  "resolveListenBackend r1 =
     (case asWaiter r1 of
        Some wt \<Rightarrow> Inr wt
      | None \<Rightarrow>
          (case asRawConn r1 of
             Some wt \<Rightarrow> Inr wt
           | None \<Rightarrow> Inl (Msg ''database: this connection does not support LISTEN'')))"

definition listenSQL :: "string \<Rightarrow> string" where
  "listenSQL channel = ''LISTEN '' @ channel"

definition unlistenSQL :: "string \<Rightarrow> string" where
  "unlistenSQL channel = ''UNLISTEN '' @ channel"

section \<open>The session\<close>

record 'd listenSession =
  sConn :: "'d conn"
  sWaiter :: "'d waiter"
  sRelease :: "'d release option"

definition current :: "'d listenSession \<Rightarrow> 'd conn \<times> 'd waiter" where
  "current ses = (sConn ses, sWaiter ses)"

text \<open>Connections borrowed and given back by the listener, recorded in the trace.\<close>

definition giveBack :: "nat \<Rightarrow> 'd release \<Rightarrow> ctx \<Rightarrow> ('d world, unit) act" where
  "giveBack i rel c =
     andThen (emit (TxControl i ''Release'' c)) (\<lambda>_. andThen (driver (rel c)) (\<lambda>_. ret ()))"

definition giveBackIf :: "'d listenSession \<Rightarrow> ctx \<Rightarrow> ('d world, unit) act" where
  "giveBackIf ses c =
     (case sRelease ses of
        None \<Rightarrow> ret ()
      | Some rel \<Rightarrow> giveBack (runner_id (connR (sConn ses))) rel c)"

definition swap ::
  "'d listenSession \<Rightarrow> ctx \<Rightarrow> 'd conn \<Rightarrow> 'd waiter \<Rightarrow> 'd release \<Rightarrow> ('d world, 'd listenSession) act" where
  "swap ses cctx c wt rel =
     andThen (giveBackIf ses cctx) (\<lambda>_. ret \<lparr>sConn = c, sWaiter = wt, sRelease = Some rel\<rparr>)"

definition releaseReplacement :: "'d listenSession \<Rightarrow> ctx \<Rightarrow> ('d world, 'd listenSession) act" where
  "releaseReplacement ses cctx = andThen (giveBackIf ses cctx) (\<lambda>_. ret (ses\<lparr>sRelease := None\<rparr>))"

type_synonym 'd reacquireFunc = "ctx \<Rightarrow> ('d, gerr + 'd runner \<times> 'd release) drvcall"

text \<open>Resolving the backend of a borrowed connection and issuing LISTEN on it; \<open>None\<close> when either
  fails.\<close>

definition listenFresh :: "'d conn \<Rightarrow> 'd runner \<Rightarrow> string \<Rightarrow> ('d world, 'd waiter option) act" where
  "listenFresh src r1 channel =
     (case resolveListenBackend r1 of
        Inl e \<Rightarrow> ret None
      | Inr wt \<Rightarrow>
          andThen (connExecute (derive src r1) (listenSQL channel) []) (\<lambda>(n, werr).
          ret (if werr = None then Some wt else None)))"

definition relistenOnFreshConn ::
  "'d listenSession \<Rightarrow> 'd conn \<Rightarrow> 'd reacquireFunc \<Rightarrow> string \<Rightarrow> ('d world, bool \<times> 'd listenSession) act" where
  "relistenOnFreshConn ses src reacquire channel =
     andThen (timeout (base src) (ConnectionTimeout (connO src))) (\<lambda>cctx.
     andThen (driver (reacquire cctx)) (\<lambda>r.
     case r of
       Inl e \<Rightarrow>
         andThen (loggerLine src ''database re-listen: acquiring a fresh connection failed'') (\<lambda>_. ret (False, ses))
     | Inr (r1, rel) \<Rightarrow>
         andThen (emit (TxControl (runner_id r1) ''Acquire'' cctx)) (\<lambda>_.
         andThen (listenFresh src r1 channel) (\<lambda>ok.
         case ok of
           None \<Rightarrow>
             andThen (giveBack (runner_id r1) rel cctx) (\<lambda>_.
             andThen (loggerLine src ''database re-listen on a fresh connection failed'') (\<lambda>_. ret (False, ses)))
         | Some wt \<Rightarrow> andThen (swap ses cctx (derive src r1) wt rel) (\<lambda>ses'. ret (True, ses'))))))"

section \<open>The fetch loop\<close>

text \<open>Where the goroutine stands: at the top of the loop, in \<open>WaitForNotification\<close>, after a real
  failure, in the cancellable sleep, after the sleep, before a fresh connection is borrowed, at its
  end, or dead of a panic.\<close>

datatype listenPc = Top | Waiting | Failed gerr | Sleeping | Relistening | Reacquiring | Ended | Crashed

record 'd listener =
  lPc :: listenPc
  lSession :: "'d listenSession"
  lConn :: "'d conn"
  lWait :: "'d waiter"
  lBackoff :: int
  lFailures :: int
  lStopped :: bool
  lDelivered :: "string list"

record 'd listenCfg =
  lcChannel :: string
  lcOpts :: listenOptions
  lcReconnect :: bool
  lcReacquire :: "'d reacquireFunc option"

definition turnTop :: "'d listenCfg \<Rightarrow> 'd listener \<Rightarrow> ('d world, 'd listener) act" where
  "turnTop cfg l = (\<lambda>w.
     let (c, wt) = current (lSession l); l' = l\<lparr>lConn := c, lWait := wt\<rparr>
     in if ctxErr (env w) (base c) \<noteq> None
        then andThen (loggerLine c ''database listen stopped: context done'') (\<lambda>_. ret (l'\<lparr>lPc := Ended\<rparr>)) w
        else if lStopped l then ret (l'\<lparr>lPc := Ended\<rparr>) w
        else ret (l'\<lparr>lPc := Waiting\<rparr>) w)"

definition turnWaiting :: "'d listenCfg \<Rightarrow> 'd listener \<Rightarrow> ('d world, 'd listener) act" where
  "turnWaiting cfg l =
     andThen (timeout (base (lConn l)) notifyTick) (\<lambda>wctx.
     andThen (driver (lWait l wctx)) (\<lambda>(n, err).
     ret (case err of
            None \<Rightarrow>
              l\<lparr>lDelivered := lDelivered l @ (case n of None \<Rightarrow> [] | Some payload \<Rightarrow> [payload]),
                lBackoff := RetryDelay (lcOpts cfg), lPc := Top\<rparr>
          | Some e \<Rightarrow>
              if errIs e DeadlineExceeded \<or> errIs e Canceled then l\<lparr>lPc := Top\<rparr>
              else l\<lparr>lPc := Failed e\<rparr>)))"

definition turnFailed :: "'d listenCfg \<Rightarrow> 'd listener \<Rightarrow> ('d world, 'd listener) act" where
  "turnFailed cfg l =
     (if lStopped l then ret (l\<lparr>lPc := Ended\<rparr>)
      else if \<not> lcReconnect cfg
      then andThen (loggerLine (lConn l) ''database listen aborted by connection error'') (\<lambda>_.
           ret (l\<lparr>lPc := Ended\<rparr>))
      else andThen (loggerLine (lConn l) ''database listen failed; scheduling re-listen'') (\<lambda>_.
           ret (l\<lparr>lFailures := 0, lPc := Sleeping\<rparr>)))"

text \<open>\<open>sleepCancellable\<close>: a select between the timer and the stop channel. With the stop channel open only
  the timer can fire. With both ready the select takes either, so a closed stop channel ends the sleep
  only where the choice, \<open>tie_done\<close> of the environment, falls on it; the other branch goes on as if the
  listener had not been stopped. The choice of one select says nothing about the next: it may change
  between any two turns (\<open>interfere\<close> below).\<close>

definition turnSleeping :: "'d listenCfg \<Rightarrow> 'd listener \<Rightarrow> ('d world, 'd listener) act" where
  "turnSleeping cfg l = (\<lambda>w.
     if lStopped l \<and> tie_done (env w) then ret (l\<lparr>lPc := Ended\<rparr>) w
     else andThen (changing (\<lambda>w. w\<lparr>env := (env w)\<lparr>clock := clock (env w) + max (lBackoff l) 0\<rparr>\<rparr>)) (\<lambda>_.
          ret (l\<lparr>lPc := Relistening\<rparr>)) w)"

definition turnRelistening :: "'d listenCfg \<Rightarrow> 'd listener \<Rightarrow> ('d world, 'd listener) act" where
  "turnRelistening cfg l =
     (let l' = l\<lparr>lBackoff := min (wrap64 (lBackoff l * 2)) (MaxBackoff (lcOpts cfg))\<rparr>
      in andThen (connExecute (lConn l) (listenSQL (lcChannel cfg)) []) (\<lambda>(n, lerr).
         if lerr = None
         then andThen (loggerLine (lConn l) ''database re-listen succeeded'') (\<lambda>_. ret (l'\<lparr>lPc := Top\<rparr>))
         else andThen (loggerLine (lConn l) ''database re-listen attempt failed'') (\<lambda>_.
              ret (l'\<lparr>lFailures := lFailures l + 1,
                      lPc := (if lcReacquire cfg \<noteq> None \<and> ReacquireAfter (lcOpts cfg) \<le> lFailures l + 1
                              then Reacquiring else Sleeping)\<rparr>))))"

definition turnReacquiring :: "'d listenCfg \<Rightarrow> 'd listener \<Rightarrow> ('d world, 'd listener) act" where
  "turnReacquiring cfg l =
     (case lcReacquire cfg of
        None \<Rightarrow> ret (l\<lparr>lPc := Sleeping\<rparr>)
      | Some reacquire \<Rightarrow>
          andThen (relistenOnFreshConn (lSession l) (lConn l) reacquire (lcChannel cfg)) (\<lambda>(ok, ses).
          if ok
          then andThen (loggerLine (lConn l) ''database re-listen succeeded on a fresh pooled connection'') (\<lambda>_.
               ret (l\<lparr>lSession := ses, lPc := Top\<rparr>))
          else ret (l\<lparr>lSession := ses, lFailures := 0, lPc := Sleeping\<rparr>)))"

definition listenTurn :: "'d listenCfg \<Rightarrow> 'd listener \<Rightarrow> ('d world, 'd listener) act" where
  "listenTurn cfg l =
     (case lPc l of
        Top \<Rightarrow> turnTop cfg l
      | Waiting \<Rightarrow> turnWaiting cfg l
      | Failed e \<Rightarrow> turnFailed cfg l
      | Sleeping \<Rightarrow> turnSleeping cfg l
      | Relistening \<Rightarrow> turnRelistening cfg l
      | Reacquiring \<Rightarrow> turnReacquiring cfg l
      | Ended \<Rightarrow> ret l
      | Crashed \<Rightarrow> ret l)"

definition running :: "'d listener \<Rightarrow> bool" where
  "running l \<longleftrightarrow> lPc l \<noteq> Ended \<and> lPc l \<noteq> Crashed"

text \<open>A turn of the goroutine: it leaves a new state, or a panic of its code ends the program.\<close>

inductive loopTurn :: "'d listenCfg \<Rightarrow> 'd listener \<times> 'd world \<Rightarrow> 'd listener \<times> 'd world \<Rightarrow> bool"
  for cfg where
  turn: "running l \<Longrightarrow> listenTurn cfg l w = (Ret l', w') \<Longrightarrow> loopTurn cfg (l, w) (l', w')"
| crash: "running l \<Longrightarrow> listenTurn cfg l w = (Panic p, w') \<Longrightarrow> loopTurn cfg (l, w) (l\<lparr>lPc := Crashed\<rparr>, w')"

inductive listenStep :: "'d listenCfg \<Rightarrow> 'd listener \<times> 'd world \<Rightarrow> 'd listener \<times> 'd world \<Rightarrow> bool"
  for cfg where
  goroutine: "loopTurn cfg x y \<Longrightarrow> listenStep cfg x y"
| closeStop: "listenStep cfg (l, w) (l\<lparr>lStopped := True\<rparr>, w)"
| interfere: "listenStep cfg (l, w) (l, w\<lparr>env := s\<rparr>)"

section \<open>Starting, stopping and notifying\<close>

definition startListener :: "'d pinned \<Rightarrow> 'd waiter \<Rightarrow> listenOptions \<Rightarrow> 'd listener" where
  "startListener c wt o1 =
     \<lparr>lPc = Top, lSession = \<lparr>sConn = pinConn c, sWaiter = wt, sRelease = None\<rparr>, lConn = pinConn c,
      lWait = wt, lBackoff = RetryDelay o1, lFailures = 0, lStopped = False, lDelivered = []\<rparr>"

text \<open>\<open>listen\<close> up to the start of the goroutine; the flag tells whether the handler is nil.\<close>

definition listen ::
  "'d pinned \<Rightarrow> string \<Rightarrow> bool \<Rightarrow> listenOptions \<Rightarrow> bool \<Rightarrow> ('d world, gerr + 'd listenCfg \<times> 'd listener) act" where
  "listen c channel handlerNil o1 reconnect = (\<lambda>w.
     case validateChannel channel of
       Some e \<Rightarrow> ret (Inl e) w
     | None \<Rightarrow>
         if handlerNil then ret (Inl (Msg ''database: listen handler must not be nil'')) w
         else (case resolveListenBackend (connR (pinConn c)) of
                 Inl e \<Rightarrow> ret (Inl e) w
               | Inr wt \<Rightarrow>
                   (case ctxErr (env w) (base (pinConn c)) of
                      Some e \<Rightarrow>
                        ret (Inl (wrapE (''database: listen '' @ Quote channel @ '': stored context is already done: '') e)) w
                    | None \<Rightarrow>
                        andThen (connExecute (pinConn c) (listenSQL channel) []) (\<lambda>(n, err).
                        ret (case err of
                               Some e \<Rightarrow> Inl (wrapE (''database: listen '' @ Quote channel @ '': '') e)
                             | None \<Rightarrow>
                                 Inr (\<lparr>lcChannel = channel, lcOpts = o1, lcReconnect = reconnect,
                                       lcReacquire = reacquireFn c\<rparr>, startListener c wt o1))) w)))"

definition Listen ::
  "'d pinned \<Rightarrow> string \<Rightarrow> bool \<Rightarrow> ('d world, gerr + 'd listenCfg \<times> 'd listener) act" where
  "Listen c channel handlerNil =
     listen c channel handlerNil \<lparr>RetryDelay = 0, MaxBackoff = 0, ReacquireAfter = 0\<rparr> False"

definition ListenWithReconnect ::
  "'d pinned \<Rightarrow> string \<Rightarrow> bool \<Rightarrow> listenOptions \<Rightarrow> ('d world, gerr + 'd listenCfg \<times> 'd listener) act" where
  "ListenWithReconnect c channel handlerNil o1 = listen c channel handlerNil (normalized o1) True"

text \<open>The function \<open>stop\<close> after it closed the stop channel and joined the goroutine.\<close>

definition afterJoin ::
  "'d pinned \<Rightarrow> 'd listenCfg \<Rightarrow> 'd listener \<Rightarrow> ('d world, gerr option \<times> 'd listener) act" where
  "afterJoin c cfg l =
     andThen (rollbackCtx (base (pinConn c)) (connO (pinConn c))) (\<lambda>uctx.
     andThen (callExec (connR (fst (current (lSession l)))) uctx (unlistenSQL (lcChannel cfg)) []) (\<lambda>(n, uerr).
     andThen (releaseReplacement (lSession l) uctx) (\<lambda>ses.
     ret (case uerr of
            Some e \<Rightarrow> Some (wrapE (''database: unlisten '' @ Quote (lcChannel cfg) @ '': '') e)
          | None \<Rightarrow> None,
          l\<lparr>lSession := ses\<rparr>))))"

text \<open>The whole of \<open>stop\<close>: close the stop channel (once; a second call finds it closed), wait for the
  goroutine, finish. The list holds what the selects of the sleeps that the goroutine still enters
  choose, \<open>True\<close> for the stop channel; where it is used up before the goroutine has ended, \<open>stop\<close> is
  still waiting and the result is \<open>None\<close>. Between two selects, and after the last, the stopped goroutine
  makes at most three turns, so that the fuel of \<open>stopFn\<close> never decides.\<close>

definition selects :: "bool \<Rightarrow> ('d world, unit) act" where
  "selects b = changing (\<lambda>w. w\<lparr>env := (env w)\<lparr>tie_done := b\<rparr>\<rparr>)"

fun joinLoop :: "nat \<Rightarrow> bool list \<Rightarrow> 'd listenCfg \<Rightarrow> 'd listener \<Rightarrow> ('d world, 'd listener option) act" where
  "joinLoop 0 bs cfg l = ret (if lPc l = Ended then Some l else None)"
| "joinLoop (Suc n) bs cfg l =
     (if lPc l = Ended then ret (Some l)
      else if lPc l = Sleeping
      then (case bs of
              [] \<Rightarrow> ret None
            | b # bs' \<Rightarrow>
                andThen (selects b) (\<lambda>_. andThen (listenTurn cfg l) (\<lambda>l'. joinLoop n bs' cfg l')))
      else andThen (listenTurn cfg l) (\<lambda>l'. joinLoop n bs cfg l'))"

definition stopFn ::
  "bool list \<Rightarrow> 'd pinned \<Rightarrow> 'd listenCfg \<Rightarrow> 'd listener
     \<Rightarrow> ('d world, (gerr option \<times> 'd listener) option) act" where
  "stopFn bs c cfg l =
     andThen (joinLoop (3 * Suc (length bs)) bs cfg (l\<lparr>lStopped := True\<rparr>)) (\<lambda>joined.
     case joined of
       None \<Rightarrow> ret None
     | Some l' \<Rightarrow> andThen (afterJoin c cfg l') (\<lambda>res. ret (Some res)))"

definition Notify :: "'d pinned \<Rightarrow> string \<Rightarrow> string \<Rightarrow> ('d world, gerr option) act" where
  "Notify c channel payload =
     (case validateChannel channel of
        Some e \<Rightarrow> ret (Some e)
      | None \<Rightarrow>
          andThen (pinnedExecute c ''SELECT pg_notify($1,$2)'' [GStr channel, GStr payload]) (\<lambda>(n, err).
          ret (case err of
                 Some e \<Rightarrow> Some (wrapE (''database: notify '' @ Quote channel @ '': '') e)
               | None \<Rightarrow> None)))"

lemma current_simps [simp]: "current ses = (sConn ses, sWaiter ses)"
  by (simp add: current_def)

end
