(* ===== verification/Emissions.thy ===== *)
theory Emissions
  imports Statements
begin

text \<open>
  Which events an action can add to the trace: \<open>emits P m\<close> says that every event of \<open>m\<close> satisfies
  \<open>P\<close>, on all its exits. The rules compose it along the structure of the actions, so that a frame
  condition of a whole statement is one application of the collection.
\<close>

named_theorems emits_intros
  \<open>composition of the events of actions\<close>

definition emits :: "(event \<Rightarrow> bool) \<Rightarrow> ('d world, 'a) act \<Rightarrow> bool" where
  "emits P m \<longleftrightarrow> (\<forall>w. \<exists>t. trace (snd (m w)) = trace w @ t \<and> list_all P t)"

lemma emitsE:
  assumes "emits P m" and "m w = (r, w')"
  obtains t where "trace w' = trace w @ t" "list_all P t"
  using assms by (metis emits_def snd_conv)

lemma emits_same:
  assumes "\<And>w. trace (snd (m w)) = trace w"
  shows "emits P m"
  using assms by (simp add: emits_def)

lemma emits_ret [emits_intros]: "emits P (ret x)"
  and emits_panic [emits_intros]: "emits P (panic p)"
  and emits_reading [emits_intros]: "emits P (reading f)"
  and emits_driver [emits_intros]: "emits P (driver g)"
  and emits_userCode [emits_intros]: "emits P (userCode h)"
  and emits_now [emits_intros]: "emits P now"
  and emits_since [emits_intros]: "emits P (since d)"
  and emits_timeout [emits_intros]: "emits P (timeout c d)"
  by (rule emits_same, simp add: act_simps)+

lemma emits_emit [emits_intros]: "P e \<Longrightarrow> emits P (emit e)"
  by (simp add: emits_def act_simps)

lemma emits_andThen [emits_intros]:
  assumes "emits P m" and "\<And>x. emits P (f x)"
  shows "emits P (andThen m f)"
  unfolding emits_def
proof
  fix w
  obtain r w1 where m: "m w = (r, w1)" by fastforce
  obtain t where t: "trace w1 = trace w @ t" "list_all P t" using emitsE [OF assms(1) m] .
  show "\<exists>t. trace (snd (andThen m f w)) = trace w @ t \<and> list_all P t"
  proof (cases r)
    case (Ret x)
    obtain r' w2 where f: "f x w1 = (r', w2)" by fastforce
    obtain t' where "trace w2 = trace w1 @ t'" "list_all P t'" using emitsE [OF assms(2) f] .
    with t Ret m f show ?thesis by (intro exI [of _ "t @ t'"]) (simp add: act_simps)
  next
    case (Panic p)
    with t m show ?thesis by (simp add: act_simps)
  qed
qed

lemma emits_recovering [emits_intros]:
  assumes "emits P m" and "\<And>p. emits P (h p)"
  shows "emits P (recovering m h)"
  unfolding emits_def
proof
  fix w
  obtain r w1 where m: "m w = (r, w1)" by fastforce
  obtain t where t: "trace w1 = trace w @ t" "list_all P t" using emitsE [OF assms(1) m] .
  show "\<exists>t. trace (snd (recovering m h w)) = trace w @ t \<and> list_all P t"
  proof (cases r)
    case (Ret x)
    with t m show ?thesis by (simp add: act_simps)
  next
    case (Panic p)
    obtain r' w2 where f: "h p w1 = (r', w2)" by fastforce
    obtain t' where "trace w2 = trace w1 @ t'" "list_all P t'" using emitsE [OF assms(2) f] .
    with t Panic m f show ?thesis by (intro exI [of _ "t @ t'"]) (simp add: act_simps)
  qed
qed

lemma emits_for_each [emits_intros]: "(\<And>x. emits P (f x)) \<Longrightarrow> emits P (for_each f xs)"
  by (induction xs) (auto intro: emits_intros)

lemma emits_only_when [emits_intros]: "emits P m \<Longrightarrow> emits P (only_when b m)"
  by (cases b) (auto intro: emits_intros)

lemma emits_if [emits_intros]: "emits P m \<Longrightarrow> emits P m' \<Longrightarrow> emits P (if b then m else m')"
  by simp

lemma emits_case_option [emits_intros]:
  "emits P m \<Longrightarrow> (\<And>x. emits P (f x)) \<Longrightarrow> emits P (case v of None \<Rightarrow> m | Some x \<Rightarrow> f x)"
  by (cases v) auto

lemma emits_case_prod [emits_intros]:
  "(\<And>x y. emits P (f x y)) \<Longrightarrow> emits P (case v of (x, y) \<Rightarrow> f x y)"
  by (cases v) auto

lemma emits_case_sum [emits_intros]:
  "(\<And>x. emits P (f x)) \<Longrightarrow> (\<And>y. emits P (g y)) \<Longrightarrow> emits P (case v of Inl x \<Rightarrow> f x | Inr y \<Rightarrow> g y)"
  by (cases v) auto

lemma emits_onCollector [emits_intros]: "emits P (onCollector mc f)"
  by (rule emits_same) (simp add: onCollector_def act_simps split: option.split)

lemma emits_deferring:
  assumes "emits P m" and "\<And>r. emits P (f r)"
  shows "emits P (deferring m f)"
  unfolding emits_def
proof
  fix w
  obtain r w1 where m: "m w = (r, w1)" by fastforce
  obtain t where t: "trace w1 = trace w @ t" "list_all P t" using emitsE [OF assms(1) m] .
  obtain r' w2 where f: "f r w1 = (r', w2)" by fastforce
  obtain t' where "trace w2 = trace w1 @ t'" "list_all P t'" using emitsE [OF assms(2) f] .
  with t m f show "\<exists>t. trace (snd (deferring m f w)) = trace w @ t \<and> list_all P t"
    by (intro exI [of _ "t @ t'"]) (simp add: deferring_def split: outcome.split)
qed

lemma emits_withSpan [emits_intros]: "emits P fn \<Longrightarrow> emits P (withSpan c operation fn)"
  unfolding withSpan_def by (intro emits_intros)

section \<open>Statements\<close>

text \<open>The events of one statement with text \<open>sql\<close> and arguments \<open>args\<close> on the connection \<open>c\<close>: a property
  that holds of the statement itself, of the hook calls made for it, of log lines and of counted
  retries holds of everything the statement adds to the trace, in each of its forms and under
  any retry policy.\<close>

locale statement_events =
  fixes P :: "event \<Rightarrow> bool" and c :: "'d conn" and sql :: string and args :: "gval list"
  assumes log: "P (LogLine msg)" and counted: "P RetryCounted"
    and before: "P (HookCall Before i (beforeInfo c op1 sql args))"
      "P (HookCtxCall Before i cx (beforeInfo c op1 sql args))"
    and after: "P (HookCall After i (afterInfo c op1 sql args d err rows))"
      "P (HookCtxCall After i cx (afterInfo c op1 sql args d err rows))"
    and call: "P (Call (runner_id (connR c)) meth cx sql args)"
begin

lemma log_events: "emits P (logWarn c msg)"
  by (auto simp: logWarn_def intro!: emits_intros log)

lemma each_hook_events:
  assumes "\<And>h. emits P (fn h)"
  shows "emits P (eachHook c fn)"
proof -
  have "emits P (for_each (\<lambda>h. recovering (fn h) (\<lambda>_. logWarn c msg)) xs)" for msg xs
    by (intro emits_intros assms log_events)
  then show ?thesis by (simp add: emits_def eachHook_def)
qed

lemma fire_events:
  "emits P (fireBeforeContext c parent op1 sql args)"
  "emits P (fireAfterContext c parent op1 sql args d err rows)"
proof -
  have "emits P (callBefore parent (beforeInfo c op1 sql args) h)" for h
    unfolding callBefore_def by (cases h) (auto intro!: emits_intros before)
  then show "emits P (fireBeforeContext c parent op1 sql args)"
    unfolding fireBeforeContext_def by (rule each_hook_events)
  have "emits P (callAfter parent (afterInfo c op1 sql args d err rows) h)" for h
    unfolding callAfter_def mcAfterHook_def by (cases h) (auto intro!: emits_intros after)
  then show "emits P (fireAfterContext c parent op1 sql args d err rows)"
    unfolding fireAfterContext_def by (rule each_hook_events)
qed

lemma call_events:
  "emits P (callExec (connR c) cx sql args)" "emits P (callQuery (connR c) cx sql args)"
  "emits P (callQueryRow (connR c) cx sql args)"
  unfolding callExec_def callQuery_def callQueryRow_def by (intro emits_intros call)+

lemma track_events: "emits P (track c start sql)"
  unfolding track_def by (intro emits_intros log_events)

lemmas part_events = log_events fire_events call_events track_events

lemma runner_events:
  "emits P (connExecuteContext c parent sql args)" "emits P (runQueryContext m1 parent c sql args)"
  "emits P (runQueryRowContext m2 parent c sql args)" "emits P (runScalarContext m3 parent c sql args)"
  unfolding connExecuteContext_def runQueryContext_def runQueryRowContext_def runScalarContext_def
  by (intro emits_intros part_events)+

lemma loop_events:
  assumes "emits P fn"
  shows "\<exists>t. trace (snd (doLoop p b fn k w)) = trace w @ t \<and> list_all P t"
  using assms
proof (induction p b fn k w rule: doLoop.induct)
  case (1 p b fn k w)
  obtain r w1 where run: "fn w = (r, w1)" by fastforce
  obtain t where t: "trace w1 = trace w @ t" "list_all P t" using emitsE [OF "1.prems" run] .
  note unfold = doLoop.simps [of p b fn k w]
  have "snd (doLoop p b fn k w) = w1 \<or> (\<exists>v e. r = Ret (v, Some e) \<and> shouldRetry p (Some e) k)"
    by (cases r) (auto simp: unfold run split: option.split)
  then consider (stop) "snd (doLoop p b fn k w) = w1"
    | (retry) v e where "r = Ret (v, Some e)" "shouldRetry p (Some e) k"
    by blast
  then show ?case
  proof cases
    case stop
    with t show ?thesis by auto
  next
    case (retry v e)
    obtain se w2 where s: "sleep p b k (retryNotice p w1) = (se, w2)" by fastforce
    obtain n where n: "trace w2 = trace w @ t @ n" "list_all P n"
      using sleep_trace [of p b k "retryNotice p w1"] t log counted by (auto simp: s retryNotice_trace)
    show ?thesis
    proof (cases se)
      case None
      from "1.IH" [OF run [symmetric] retry(1) refl refl _ s [symmetric] None "1.prems"] retry(2) obtain u where
        "trace (snd (doLoop p b fn (Suc k) w2)) = trace w2 @ u" "list_all P u"
        by blast
      with retry s None n t show ?thesis by (intro exI [of _ "t @ n @ u"]) (simp add: unfold run)
    next
      case (Some x)
      with retry s n t show ?thesis by (intro exI [of _ "t @ n"]) (simp add: unfold run)
    qed
  qed
qed

lemma retry_events: "emits P fn \<Longrightarrow> emits P (retryDo b p fn)"
  using loop_events [of fn] by (simp add: retryDo_def emits_def)

end

text \<open>What a statement adds: itself, hook calls, log lines and counted retries; never the control of a
  transaction or a connection, nor the span or the measurement of an operation.\<close>

fun ofStatement :: "event \<Rightarrow> bool" where
  "ofStatement (TxControl i m c) = False"
| "ofStatement (TxObserved r) = False"
| "ofStatement (OpObserved operation r) = False"
| "ofStatement (SpanLine s) = False"
| "ofStatement _ = True"

interpretation plain: statement_events ofStatement c sql args for c sql args
  by unfold_locales simp_all

lemma emits_loggerLine [emits_intros]: "emits ofStatement (loggerLine c msg)"
  by (auto simp: loggerLine_def intro!: emits_intros)

lemma emits_connExecute [emits_intros]:
  "emits ofStatement (connExecuteContext c parent sql args)" "emits ofStatement (connExecute c sql args)"
  unfolding connExecute_Context by (rule plain.runner_events)+

lemmas emits_reads [emits_intros] = plain.runner_events(2-4)

lemmas emits_retryDo [emits_intros] = plain.retry_events

text \<open>What a statement shows of its arguments where they are to be hidden: they reach the driver, and no hook
  in any of its four methods.\<close>

fun argsHidden :: "string \<Rightarrow> gval list \<Rightarrow> event \<Rightarrow> bool" where
  "argsHidden sql args (Call i m c sql' args') \<longleftrightarrow> sql' = sql \<and> args' = args"
| "argsHidden sql args (HookCall ph i info) \<longleftrightarrow> qiArgs info = []"
| "argsHidden sql args (HookCtxCall ph i c info) \<longleftrightarrow> qiArgs info = []"
| "argsHidden sql args _ \<longleftrightarrow> True"

lemma hiding_events: "HideQueryArgs (connO c) \<Longrightarrow> statement_events (argsHidden sql args) c sql args"
  by unfold_locales (simp_all add: beforeInfo_def afterInfo_def visibleArgs_def)

end
