(* ===== verification/Listen_Properties.thy ===== *)
theory Listen_Properties
  imports Listen Emissions Repository_Properties "HOL-Library.Multiset"
begin

text \<open>
  The properties of listeners (listen.go): the invariant of the fetch loop under every interleaving
  with \<open>stop\<close> and the rest of the program, what \<open>stop\<close> leaves behind, and that the loop ends once it
  was told to.
\<close>

section \<open>Channels and options\<close>

interpretation channel: text_guard validateChannel isWord
proof
  fix s assume "validateChannel s = None"
  then show "list_all isWord s"
    by (simp add: validateChannel_def channelRe_def match_anchored_class split: if_splits)
qed

text \<open>The statement of a validated channel has no character beside the keyword, a blank and word
  characters, so nothing can end it or begin another one.\<close>

lemma listen_statement_harmless:
  assumes "validateChannel ch = None" and "\<not> isWord c"
  shows "count_list (listenSQL ch) c = count_list ''LISTEN '' c"
    "count_list (unlistenSQL ch) c = count_list ''UNLISTEN '' c"
  using channel.no_new_delimiters [OF assms, of "''LISTEN ''" "[]"]
    channel.no_new_delimiters [OF assms, of "''UNLISTEN ''" "[]"]
  by (simp_all add: listenSQL_def unlistenSQL_def)

lemma normalized_ok:
  "0 < RetryDelay (normalized o1)" "RetryDelay (normalized o1) \<le> MaxBackoff (normalized o1)"
  "0 < ReacquireAfter (normalized o1)"
  by (auto simp: normalized_def Let_def)

section \<open>Borrowed connections\<close>

fun acquiredBy :: "event \<Rightarrow> nat list" where
  "acquiredBy (TxControl i m c) = (if m = ''Acquire'' then [i] else [])"
| "acquiredBy _ = []"

fun releasedBy :: "event \<Rightarrow> nat list" where
  "releasedBy (TxControl i m c) = (if m = ''Release'' then [i] else [])"
| "releasedBy _ = []"

definition acquired :: "event list \<Rightarrow> nat multiset" where
  "acquired t = mset (concat (map acquiredBy t))"

definition released :: "event list \<Rightarrow> nat multiset" where
  "released t = mset (concat (map releasedBy t))"

definition outstanding :: "'d listenSession \<Rightarrow> nat multiset" where
  "outstanding ses = (if sRelease ses = None then {#} else {#runner_id (connR (sConn ses))#})"

text \<open>Everything borrowed was given back, once, but for the replacement in use.\<close>

definition balanced :: "event list \<Rightarrow> 'd listenSession \<Rightarrow> bool" where
  "balanced t ses \<longleftrightarrow> acquired t = released t + outstanding ses"

lemma borrow_simps [simp]:
  "acquired [] = {#}" "released [] = {#}"
  "acquired (s @ t) = acquired s + acquired t" "released (s @ t) = released s + released t"
  "acquired (e # t) = mset (acquiredBy e) + acquired t" "released (e # t) = mset (releasedBy e) + released t"
  by (simp_all add: acquired_def released_def)

lemma statement_borrows_nothing:
  "list_all ofStatement t \<Longrightarrow> acquired t = {#} \<and> released t = {#}"
proof (induction t)
  case (Cons e t)
  then show ?case by (cases e) simp_all
qed simp

lemma giveBackIf_effect:
  "\<exists>w' t. giveBackIf ses c w = (Ret (), w') \<and> trace w' = trace w @ t
     \<and> acquired t = {#} \<and> released t = outstanding ses"
  by (cases "sRelease ses") (auto simp: giveBackIf_def giveBack_def act_simps outstanding_def)

lemma connExecute_returns:
  assumes "obsLogger (connObs c)"
  obtains n err w' t where "connExecute c sql args w = (Ret (n, err), w')" "trace w' = trace w @ t"
    "acquired t = {#}" "released t = {#}"
proof -
  obtain n err w' where r: "connExecute c sql args w = (Ret (n, err), w')"
    using exec_bracket [OF assms, of "base c" sql args w] unfolding connExecute_Context by (metis prod.collapse)
  from emitsE [OF emits_connExecute(2) r] statement_borrows_nothing r that show thesis by metis
qed

lemma loggerLine_effect:
  "\<exists>t. loggerLine c msg w = (Ret (), w\<lparr>trace := trace w @ t\<rparr>) \<and> acquired t = {#} \<and> released t = {#}"
  by (cases "obsLogger (connObs c)")
    (auto simp: loggerLine_def act_simps intro: exI [of _ "[LogLine msg]"] exI [of _ "[]"])

lemma listenFresh_returns:
  assumes "obsLogger (connObs src)"
  obtains ok w' t where "listenFresh src r1 channel w = (Ret ok, w')" "trace w' = trace w @ t"
    "acquired t = {#}" "released t = {#}"
proof (cases "resolveListenBackend r1")
  case (Inl e)
  with that [of None w "[]"] show thesis by (simp add: listenFresh_def act_simps)
next
  case (Inr wt)
  have "obsLogger (connObs (derive src r1))" using assms by simp
  then obtain n err w' t where "connExecute (derive src r1) (listenSQL channel) [] w = (Ret (n, err), w')"
    "trace w' = trace w @ t" "acquired t = {#}" "released t = {#}"
    by (rule connExecute_returns)
  with Inr that [of "if err = None then Some wt else None" w' t] show thesis
    by (simp add: listenFresh_def andThen_app ret_app)
qed

text \<open>Taking over a fresh connection moves the balance from the old replacement to the new one; a
  failed attempt gives the fresh connection back at once.\<close>

lemma relisten_effect:
  assumes log: "obsLogger (connObs src)"
  shows "\<exists>ok ses' w' t. relistenOnFreshConn ses src reacquire channel w = (Ret (ok, ses'), w')
     \<and> trace w' = trace w @ t \<and> acquired t + outstanding ses = released t + outstanding ses'
     \<and> (ses' = ses \<or> (sRelease ses' \<noteq> None \<and> (\<exists>r1. sConn ses' = derive src r1)))"
proof -
  let ?cc = "WithDeadline (base src) (clock (env w) + ConnectionTimeout (connO src))"
  obtain r s where acq: "reacquire ?cc (env w) = (r, s)" by fastforce
  show ?thesis
  proof (cases r)
    case (Inl e)
    with acq loggerLine_effect [of src "''database re-listen: acquiring a fresh connection failed''" "w\<lparr>env := s\<rparr>"]
    show ?thesis by (auto simp: relistenOnFreshConn_def act_simps)
  next
    case (Inr p)
    then obtain r1 rel where p: "r = Inr (r1, rel)" by (cases p) auto
    let ?w1 = "w\<lparr>env := s, trace := trace w @ [TxControl (runner_id r1) ''Acquire'' ?cc]\<rparr>"
    obtain ok w2 t where t: "listenFresh src r1 channel ?w1 = (Ret ok, w2)" "trace w2 = trace ?w1 @ t"
      "acquired t = {#}" "released t = {#}"
      using listenFresh_returns [OF log] .
    have run: "relistenOnFreshConn ses src reacquire channel w =
       (case ok of
          None \<Rightarrow>
            andThen (giveBack (runner_id r1) rel ?cc) (\<lambda>_.
            andThen (loggerLine src ''database re-listen on a fresh connection failed'') (\<lambda>_. ret (False, ses))) w2
        | Some wt \<Rightarrow> andThen (swap ses ?cc (derive src r1) wt rel) (\<lambda>ses'. ret (True, ses')) w2)"
      using t(1) acq p by (simp add: relistenOnFreshConn_def act_simps split: option.split)
    show ?thesis
    proof (cases ok)
      case None
      let ?w3 = "w2\<lparr>trace := trace w2 @ [TxControl (runner_id r1) ''Release'' ?cc], env := snd (rel ?cc (env w2))\<rparr>"
      obtain t' where "loggerLine src ''database re-listen on a fresh connection failed'' ?w3
          = (Ret (), ?w3\<lparr>trace := trace ?w3 @ t'\<rparr>)" "acquired t' = {#}" "released t' = {#}"
        using loggerLine_effect by blast
      with run None t(2-4) show ?thesis
        by (intro exI [of _ False] exI [of _ ses] exI [of _ "?w3\<lparr>trace := trace ?w3 @ t'\<rparr>"]
            exI [of _ "[TxControl (runner_id r1) ''Acquire'' ?cc] @ t @ [TxControl (runner_id r1) ''Release'' ?cc] @ t'"])
          (simp add: giveBack_def act_simps)
    next
      case (Some wt)
      obtain w3 t' where "giveBackIf ses ?cc w2 = (Ret (), w3)" "trace w3 = trace w2 @ t'"
        "acquired t' = {#}" "released t' = outstanding ses"
        using giveBackIf_effect by blast
      with run Some t(2-4) show ?thesis
        by (intro exI [of _ True] exI [of _ "\<lparr>sConn = derive src r1, sWaiter = wt, sRelease = Some rel\<rparr>"]
            exI [of _ w3] exI [of _ "[TxControl (runner_id r1) ''Acquire'' ?cc] @ t @ t'"])
          (auto simp: swap_def andThen_app ret_app outstanding_def)
    qed
  qed
qed

section \<open>The invariant of the loop\<close>

definition goodOptions :: "listenOptions \<Rightarrow> bool" where
  "goodOptions o1 \<longleftrightarrow> 0 < RetryDelay o1 \<and> RetryDelay o1 \<le> MaxBackoff o1 \<and> MaxBackoff o1 < 2 ^ 62
     \<and> 0 < ReacquireAfter o1"

text \<open>The delay before the attempt number \<open>k\<close> of a series.\<close>

definition capped :: "listenOptions \<Rightarrow> nat \<Rightarrow> int" where
  "capped o1 k = min (RetryDelay o1 * 2 ^ k) (MaxBackoff o1)"

definition listenInv :: "'d listenCfg \<Rightarrow> 'd listener \<Rightarrow> event list \<Rightarrow> bool" where
  "listenInv cfg l t \<longleftrightarrow>
     lPc l \<noteq> Crashed \<and> obsLogger (connObs (sConn (lSession l))) \<and> obsLogger (connObs (lConn l))
     \<and> balanced t (lSession l) \<and> (\<exists>k. lBackoff l = capped (lcOpts cfg) k)
     \<and> 0 \<le> lFailures l
     \<and> (lcReacquire cfg \<noteq> None \<longrightarrow> lPc l = Sleeping \<or> lPc l = Relistening \<longrightarrow> lFailures l < ReacquireAfter (lcOpts cfg))"

lemma capped_0: "goodOptions o1 \<Longrightarrow> RetryDelay o1 = capped o1 0"
  by (simp add: capped_def goodOptions_def)

lemma capped_Suc:
  assumes "goodOptions o1"
  shows "min (wrap64 (capped o1 k * 2)) (MaxBackoff o1) = capped o1 (Suc k)"
proof -
  have R: "0 < RetryDelay o1" "0 < MaxBackoff o1" "MaxBackoff o1 < 2 ^ 62"
    using assms by (auto simp: goodOptions_def)
  then have "0 < RetryDelay o1 * 2 ^ k" by simp
  with R have "0 < capped o1 k" "capped o1 k < 2 ^ 62" by (auto simp: capped_def)
  then have "wrap64 (capped o1 k * 2) = capped o1 k * 2" by (simp add: in64_def)
  with R show ?thesis by (auto simp: capped_def min_def)
qed

lemma capped_bounds:
  assumes "goodOptions o1"
  shows "RetryDelay o1 \<le> capped o1 k" "capped o1 k \<le> MaxBackoff o1"
proof -
  have "RetryDelay o1 * 1 \<le> RetryDelay o1 * 2 ^ k"
    using assms by (intro mult_left_mono) (auto simp: goodOptions_def)
  then show "RetryDelay o1 \<le> capped o1 k" "capped o1 k \<le> MaxBackoff o1"
    using assms by (auto simp: capped_def goodOptions_def)
qed

lemma balanced_quiet:
  "acquired t' = {#} \<Longrightarrow> released t' = {#} \<Longrightarrow> balanced t ses \<Longrightarrow> balanced (t @ t') ses"
  by (simp add: balanced_def)

text \<open>What a turn has to deliver, and that logging is no obstacle to it.\<close>

definition turnKeeps :: "'d listenCfg \<Rightarrow> event list \<Rightarrow> 'd world \<Rightarrow> 'd listener outcome \<times> 'd world \<Rightarrow> bool" where
  "turnKeeps cfg t w res \<longleftrightarrow>
     (\<exists>l' w' t'. res = (Ret l', w') \<and> trace w' = trace w @ t' \<and> listenInv cfg l' (t @ t'))"

lemma turnKeeps_ret: "listenInv cfg l t \<Longrightarrow> turnKeeps cfg t w (ret l w)"
  by (auto simp: turnKeeps_def act_simps intro: exI [of _ "[]"])

lemma turnKeeps_quiet:
  assumes "m w = (Ret x, w')" and "trace w' = trace w @ t'" and "acquired t' = {#}" "released t' = {#}"
    and "turnKeeps cfg (t @ t') w' (f x w')"
  shows "turnKeeps cfg t w (andThen m f w)"
  using assms by (fastforce simp: turnKeeps_def andThen_app)

lemma turnKeeps_log:
  assumes "listenInv cfg l t"
  shows "turnKeeps cfg t w (andThen (loggerLine c msg) (\<lambda>_. ret l) w)"
proof -
  obtain t' where t': "loggerLine c msg w = (Ret (), w\<lparr>trace := trace w @ t'\<rparr>)" "acquired t' = {#}" "released t' = {#}"
    using loggerLine_effect by blast
  show ?thesis
    by (rule turnKeeps_quiet [where t' = t'], rule t'(1))
      (use assms t' in \<open>auto intro!: turnKeeps_ret simp: listenInv_def balanced_quiet\<close>)
qed

lemma turnTop_keeps:
  assumes "listenInv cfg l t"
  shows "turnKeeps cfg t w (turnTop cfg l w)"
  using assms
  by (auto simp: turnTop_def Let_def listenInv_def intro!: turnKeeps_log turnKeeps_ret)

lemma turnWaiting_keeps:
  assumes "listenInv cfg l t" and "goodOptions (lcOpts cfg)"
  shows "turnKeeps cfg t w (turnWaiting cfg l w)"
proof -
  let ?cc = "WithDeadline (base (lConn l)) (clock (env w) + notifyTick)"
  obtain n err s where d: "lWait l ?cc (env w) = ((n, err), s)" by (metis surj_pair)
  define l' where "l' = (case err of
            None \<Rightarrow>
              l\<lparr>lDelivered := lDelivered l @ (case n of None \<Rightarrow> [] | Some payload \<Rightarrow> [payload]),
                lBackoff := RetryDelay (lcOpts cfg), lPc := Top\<rparr>
          | Some e \<Rightarrow>
              if errIs e DeadlineExceeded \<or> errIs e Canceled then l\<lparr>lPc := Top\<rparr>
              else l\<lparr>lPc := Failed e\<rparr>)"
  have "turnWaiting cfg l w = (Ret l', w\<lparr>env := s\<rparr>)"
    by (simp add: turnWaiting_def act_simps d l'_def)
  moreover have "listenInv cfg l' t"
    using assms capped_0 [OF assms(2)] by (auto simp: l'_def listenInv_def split: option.split)
  ultimately show ?thesis
    by (auto simp: turnKeeps_def intro: exI [of _ "[]"])
qed

lemma turnFailed_keeps:
  assumes "listenInv cfg l t" and "goodOptions (lcOpts cfg)"
  shows "turnKeeps cfg t w (turnFailed cfg l w)"
  using assms
  by (auto simp: turnFailed_def listenInv_def goodOptions_def intro!: turnKeeps_log turnKeeps_ret)

lemma turnSleeping_keeps:
  assumes "listenInv cfg l t" and "lPc l = Sleeping"
  shows "turnKeeps cfg t w (turnSleeping cfg l w)"
proof (cases "lStopped l \<and> tie_done (env w)")
  case True
  with assms show ?thesis by (auto simp: turnSleeping_def listenInv_def intro!: turnKeeps_ret)
next
  case False
  then have s: "turnSleeping cfg l w = andThen (changing (\<lambda>w. w\<lparr>env := (env w)\<lparr>clock := clock (env w) + max (lBackoff l) 0\<rparr>\<rparr>))
     (\<lambda>_. ret (l\<lparr>lPc := Relistening\<rparr>)) w" by (auto simp: turnSleeping_def)
  show ?thesis
    unfolding s by (rule turnKeeps_quiet [where t' = "[]"], rule changing_app)
      (use assms in \<open>auto simp: listenInv_def intro!: turnKeeps_ret\<close>)
qed

lemma turnRelistening_keeps:
  assumes inv: "listenInv cfg l t" and pc: "lPc l = Relistening" and good: "goodOptions (lcOpts cfg)"
  shows "turnKeeps cfg t w (turnRelistening cfg l w)"
proof -
  have "obsLogger (connObs (lConn l))" using inv by (simp add: listenInv_def)
  then obtain n err w' t' where e: "connExecute (lConn l) (listenSQL (lcChannel cfg)) [] w = (Ret (n, err), w')"
    "trace w' = trace w @ t'" "acquired t' = {#}" "released t' = {#}"
    by (rule connExecute_returns)
  obtain k where "lBackoff l = capped (lcOpts cfg) k" using inv by (auto simp: listenInv_def)
  then have b: "\<exists>k. min (wrap64 (lBackoff l * 2)) (MaxBackoff (lcOpts cfg)) = capped (lcOpts cfg) k"
    using capped_Suc [OF good] by auto
  show ?thesis
    unfolding turnRelistening_def Let_def
    by (rule turnKeeps_quiet [where t' = t'], rule e(1), rule e(2), rule e(3), rule e(4))
      (use inv pc b e(3,4) in \<open>auto simp: listenInv_def balanced_quiet intro!: turnKeeps_log\<close>)
qed

lemma turnReacquiring_keeps:
  assumes inv: "listenInv cfg l t" and good: "goodOptions (lcOpts cfg)"
  shows "turnKeeps cfg t w (turnReacquiring cfg l w)"
proof (cases "lcReacquire cfg")
  case None
  with inv show ?thesis by (auto simp: turnReacquiring_def listenInv_def intro!: turnKeeps_ret)
next
  case (Some reacquire)
  have "obsLogger (connObs (lConn l))" using inv by (simp add: listenInv_def)
  from relisten_effect [OF this] obtain ok ses w' t' where
    r: "relistenOnFreshConn (lSession l) (lConn l) reacquire (lcChannel cfg) w = (Ret (ok, ses), w')"
      "trace w' = trace w @ t'"
    and bal: "acquired t' + outstanding (lSession l) = released t' + outstanding ses"
    and ses: "ses = lSession l \<or> (sRelease ses \<noteq> None \<and> (\<exists>r1. sConn ses = derive (lConn l) r1))"
    by blast
  have keeps: "listenInv cfg (l\<lparr>lSession := ses, lPc := Top\<rparr>) (t @ t')"
    "listenInv cfg (l\<lparr>lSession := ses, lFailures := 0, lPc := Sleeping\<rparr>) (t @ t')"
    using inv bal ses good by (auto simp: listenInv_def balanced_def goodOptions_def ac_simps)
  have "turnKeeps cfg (t @ t') w' ((case (ok, ses) of (ok, ses) \<Rightarrow>
      if ok then andThen (loggerLine (lConn l) ''database re-listen succeeded on a fresh pooled connection'') (\<lambda>_.
               ret (l\<lparr>lSession := ses, lPc := Top\<rparr>))
      else ret (l\<lparr>lSession := ses, lFailures := 0, lPc := Sleeping\<rparr>)) w')"
    using keeps by (auto intro!: turnKeeps_log turnKeeps_ret)
  with r Some show ?thesis
    by (fastforce simp: turnReacquiring_def turnKeeps_def andThen_app)
qed

lemma listenTurn_keeps:
  assumes "listenInv cfg l t" and "goodOptions (lcOpts cfg)"
  shows "turnKeeps cfg t w (listenTurn cfg l w)"
  using assms
  by (cases "lPc l")
    (simp_all add: listenTurn_def turnTop_keeps turnWaiting_keeps turnFailed_keeps turnSleeping_keeps
      turnRelistening_keeps turnReacquiring_keeps turnKeeps_ret)

inductive_cases loopTurnE: "loopTurn cfg (l, w) y"
inductive_cases listenStepE: "listenStep cfg (l, w) y"

lemma loopTurn_keeps:
  assumes "loopTurn cfg (l, w) (l', w')" and "listenInv cfg l t" and "goodOptions (lcOpts cfg)"
  shows "\<exists>t'. trace w' = trace w @ t' \<and> listenInv cfg l' (t @ t')"
  using assms(1) listenTurn_keeps [OF assms(2,3), of w]
  by (auto simp: turnKeeps_def elim!: loopTurnE)

lemma reachable_inv:
  assumes "(listenStep cfg)\<^sup>*\<^sup>* (l0, w0) (l, w)" and "listenInv cfg l0 []" and good: "goodOptions (lcOpts cfg)"
  shows "\<exists>t. trace w = trace w0 @ t \<and> listenInv cfg l t"
  using assms(1)
proof (induction rule: rtranclp_induct2)
  case refl
  with assms(2) show ?case by simp
next
  case (step l1 w1 l2 w2)
  then obtain t where t: "trace w1 = trace w0 @ t" "listenInv cfg l1 t" by blast
  from step.hyps(2) show ?case
  proof (rule listenStepE)
    assume "loopTurn cfg (l1, w1) (l2, w2)"
    from loopTurn_keeps [OF this t(2) good] t(1) show ?thesis by auto
  qed (use t in \<open>auto simp: listenInv_def\<close>)
qed

lemma start_inv:
  assumes "obsLogger (connObs (pinConn c))" and "goodOptions (lcOpts cfg)"
  shows "listenInv cfg (startListener c wt (lcOpts cfg)) []"
  using assms capped_0 [OF assms(2)]
  by (auto simp: listenInv_def startListener_def balanced_def outstanding_def)

text \<open>C30: whatever the server does and however its turns interleave with the rest of the program, a
  listener with reconnect never crashes, and holds at most one borrowed connection: every connection
  it took from the pool has been given back exactly once, except the replacement it is using. Its
  backoff is the initial delay doubled some number of times and cut off at \<open>MaxBackoff\<close>.\<close>
theorem listener_invariant:
  assumes "lcOpts cfg = normalized o1" and "MaxBackoff (normalized o1) < 2 ^ 62"
    and "obsLogger (connObs (pinConn c))"
    and "(listenStep cfg)\<^sup>*\<^sup>* (startListener c wt (normalized o1), w0) (l, w)"
  shows "lPc l \<noteq> Crashed
    \<and> (\<exists>t. trace w = trace w0 @ t \<and> acquired t = released t + outstanding (lSession l))
    \<and> (\<exists>k. lBackoff l = min (RetryDelay (normalized o1) * 2 ^ k) (MaxBackoff (normalized o1)))
    \<and> RetryDelay (normalized o1) \<le> lBackoff l \<and> lBackoff l \<le> MaxBackoff (normalized o1)"
proof -
  have good: "goodOptions (lcOpts cfg)"
    using assms(1,2) normalized_ok [of o1] by (simp add: goodOptions_def)
  from reachable_inv [OF assms(4) [folded assms(1)] start_inv [OF assms(3) good] good]
  obtain t where "trace w = trace w0 @ t" "listenInv cfg l t" by blast
  then show ?thesis
    using capped_bounds [OF good] unfolding listenInv_def balanced_def assms(1) capped_def by auto
qed

section \<open>The loop ends\<close>

text \<open>A select that went on with the expired timer although the stop channel was closed.\<close>

definition selectLost :: "'d listener \<Rightarrow> 'd listener \<Rightarrow> bool" where
  "selectLost l l' \<longleftrightarrow> lStopped l \<and> lPc l = Sleeping \<and> lPc l' = Relistening"


fun turnsLeft :: "listenPc \<Rightarrow> nat" where
  "turnsLeft Top = 1"
| "turnsLeft Waiting = 2"
| "turnsLeft (Failed e) = 1"
| "turnsLeft Sleeping = 1"
| "turnsLeft Relistening = 3"
| "turnsLeft Reacquiring = 2"
| "turnsLeft Ended = 0"
| "turnsLeft Crashed = 0"

lemma turnsLeft_bound: "turnsLeft pc \<le> 3"
  by (cases pc) auto

lemmas turn_defs = turnTop_def turnWaiting_def turnFailed_def turnSleeping_def turnRelistening_def
  turnReacquiring_def

lemma listenTurn_progress:
  assumes "lStopped l" and "running l" and "listenTurn cfg l w = (Ret l', w')"
  shows "lStopped l' \<and> turnsLeft (lPc l') < turnsLeft (lPc l) + (if selectLost l l' then 3 else 0)"
  using assms
  by (cases "lPc l")
    (auto simp: listenTurn_def turn_defs act_simps Let_def running_def selectLost_def
      split: prod.splits outcome.splits option.splits if_splits)





section \<open>Stopping\<close>

lemma afterJoin_effect:
  "\<exists>uctx e w' t'. afterJoin c cfg l w = (Ret (e, l\<lparr>lSession := (lSession l)\<lparr>sRelease := None\<rparr>\<rparr>), w')
     \<and> trace w' = trace w @ Call (runner_id (connR (sConn (lSession l)))) ''Exec'' uctx (unlistenSQL (lcChannel cfg)) [] # t'
     \<and> acquired t' = {#} \<and> released t' = outstanding (lSession l)"
proof -
  obtain uctx where u: "rollbackCtx (base (pinConn c)) (connO (pinConn c)) w = (Ret uctx, w)"
    by (cases "ctxErr (env w) (base (pinConn c)) = None") (auto simp: rollbackCtx_def act_simps)
  obtain n uerr s where x: "rExec (connR (sConn (lSession l))) uctx (unlistenSQL (lcChannel cfg)) [] (env w) = ((n, uerr), s)"
    by (metis surj_pair)
  let ?w = "w\<lparr>trace := trace w @ [Call (runner_id (connR (sConn (lSession l)))) ''Exec'' uctx (unlistenSQL (lcChannel cfg)) []], env := s\<rparr>"
  obtain w' t' where "giveBackIf (lSession l) uctx ?w = (Ret (), w')" "trace w' = trace ?w @ t'"
    "acquired t' = {#}" "released t' = outstanding (lSession l)"
    using giveBackIf_effect by blast
  with u x show ?thesis
    by (auto simp: afterJoin_def callExec_def releaseReplacement_def act_simps)
qed

lemma joinLoop_turn:
  assumes "listenInv cfg l t" and "goodOptions (lcOpts cfg)" and "lStopped l" and "lPc l \<noteq> Ended"
  obtains l1 w1 t1 where "listenTurn cfg l w = (Ret l1, w1)" "trace w1 = trace w @ t1" "listenInv cfg l1 (t @ t1)"
    "lStopped l1" "turnsLeft (lPc l1) < turnsLeft (lPc l) + (if selectLost l l1 then 3 else 0)"
proof -
  from listenTurn_keeps [OF assms(1,2), of w]
  obtain l1 w1 t1 where turn: "listenTurn cfg l w = (Ret l1, w1)" "trace w1 = trace w @ t1" "listenInv cfg l1 (t @ t1)"
    by (auto simp: turnKeeps_def)
  moreover have "running l" using assms(1,4) by (simp add: running_def listenInv_def)
  ultimately show thesis using listenTurn_progress [OF assms(3) _ turn(1)] that by blast
qed

text \<open>With fuel for every select the join ends, and it fails to see the end of the goroutine only where every
  one of the selects was lost.\<close>

lemma joinLoop_ends:
  assumes "listenInv cfg l t" and "goodOptions (lcOpts cfg)" and "lStopped l"
    and "turnsLeft (lPc l) + 3 * length bs \<le> n"
  shows "\<exists>r w' t'. joinLoop n bs cfg l w = (Ret r, w') \<and> trace w' = trace w @ t'
     \<and> (True \<in> set bs \<longrightarrow> r \<noteq> None) \<and> (\<forall>l'. r = Some l' \<longrightarrow> lPc l' = Ended \<and> listenInv cfg l' (t @ t'))"
  using assms(1,3,4)
proof (induction n arbitrary: l w t bs)
  case 0
  then have "lPc l = Ended" by (cases "lPc l") (auto simp: listenInv_def)
  with 0 show ?case by (auto simp: act_simps intro: exI [of _ "[]"])
next
  case (Suc n)
  show ?case
  proof (cases "lPc l = Ended \<or> lPc l = Sleeping \<and> bs = []")
    case True
    with Suc.prems show ?thesis by (auto simp: act_simps intro: exI [of _ "[]"])
  next
    case False
    define w0 where "w0 = (if lPc l = Sleeping then w\<lparr>env := (env w)\<lparr>tie_done := hd bs\<rparr>\<rparr> else w)"
    define bs0 where "bs0 = (if lPc l = Sleeping then tl bs else bs)"
    have "lPc l \<noteq> Ended" "trace w0 = trace w" using False by (auto simp: w0_def)
    with joinLoop_turn [OF Suc.prems(1) assms(2) Suc.prems(2), of w0]
    obtain l1 w1 t1 where turn: "listenTurn cfg l w0 = (Ret l1, w1)"
      and w1: "trace w1 = trace w @ t1" "listenInv cfg l1 (t @ t1)" "lStopped l1"
      and p: "turnsLeft (lPc l1) < turnsLeft (lPc l) + (if selectLost l l1 then 3 else 0)"
      by metis
    have step: "joinLoop (Suc n) bs cfg l w = joinLoop n bs0 cfg l1 w1"
      using False turn by (auto simp: w0_def bs0_def selects_def act_simps split: list.splits)
    have "turnsLeft (lPc l1) + 3 * length bs0 \<le> n"
      using p Suc.prems(3) False by (cases bs) (auto simp: bs0_def selectLost_def split: if_splits)
    from Suc.IH [OF w1(2,3) this, of w1] obtain r w' t' where
      r: "joinLoop n bs0 cfg l1 w1 = (Ret r, w')" "trace w' = trace w1 @ t'"
      "True \<in> set bs0 \<longrightarrow> r \<noteq> None" "\<forall>l'. r = Some l' \<longrightarrow> lPc l' = Ended \<and> listenInv cfg l' ((t @ t1) @ t')"
      by blast
    have "r \<noteq> None" if b: "True \<in> set bs" "True \<notin> set bs0"
    proof -
      from b have "lPc l = Sleeping" "hd bs" by (cases bs; auto simp: bs0_def split: if_splits)+
      with turn Suc.prems(2) have "lPc l1 = Ended"
        by (auto simp: w0_def listenTurn_def turnSleeping_def act_simps)
      with r(1) show ?thesis by (cases n) (auto simp: act_simps)
    qed
    with step r w1(1) show ?thesis by (intro exI [of _ r] exI [of _ w'] exI [of _ "t1 @ t'"]) auto
  qed
qed

lemma afterJoin_settles:
  assumes "trace w = trace w0 @ t" "acquired t = released t + outstanding (lSession l)"
  shows "\<exists>e l' w' t. afterJoin c cfg l w = (Ret (e, l'), w') \<and> trace w' = trace w0 @ t
    \<and> acquired t = released t \<and> lPc l' = lPc l \<and> sRelease (lSession l') = None
    \<and> (\<exists>uctx. Call (runner_id (connR (sConn (lSession l)))) ''Exec'' uctx (unlistenSQL (lcChannel cfg)) [] \<in> set t)
    \<and> (\<forall>w2. \<exists>e2 w3 t2. afterJoin c cfg l' w2 = (Ret (e2, l'), w3) \<and> trace w3 = trace w2 @ t2 \<and> released t2 = {#})"
proof -
  from afterJoin_effect [of c cfg l w] obtain uctx e w' t' where
    "afterJoin c cfg l w = (Ret (e, l\<lparr>lSession := (lSession l)\<lparr>sRelease := None\<rparr>\<rparr>), w')"
    "trace w' = trace w @ Call (runner_id (connR (sConn (lSession l)))) ''Exec'' uctx (unlistenSQL (lcChannel cfg)) [] # t'"
    "acquired t' = {#}" "released t' = outstanding (lSession l)" by blast
  moreover have "\<exists>e2 w3 t2. afterJoin c cfg (l\<lparr>lSession := (lSession l)\<lparr>sRelease := None\<rparr>\<rparr>) w2
      = (Ret (e2, l\<lparr>lSession := (lSession l)\<lparr>sRelease := None\<rparr>\<rparr>), w3) \<and> trace w3 = trace w2 @ t2 \<and> released t2 = {#}" for w2
    using afterJoin_effect [of c cfg "l\<lparr>lSession := (lSession l)\<lparr>sRelease := None\<rparr>\<rparr>" w2] by (fastforce simp: outstanding_def)
  ultimately show ?thesis
    using assms by (intro exI [of _ e] exI [of _ "l\<lparr>lSession := (lSession l)\<lparr>sRelease := None\<rparr>\<rparr>"] exI [of _ w']
        exI [of _ "t @ Call (runner_id (connR (sConn (lSession l)))) ''Exec'' uctx (unlistenSQL (lcChannel cfg)) [] # t'"])
      auto
qed

text \<open>C31: \<open>stop\<close> leaves nothing borrowed, and returns as soon as the goroutine sees the closed stop channel.
  Called in any state the listener can reach, and whatever the selects of the goroutine choose, it does
  not panic; it returns when one of them takes the stop channel, and then the goroutine has
  ended and every connection the listener took from the pool has been given back exactly once. Whatever
  else happens between the closing of the stop channel and the end of the goroutine, what \<open>stop\<close> does
  after the join sends UNLISTEN to the connection in use and gives back what is still borrowed; a
  second call gives nothing back again.\<close>
theorem stop_returns_all:
  assumes "lcOpts cfg = normalized o1" and "MaxBackoff (normalized o1) < 2 ^ 62"
    and "obsLogger (connObs (pinConn c))"
    and "(listenStep cfg)\<^sup>*\<^sup>* (startListener c wt (normalized o1), w0) (l, w)"
  shows "(\<exists>r w' t. stopFn bs c cfg l w = (Ret r, w') \<and> trace w' = trace w0 @ t \<and> (True \<in> set bs \<longrightarrow> r \<noteq> None)
      \<and> (\<forall>e l'. r = Some (e, l') \<longrightarrow>
           lPc l' = Ended \<and> acquired t = released t \<and> sRelease (lSession l') = None))
    \<and> (\<exists>e l' w' t. afterJoin c cfg l w = (Ret (e, l'), w') \<and> trace w' = trace w0 @ t
    \<and> acquired t = released t \<and> lPc l' = lPc l \<and> sRelease (lSession l') = None
    \<and> (\<exists>uctx. Call (runner_id (connR (sConn (lSession l)))) ''Exec'' uctx (unlistenSQL (lcChannel cfg)) [] \<in> set t)
    \<and> (\<forall>w2. \<exists>e2 w3 t2. afterJoin c cfg l' w2 = (Ret (e2, l'), w3) \<and> trace w3 = trace w2 @ t2 \<and> released t2 = {#}))"
proof -
  have good: "goodOptions (lcOpts cfg)"
    using assms(1,2) normalized_ok [of o1] by (simp add: goodOptions_def)
  from reachable_inv [OF assms(4) [folded assms(1)] start_inv [OF assms(3) good] good]
  obtain t where inv: "listenInv cfg l t" and t: "trace w = trace w0 @ t" by blast
  then have "listenInv cfg (l\<lparr>lStopped := True\<rparr>) t" by (simp add: listenInv_def)
  moreover have "turnsLeft (lPc (l\<lparr>lStopped := True\<rparr>)) + 3 * length bs \<le> 3 * Suc (length bs)"
    using turnsLeft_bound [of "lPc l"] by simp
  ultimately obtain r w1 t1 where
    j: "joinLoop (3 * Suc (length bs)) bs cfg (l\<lparr>lStopped := True\<rparr>) w = (Ret r, w1)" "trace w1 = trace w @ t1"
    "True \<in> set bs \<longrightarrow> r \<noteq> None" "\<forall>l'. r = Some l' \<longrightarrow> lPc l' = Ended \<and> listenInv cfg l' (t @ t1)"
    using joinLoop_ends [of cfg "l\<lparr>lStopped := True\<rparr>" t bs "3 * Suc (length bs)" w] good by auto
  have "acquired t = released t + outstanding (lSession l)"
    using inv unfolding listenInv_def balanced_def by blast
  note after = afterJoin_settles [OF t this, of c cfg]
  have "\<exists>r w' t. stopFn bs c cfg l w = (Ret r, w') \<and> trace w' = trace w0 @ t \<and> (True \<in> set bs \<longrightarrow> r \<noteq> None)
      \<and> (\<forall>e l'. r = Some (e, l') \<longrightarrow> lPc l' = Ended \<and> acquired t = released t \<and> sRelease (lSession l') = None)"
  proof (cases r)
    case None
    with j t show ?thesis
      by (intro exI [of _ None] exI [of _ w1] exI [of _ "t @ t1"]) (simp add: stopFn_def act_simps)
  next
    case (Some l1)
    with j(4) have "lPc l1 = Ended" "acquired (t @ t1) = released (t @ t1) + outstanding (lSession l1)"
      unfolding listenInv_def balanced_def by blast+
    with afterJoin_settles [OF _ this(2), of w1 w0 c cfg] j(2) t obtain e l' w' t' where
      "afterJoin c cfg l1 w1 = (Ret (e, l'), w')" "trace w' = trace w0 @ t'" "acquired t' = released t'"
      "lPc l' = Ended" "sRelease (lSession l') = None" by auto
    with j(1) Some show ?thesis
      by (intro exI [of _ "Some (e, l')"] exI [of _ w'] exI [of _ t']) (simp add: stopFn_def act_simps)
  qed
  with after show ?thesis by blast
qed

section \<open>A listener at work\<close>

text \<open>A connection on which every LISTEN and every wait fails, and a pool that lends a working one.\<close>

definition deafRunner :: "nat \<Rightarrow> gerr option \<Rightarrow> unit runner" where
  "deafRunner i err = Runner i (\<lambda>c sql args s. ((0, err), s)) (\<lambda>c sql args s. ((0, None), s))
     (\<lambda>c sql args s. (0, s)) None None None None (Some (\<lambda>c s. ((None, err), s))) None"

definition lossyPinned :: "unit pinned" where
  "lossyPinned =
     \<lparr>pinConn = \<lparr>connR = deafRunner 1 (Some (Msg ''broken pipe'')), connO = sampleOptions, connCtx = Background,
                 connHooks = None, connOps = None, connObs = newObservability\<rparr>,
      closeFn = None, beginFn = (\<lambda>c s. (Inl (Msg ''none''), s)),
      reacquireFn = Some (\<lambda>c s. (Inr (deafRunner 2 None, \<lambda>c s. (None, s)), s))\<rparr>"

definition eagerOptions :: listenOptions where
  "eagerOptions = \<lparr>RetryDelay = Second, MaxBackoff = Minute, ReacquireAfter = 1\<rparr>"

definition lossyCfg :: "unit listenCfg" where
  "lossyCfg = \<lparr>lcChannel = ''jobs'', lcOpts = normalized eagerOptions, lcReconnect = True,
     lcReacquire = reacquireFn lossyPinned\<rparr>"

definition lossyStart :: "unit listener \<times> unit world" where
  "lossyStart = (startListener lossyPinned (\<lambda>c s. ((None, Some (Msg ''broken pipe'')), s)) (normalized eagerOptions),
     sampleWorld [] ())"

fun runTurns :: "'d listenCfg \<Rightarrow> nat \<Rightarrow> 'd listener \<times> 'd world \<Rightarrow> 'd listener \<times> 'd world" where
  "runTurns cfg 0 x = x"
| "runTurns cfg (Suc n) (l, w) =
     (case listenTurn cfg l w of (Ret l', w') \<Rightarrow> runTurns cfg n (l', w') | (Panic p, w') \<Rightarrow> (l, w))"

lemma runTurns_reach: "(listenStep cfg)\<^sup>*\<^sup>* x (runTurns cfg n x)"
proof (induction cfg n x rule: runTurns.induct)
  case (2 cfg n l w)
  show ?case
  proof (cases "running l")
    case True
    obtain r w' where t: "listenTurn cfg l w = (r, w')" by fastforce
    show ?thesis
    proof (cases r)
      case (Ret l')
      have "listenStep cfg (l, w) (l', w')"
        using True t Ret by (auto intro: goroutine loopTurn.turn)
      moreover have "(listenStep cfg)\<^sup>*\<^sup>* (l', w') (runTurns cfg n (l', w'))" using 2 t Ret by simp
      ultimately show ?thesis using t Ret by (simp add: converse_rtranclp_into_rtranclp)
    qed (use t in simp)
  next
    case False
    then have "listenTurn cfg l w = (Ret l, w)"
      by (auto simp: running_def listenTurn_def act_simps)
    with 2 show ?thesis by simp
  qed
qed simp

lemma lossy_simps [simp]:
  "lcOpts lossyCfg = normalized eagerOptions" "obsLogger (connObs (pinConn lossyPinned))"
  "MaxBackoff (normalized eagerOptions) < 2 ^ 62"
  by (simp_all add: lossyCfg_def lossyPinned_def normalized_def eagerOptions_def newObservability_def)

text \<open>After six turns this listener works on the borrowed connection.\<close>

lemma lossy_replaced: "sRelease (lSession (fst (runTurns lossyCfg 6 lossyStart))) \<noteq> None"
  by code_simp

theorem listener_invariant_witness:
  "let (l, w) = runTurns lossyCfg 6 lossyStart
   in sRelease (lSession l) \<noteq> None \<and> lPc l \<noteq> Crashed
    \<and> (\<exists>t. trace w = t \<and> acquired t = released t + outstanding (lSession l))
    \<and> lBackoff l \<le> MaxBackoff (normalized eagerOptions)"
proof -
  obtain l w where x: "runTurns lossyCfg 6 lossyStart = (l, w)" by fastforce
  have "(listenStep lossyCfg)\<^sup>*\<^sup>* lossyStart (l, w)" using runTurns_reach [of lossyCfg lossyStart 6] by (simp add: x)
  from listener_invariant [OF lossy_simps(1,3,2) this [unfolded lossyStart_def]] show ?thesis
    using lossy_replaced by (auto simp: x sampleWorld_def)
qed

text \<open>Stopped as it enters a sleep, the listener whose first select takes the timer and whose second takes the
  stop channel.\<close>

theorem stop_returns_all_witness:
  "let (l, w) = runTurns lossyCfg 3 lossyStart
   in lPc l = Sleeping \<and> (\<exists>e l' w' t. stopFn [False, True] lossyPinned lossyCfg l w = (Ret (Some (e, l')), w')
        \<and> lPc l' = Ended \<and> trace w' = t \<and> acquired t = released t)"
proof -
  obtain l w where x: "runTurns lossyCfg 3 lossyStart = (l, w)" by fastforce
  have "lPc (fst (runTurns lossyCfg 3 lossyStart)) = Sleeping" by code_simp
  then have "lPc l = Sleeping" by (simp add: x)
  have "(listenStep lossyCfg)\<^sup>*\<^sup>* lossyStart (l, w)" using runTurns_reach [of lossyCfg lossyStart 3] by (simp add: x)
  from stop_returns_all [OF lossy_simps(1,3,2) this [unfolded lossyStart_def], of "[False, True]"]
  obtain r w' t where "stopFn [False, True] lossyPinned lossyCfg l w = (Ret r, w')" "r \<noteq> None" "trace w' = t"
    "\<forall>e l'. r = Some (e, l') \<longrightarrow> lPc l' = Ended \<and> acquired t = released t"
    by (auto simp: sampleWorld_def)
  with \<open>lPc l = Sleeping\<close> show ?thesis by (cases r) (auto simp: x)
qed


section \<open>Stopping has no bound of its own\<close>

text \<open>Where LISTEN fails for good and no fresh connection can be borrowed, a stopped goroutine whose selects
  all find the timer expired and choose it goes round without an end, and \<open>stop\<close> with it: after any number of
  selects it is still waiting.\<close>

definition strandedCfg :: "unit listenCfg" where
  "strandedCfg = lossyCfg\<lparr>lcReacquire := None\<rparr>"

lemma stranded_relisten:
  assumes "lConn l = pinConn lossyPinned"
  shows "\<exists>w'. turnRelistening strandedCfg l w = (Ret (l\<lparr>lBackoff := min (wrap64 (lBackoff l * 2)) Minute,
     lFailures := lFailures l + 1, lPc := Sleeping\<rparr>), w')"
proof -
  obtain m err w1 where e: "connExecute (pinConn lossyPinned) (listenSQL ''jobs'') [] w = (Ret (m, err), w1)"
    by (rule connExecute_returns [OF lossy_simps(2)])
  then have "err \<noteq> None"
    by (auto simp: lossyPinned_def connExecute_def callExec_def deafRunner_def track_def fireBefore_def fireAfter_def
        fireBeforeContext_def fireAfterContext_def eachHook_def snapshot_def logWarn_def only_when_def act_simps call_simps
        split: if_splits)
  moreover obtain t where "loggerLine (pinConn lossyPinned) ''database re-listen attempt failed'' w1
      = (Ret (), w1\<lparr>trace := trace w1 @ t\<rparr>)"
    using loggerLine_effect by blast
  moreover have "lcChannel strandedCfg = ''jobs''" "lcReacquire strandedCfg = None" "MaxBackoff (lcOpts strandedCfg) = Minute"
    by (simp_all add: strandedCfg_def lossyCfg_def normalized_def eagerOptions_def)
  ultimately show ?thesis
    using e assms by (auto simp: turnRelistening_def Let_def andThen_app ret_app)
qed

lemma stranded_waits:
  assumes "lPc l = Sleeping" "lConn l = pinConn lossyPinned" "2 * n < m"
  shows "\<exists>w'. joinLoop m (replicate n False) strandedCfg l w = (Ret None, w')"
  using assms
proof (induction n arbitrary: l w m)
  case 0
  then show ?case by (cases m) (simp_all add: act_simps)
next
  case (Suc n)
  then obtain k where m: "m = Suc (Suc k)" "2 * n < k" by (cases m; cases "m - 1") auto
  let ?w = "w\<lparr>env := (env w)\<lparr>tie_done := False, clock := clock (env w) + max (lBackoff l) 0\<rparr>\<rparr>"
  obtain l1 w1 where r: "turnRelistening strandedCfg (l\<lparr>lPc := Relistening\<rparr>) ?w = (Ret l1, w1)"
    "lPc l1 = Sleeping" "lConn l1 = pinConn lossyPinned"
    using stranded_relisten [of "l\<lparr>lPc := Relistening\<rparr>" ?w] Suc.prems(2) by auto
  from Suc.IH [OF r(2,3) m(2), of w1] r(1) Suc.prems(1) show ?case
    by (simp add: m selects_def listenTurn_def turnSleeping_def act_simps)
qed

lemma stop_unbounded:
  assumes "lPc l = Sleeping" "lConn l = pinConn lossyPinned"
  shows "\<exists>w'. stopFn (replicate n False) lossyPinned strandedCfg l w = (Ret None, w')"
  using stranded_waits [of "l\<lparr>lStopped := True\<rparr>" n "3 * Suc n" w] assms
  by (auto simp: stopFn_def act_simps)

end
