(* ===== verification/Timing.thy ===== *)
theory Timing
  imports Statements
begin

text \<open>
  Time bounds: how long an action takes by the clock of the environment, with a driver whose calls
  end when their contexts do and without hooks of the caller, which may take any time. Two notions
  compose along the structure of the actions: a duration, and a deadline.
\<close>

named_theorems deadline_intros
  \<open>composition of actions that end by a deadline\<close>

section \<open>Durations and deadlines\<close>

text \<open>
  \<open>timed h d m Q\<close>: while no hook of a caller is registered at \<open>h\<close>, the action \<open>m\<close> returns a value with
  \<open>Q\<close>, takes between no time and \<open>d\<close>, and leaves the registries alone. \<open>by_deadline h t m Q\<close> is the
  same with an end at \<open>t\<close>, or at once when \<open>t\<close> has passed.
\<close>

definition timed :: "nat option \<Rightarrow> int \<Rightarrow> ('d world, 'a) act \<Rightarrow> ('a \<Rightarrow> bool) \<Rightarrow> bool" where
  "timed h d m Q \<longleftrightarrow>
     (\<forall>w. hookIds (snapshot h w) = [] \<longrightarrow>
        (\<exists>x w'. m w = (Ret x, w') \<and> Q x \<and> regs w' = regs w
           \<and> clock (env w) \<le> clock (env w') \<and> clock (env w') \<le> clock (env w) + d))"

definition by_deadline :: "nat option \<Rightarrow> int \<Rightarrow> ('d world, 'a) act \<Rightarrow> ('a \<Rightarrow> bool) \<Rightarrow> bool" where
  "by_deadline h t m Q \<longleftrightarrow>
     (\<forall>w. hookIds (snapshot h w) = [] \<longrightarrow>
        (\<exists>x w'. m w = (Ret x, w') \<and> Q x \<and> regs w' = regs w
           \<and> clock (env w) \<le> clock (env w') \<and> clock (env w') \<le> max (clock (env w)) t))"

lemma timed_ret: "Q x \<Longrightarrow> 0 \<le> d \<Longrightarrow> timed h d (ret x) Q"
  by (simp add: timed_def act_simps)

lemma timed_mono: "timed h d m Q \<Longrightarrow> d \<le> d' \<Longrightarrow> timed h d' m Q"
  unfolding timed_def by (meson add_left_mono order_trans)

lemma timed_andThen:
  assumes "timed h d1 m P" and "\<And>x. P x \<Longrightarrow> timed h d2 (f x) Q" and "d1 + d2 \<le> d"
  shows "timed h d (andThen m f) Q"
  unfolding timed_def
proof (intro allI impI)
  fix w :: "'a world" assume s: "hookIds (snapshot h w) = []"
  from assms(1) s obtain x w1 where x: "m w = (Ret x, w1)" "P x" "regs w1 = regs w"
    "clock (env w) \<le> clock (env w1)" "clock (env w1) \<le> clock (env w) + d1"
    unfolding timed_def by blast
  from s x(3) have "hookIds (snapshot h w1) = []" using snapshot_regs by metis
  with assms(2) [OF x(2)] obtain y w2 where "f x w1 = (Ret y, w2)" "Q y" "regs w2 = regs w1"
    "clock (env w1) \<le> clock (env w2)" "clock (env w2) \<le> clock (env w1) + d2"
    unfolding timed_def by blast
  with x assms(3) show "\<exists>y w'. andThen m f w = (Ret y, w') \<and> Q y \<and> regs w' = regs w
      \<and> clock (env w) \<le> clock (env w') \<and> clock (env w') \<le> clock (env w) + d"
    by (auto simp: andThen_app)
qed

lemma by_deadline_timed: "timed h 0 m Q \<Longrightarrow> by_deadline h t m Q"
  unfolding timed_def by_deadline_def by fastforce

lemma by_deadline_andThen:
  assumes "by_deadline h t m P" and "\<And>x. P x \<Longrightarrow> by_deadline h t (f x) Q"
  shows "by_deadline h t (andThen m f) Q"
  unfolding by_deadline_def
proof (intro allI impI)
  fix w :: "'a world" assume s: "hookIds (snapshot h w) = []"
  from assms(1) s obtain x w1 where x: "m w = (Ret x, w1)" "P x" "regs w1 = regs w"
    "clock (env w) \<le> clock (env w1)" "clock (env w1) \<le> max (clock (env w)) t"
    unfolding by_deadline_def by blast
  from s x(3) have "hookIds (snapshot h w1) = []" using snapshot_regs by metis
  with assms(2) [OF x(2)] obtain y w2 where "f x w1 = (Ret y, w2)" "Q y" "regs w2 = regs w1"
    "clock (env w1) \<le> clock (env w2)" "clock (env w2) \<le> max (clock (env w1)) t"
    unfolding by_deadline_def by blast
  with x show "\<exists>y w'. andThen m f w = (Ret y, w') \<and> Q y \<and> regs w' = regs w
      \<and> clock (env w) \<le> clock (env w') \<and> clock (env w') \<le> max (clock (env w)) t"
    by (auto simp: andThen_app)
qed

text \<open>A deadline set by \<open>timeout\<close> turns the one notion into the other.\<close>

lemma timed_timeout:
  assumes "\<And>t. by_deadline h t (k (WithDeadline b t)) Q"
  shows "timed h (max d 0) (andThen (timeout b d) k) Q"
  unfolding timed_def
proof (intro allI impI)
  fix w :: "'a world" assume "hookIds (snapshot h w) = []"
  with assms [of "clock (env w) + d"] obtain x w' where
    "k (WithDeadline b (clock (env w) + d)) w = (Ret x, w')" "Q x" "regs w' = regs w"
    "clock (env w) \<le> clock (env w')" "clock (env w') \<le> max (clock (env w)) (clock (env w) + d)"
    unfolding by_deadline_def by blast
  then show "\<exists>x w'. andThen (timeout b d) k w = (Ret x, w') \<and> Q x \<and> regs w' = regs w
      \<and> clock (env w) \<le> clock (env w') \<and> clock (env w') \<le> clock (env w) + max d 0"
    by (auto simp: act_simps)
qed

section \<open>Steps that take no time\<close>

lemma timed_instant:
  "timed h 0 now (\<lambda>_. True)" "timed h 0 (since s) (\<lambda>_. True)" "timed h 0 (emit e) (\<lambda>_. True)"
  "timed h 0 (loggerLine c msg) (\<lambda>_. True)"
  "obsLogger (connObs c) \<Longrightarrow> timed h 0 (logWarn c msg) (\<lambda>_. True)"
  by (cases "obsLogger (connObs c)"; simp add: timed_def loggerLine_def logWarn_def act_simps)+

lemma timed_log_then: "Q x \<Longrightarrow> timed h 0 (andThen (loggerLine c msg) (\<lambda>_. ret x)) Q"
  by (rule timed_andThen [OF timed_instant(4), where ?d2.0 = 0]) (simp_all add: timed_ret)

lemma timed_track:
  assumes "obsLogger (connObs c)"
  shows "timed h 0 (track c start sql) (\<lambda>_. True)"
  unfolding track_def
  by (rule timed_andThen [OF timed_instant(2), where ?d2.0 = 0])
    (simp_all add: only_when_def timed_instant(5) [OF assms] timed_ret)

text \<open>With collectors as the only hooks, dispatch takes no time.\<close>

lemma timed_eachHook:
  assumes "connHooks c = h" and "\<And>a. timed h 0 (fn (MetricsHook a)) (\<lambda>_. True)"
  shows "timed h 0 (eachHook c fn) (\<lambda>_. True)"
proof -
  let ?guarded = "\<lambda>hk. recovering (fn hk) (\<lambda>_. logWarn c ''database query hook panicked (recovered)'')"
  have one: "timed h 0 (?guarded (MetricsHook a)) (\<lambda>_. True)" for a
    using assms(2) [of a] by (fastforce simp: timed_def act_simps)
  have all: "timed h 0 (for_each ?guarded xs) (\<lambda>_. True)" if "hookIds xs = []" for xs
    using that
  proof (induction xs)
    case (Cons hk xs)
    then obtain a where "hk = MetricsHook a" "hookIds xs = []"
      by (cases hk) (simp_all add: hookIds_def)
    with one Cons.IH show ?case
      by (auto intro: timed_andThen [where ?d1.0 = 0 and ?d2.0 = 0 and P = "\<lambda>_. True"])
  qed (simp add: timed_ret)
  show ?thesis
    unfolding timed_def
  proof (intro allI impI)
    fix w :: "'a world" assume s: "hookIds (snapshot h w) = []"
    with all [OF s] assms(1)
    show "\<exists>x w'. eachHook c fn w = (Ret x, w') \<and> True \<and> regs w' = regs w
        \<and> clock (env w) \<le> clock (env w') \<and> clock (env w') \<le> clock (env w) + 0"
      unfolding eachHook_def timed_def by fastforce
  qed
qed

lemma timed_fire:
  assumes "connHooks c = h"
  shows "timed h 0 (fireBeforeContext c parent op1 sql args) (\<lambda>_. True)"
    "timed h 0 (fireAfterContext c parent op1 sql args d err rows) (\<lambda>_. True)"
  unfolding fireBeforeContext_def fireAfterContext_def
  by (rule timed_eachHook [OF assms];
      simp add: timed_def callBefore_def callAfter_def mcAfterHook_def act_simps)+

section \<open>A driver that keeps to its contexts\<close>

definition endsBy :: "int \<Rightarrow> ('d, 'a) drvcall \<Rightarrow> bool" where
  "endsBy t f \<longleftrightarrow> (\<forall>s. clock s \<le> clock (snd (f s)) \<and> clock (snd (f s)) \<le> max (clock s) t)"

definition promptCall :: "(ctx \<Rightarrow> ('d, 'a) drvcall) \<Rightarrow> bool" where
  "promptCall f \<longleftrightarrow> (\<forall>b t. endsBy t (f (WithDeadline b t)))"

text \<open>Statements end with their contexts, and so does the reading of the rows they return.\<close>

definition promptExec :: "'d runner \<Rightarrow> bool" where
  "promptExec r1 \<longleftrightarrow> (\<forall>sql args. promptCall (\<lambda>c. rExec r1 c sql args))"

definition promptReads :: "'d runner \<Rightarrow> ('d, 't) mapper \<Rightarrow> bool" where
  "promptReads r1 m \<longleftrightarrow>
     (\<forall>sql args. promptCall (\<lambda>c. rQuery r1 c sql args) \<and> promptCall (\<lambda>c. rQueryRow r1 c sql args))
     \<and> (\<forall>b t sql args s rows s'. rQuery r1 (WithDeadline b t) sql args s = ((rows, None), s') \<longrightarrow>
          endsBy t (collectRows m rows) \<and> endsBy t (collectOneRow m rows))
     \<and> (\<forall>b t sql args s row s'. rQueryRow r1 (WithDeadline b t) sql args s = (row, s') \<longrightarrow>
          endsBy t (scanRow m row))"

lemma promptCall_bound:
  assumes "promptCall f" and "f (WithDeadline b (clock s + d)) s = (x, s')"
  shows "clock s \<le> clock s' \<and> clock s' \<le> clock s + max d 0"
proof -
  have "clock s \<le> clock s' \<and> clock s' \<le> max (clock s) (clock s + d)"
    using assms unfolding promptCall_def endsBy_def by (metis snd_conv)
  then show ?thesis by auto
qed

lemma by_deadline_driver:
  assumes "endsBy t f" and "\<And>s x s'. f s = (x, s') \<Longrightarrow> P x"
  shows "by_deadline h t (driver f) P"
  using assms unfolding by_deadline_def endsBy_def by (auto simp: act_simps) (metis prod.collapse)

text \<open>A call under a fresh deadline, and the rest of the function.\<close>

lemma timed_deadline_call:
  assumes "promptCall f" and "\<And>c s x s'. f c s = (x, s') \<Longrightarrow> P x"
    and "\<And>c x. P x \<Longrightarrow> timed h d2 (k c x) Q" and "max d 0 + d2 \<le> d'"
  shows "timed h d' (andThen (timeout b d) (\<lambda>c. andThen (driver (f c)) (\<lambda>x. k c x))) Q"
  unfolding timed_def
proof (intro allI impI)
  fix w :: "'a world" assume s: "hookIds (snapshot h w) = []"
  let ?c = "WithDeadline b (clock (env w) + d)"
  obtain x s1 where x: "f ?c (env w) = (x, s1)" by fastforce
  note b = promptCall_bound [OF assms(1) x]
  have "hookIds (snapshot h (w\<lparr>env := s1\<rparr>)) = []" using s by simp
  with assms(3) [OF assms(2) [OF x], of ?c] obtain y w2 where "k ?c x (w\<lparr>env := s1\<rparr>) = (Ret y, w2)" "Q y"
    "regs w2 = regs w" "clock s1 \<le> clock (env w2)" "clock (env w2) \<le> clock s1 + d2"
    unfolding timed_def by fastforce
  with x b assms(4)
  show "\<exists>y w'. andThen (timeout b d) (\<lambda>c. andThen (driver (f c)) (\<lambda>x. k c x)) w = (Ret y, w') \<and> Q y
      \<and> regs w' = regs w \<and> clock (env w) \<le> clock (env w') \<and> clock (env w') \<le> clock (env w) + d'"
    by (auto simp: act_simps)
qed

section \<open>Statements\<close>

lemma by_deadline_steps [deadline_intros]:
  "by_deadline h t (ret x) (\<lambda>_. True)" "by_deadline h t now (\<lambda>_. True)" "by_deadline h t (since s) (\<lambda>_. True)"
  "by_deadline h t (emit e) (\<lambda>_. True)"
  by (intro by_deadline_timed timed_instant timed_ret; simp)+

lemma by_deadline_seq [deadline_intros]:
  "by_deadline h t m (\<lambda>_. True) \<Longrightarrow> (\<And>x. by_deadline h t (f x) (\<lambda>_. True)) \<Longrightarrow>
     by_deadline h t (andThen m f) (\<lambda>_. True)"
  by (rule by_deadline_andThen)

lemma by_deadline_cases [deadline_intros]:
  "by_deadline h t m Q \<Longrightarrow> (\<And>x. by_deadline h t (f x) Q) \<Longrightarrow>
     by_deadline h t (case v of None \<Rightarrow> m | Some x \<Rightarrow> f x) Q"
  "(\<And>x y. by_deadline h t (g x y) Q) \<Longrightarrow> by_deadline h t (case p of (x, y) \<Rightarrow> g x y) Q"
  "by_deadline h t m Q \<Longrightarrow> by_deadline h t m' Q \<Longrightarrow> by_deadline h t (if b then m else m') Q"
  by (cases v, simp_all) (cases p, simp)

lemma by_deadline_exec:
  assumes "promptExec r1"
  shows "by_deadline h t (callExec r1 (WithDeadline b t) sql args) (\<lambda>_. True)"
  unfolding callExec_def
  using assms by (intro by_deadline_seq by_deadline_steps by_deadline_driver)
    (simp_all add: promptExec_def promptCall_def)

lemma by_deadline_read:
  assumes "promptReads r1 m"
  shows "by_deadline h t (callQuery r1 (WithDeadline b t) sql args)
      (\<lambda>x. snd x = None \<longrightarrow> endsBy t (collectRows m (fst x)) \<and> endsBy t (collectOneRow m (fst x)))"
    (is ?query)
    and "by_deadline h t (callQueryRow r1 (WithDeadline b t) sql args) (\<lambda>row. endsBy t (scanRow m row))"
    (is ?row)
proof -
  have prompt: "endsBy t (rQuery r1 (WithDeadline b t) sql args)" "endsBy t (rQueryRow r1 (WithDeadline b t) sql args)"
    using assms by (simp_all add: promptReads_def promptCall_def)
  show ?query
    using assms unfolding promptReads_def callQuery_def
    by (intro by_deadline_andThen [OF by_deadline_steps(4)] by_deadline_driver [OF prompt(1)])
      (metis prod.collapse)
  show ?row
    using assms unfolding promptReads_def callQueryRow_def
    by (intro by_deadline_andThen [OF by_deadline_steps(4)] by_deadline_driver [OF prompt(2)]) blast
qed

lemmas endsBy_driver = by_deadline_driver [where P = "\<lambda>_. True", OF _ TrueI]

text \<open>A connection with the options \<open>o1\<close> and the registry \<open>h\<close>, a logger and a prompt runner.\<close>

definition timelyConn :: "'d options \<Rightarrow> nat option \<Rightarrow> 'd conn \<Rightarrow> bool" where
  "timelyConn o1 h c \<longleftrightarrow> connO c = o1 \<and> connHooks c = h \<and> obsLogger (connObs c) \<and> promptExec (connR c)"

abbreviation execTime :: "'d options \<Rightarrow> int" where
  "execTime o1 \<equiv> max (CommandTimeout o1) 0"

lemma by_deadline_conn:
  assumes "timelyConn o1 h c"
  shows "by_deadline h t (track c start sql) (\<lambda>_. True)"
    "by_deadline h t (fireAfterContext c parent op1 sql args d err rows) (\<lambda>_. True)"
  using assms by (auto simp: timelyConn_def intro!: by_deadline_timed timed_track timed_fire)

lemma timed_statement:
  assumes "timelyConn o1 h c" and "\<And>t. by_deadline h t (k (WithDeadline parent t)) (\<lambda>_. True)"
  shows "timed h (execTime o1) (andThen (fireBeforeContext c parent op1 sql args) (\<lambda>_.
      andThen (timeout parent (CommandTimeout (connO c))) k)) (\<lambda>_. True)"
  using assms
  by (auto simp: timelyConn_def intro!: timed_andThen [OF timed_fire(1), where ?d2.0 = "execTime o1"]
      timed_timeout)

lemma timed_execute:
  assumes "timelyConn o1 h c"
  shows "timed h (execTime o1) (connExecuteContext c parent sql args) (\<lambda>_. True)"
  unfolding connExecuteContext_def
  using assms
  by (intro timed_statement deadline_intros by_deadline_conn) (auto simp: timelyConn_def intro: by_deadline_exec)

lemma by_deadline_rows:
  assumes "snd x = None \<longrightarrow> A (fst x)"
    and "\<And>rows e. by_deadline h t (f rows e) Q" and "\<And>rows. A rows \<Longrightarrow> by_deadline h t (g rows) Q"
  shows "by_deadline h t (case x of (rows, err) \<Rightarrow> case err of None \<Rightarrow> g rows | Some e \<Rightarrow> f rows e) Q"
  using assms by (cases x) (simp split: option.split)

lemma timed_reads:
  assumes "timelyConn o1 h c" and "promptReads (connR c) m"
  shows "timed h (execTime o1) (runQueryContext m parent c sql args) (\<lambda>_. True)"
    "timed h (execTime o1) (runQueryRowContext m parent c sql args) (\<lambda>_. True)"
    "timed h (execTime o1) (runScalarContext m parent c sql args) (\<lambda>_. True)"
proof -
  note called = by_deadline_andThen [OF by_deadline_read(1) [OF assms(2)]]
    by_deadline_andThen [OF by_deadline_read(2) [OF assms(2)]]
  note rest = deadline_intros by_deadline_conn [OF assms(1)] endsBy_driver
  show "timed h (execTime o1) (runQueryContext m parent c sql args) (\<lambda>_. True)"
    unfolding runQueryContext_def
    by (rule timed_statement [OF assms(1)], rule by_deadline_seq [OF by_deadline_steps(2)], rule called(1),
        erule by_deadline_rows)
      (auto intro!: rest)
  show "timed h (execTime o1) (runQueryRowContext m parent c sql args) (\<lambda>_. True)"
    unfolding runQueryRowContext_def
    by (rule timed_statement [OF assms(1)], rule by_deadline_seq [OF by_deadline_steps(2)], rule called(1),
        erule by_deadline_rows)
      (auto intro!: rest)
  show "timed h (execTime o1) (runScalarContext m parent c sql args) (\<lambda>_. True)"
    unfolding runScalarContext_def
    by (rule timed_statement [OF assms(1)], rule by_deadline_seq [OF by_deadline_steps(2)], rule called(2))
      (auto intro!: rest)
qed

end
