(* ===== verification/Listen_Timing.thy ===== *)
theory Listen_Timing
  imports Listen_Properties Timing
begin

text \<open>
  How long \<open>stop\<close> of a listener takes (listen.go), with a driver whose calls end when their contexts do
  and give back connections without waiting. Time is the clock of the environment.
\<close>

section \<open>A driver that keeps to its contexts\<close>

definition instant :: "'d release \<Rightarrow> bool" where
  "instant rel \<longleftrightarrow> (\<forall>c s. clock (snd (rel c s)) = clock s)"

definition promptRunner :: "'d runner \<Rightarrow> bool" where
  "promptRunner r1 \<longleftrightarrow>
     promptExec r1 \<and> (\<forall>wt. resolveListenBackend r1 = Inr wt \<longrightarrow> promptCall wt)"

definition promptReacquire :: "'d reacquireFunc \<Rightarrow> bool" where
  "promptReacquire re \<longleftrightarrow>
     promptCall re
     \<and> (\<forall>c s r1 rel s'. re c s = (Inr (r1, rel), s') \<longrightarrow> promptRunner r1 \<and> instant rel)"

lemma timed_giveBack: "instant rel \<Longrightarrow> timed h 0 (giveBack i rel c) (\<lambda>_. True)"
  by (simp add: timed_def giveBack_def instant_def act_simps)

lemma timed_giveBackIf:
  assumes "\<And>rel. sRelease ses = Some rel \<Longrightarrow> instant rel"
  shows "timed h 0 (giveBackIf ses c) (\<lambda>_. True)"
  using assms by (cases "sRelease ses") (auto simp: giveBackIf_def intro: timed_ret timed_giveBack)

section \<open>The turns of the loop\<close>

text \<open>The connections of a listener are prompt, share options \<open>o1\<close> and registry \<open>h\<close>, and log.\<close>

definition promptConn :: "'d options \<Rightarrow> nat option \<Rightarrow> 'd conn \<Rightarrow> bool" where
  "promptConn o1 h c \<longleftrightarrow> connO c = o1 \<and> connHooks c = h \<and> obsLogger (connObs c) \<and> promptRunner (connR c)"

definition promptSession :: "'d options \<Rightarrow> nat option \<Rightarrow> 'd listenSession \<Rightarrow> bool" where
  "promptSession o1 h ses \<longleftrightarrow>
     promptConn o1 h (sConn ses) \<and> promptCall (sWaiter ses) \<and> (\<forall>rel. sRelease ses = Some rel \<longrightarrow> instant rel)"

definition promptListener :: "'d options \<Rightarrow> nat option \<Rightarrow> 'd listener \<Rightarrow> bool" where
  "promptListener o1 h l \<longleftrightarrow>
     lPc l \<noteq> Crashed \<and> promptSession o1 h (lSession l) \<and> promptConn o1 h (lConn l) \<and> promptCall (lWait l)"

abbreviation acquireTime :: "'d options \<Rightarrow> int" where
  "acquireTime o1 \<equiv> max (ConnectionTimeout o1) 0"

lemma promptConn_derive: "promptConn o1 h c \<Longrightarrow> promptRunner r1 \<Longrightarrow> promptConn o1 h (derive c r1)"
  by (simp add: promptConn_def)

lemma timed_conn_execute:
  "promptConn o1 h c \<Longrightarrow> timed h (execTime o1) (connExecute c sql args) (\<lambda>_. True)"
  using timed_execute [of o1 h c "base c"]
  by (simp add: promptConn_def promptRunner_def timelyConn_def connExecute_Context)

lemma timed_listenFresh:
  assumes "promptConn o1 h src" "promptRunner r1"
  shows "timed h (execTime o1) (listenFresh src r1 channel) (\<lambda>ok. \<forall>wt. ok = Some wt \<longrightarrow> promptCall wt)"
proof (cases "resolveListenBackend r1")
  case (Inl e)
  then show ?thesis by (simp add: listenFresh_def timed_ret)
next
  case (Inr wt)
  with assms(2) have "promptCall wt" by (simp add: promptRunner_def)
  then show ?thesis
    unfolding listenFresh_def Inr sum.case
    by (intro timed_andThen [OF timed_conn_execute [OF promptConn_derive [OF assms]], where ?d2.0 = 0])
      (auto intro!: timed_ret split: if_splits)
qed

lemma timed_relisten:
  assumes "promptSession o1 h ses" "promptConn o1 h src" "promptReacquire re"
  shows "timed h (acquireTime o1 + execTime o1) (relistenOnFreshConn ses src re channel)
     (\<lambda>(ok, ses'). promptSession o1 h ses')"
proof -
  have o1: "connO src = o1" using assms(2) by (simp add: promptConn_def)
  have rel: "timed h 0 (giveBackIf ses c) (\<lambda>_. True)" for c
    using assms(1) by (intro timed_giveBackIf) (simp add: promptSession_def)
  have fresh: "timed h (execTime o1)
      (andThen (emit (TxControl (runner_id r1) ''Acquire'' c)) (\<lambda>_.
         andThen (listenFresh src r1 channel) (\<lambda>ok.
         case ok of
           None \<Rightarrow>
             andThen (giveBack (runner_id r1) rel c) (\<lambda>_.
             andThen (loggerLine src ''database re-listen on a fresh connection failed'') (\<lambda>_. ret (False, ses)))
         | Some wt \<Rightarrow> andThen (swap ses c (derive src r1) wt rel) (\<lambda>ses'. ret (True, ses')))))
      (\<lambda>(ok, ses'). promptSession o1 h ses')"
    if r1: "promptRunner r1" "instant rel" for c r1 rel
  proof (rule timed_andThen [where ?d1.0 = 0 and P = "\<lambda>_. True"])
    show "timed h 0 (emit (TxControl (runner_id r1) ''Acquire'' c)) (\<lambda>_. True)"
      by (simp add: timed_def act_simps)
  next
    fix x :: unit
    show "timed h (execTime o1) (andThen (listenFresh src r1 channel) (\<lambda>ok.
         case ok of
           None \<Rightarrow>
             andThen (giveBack (runner_id r1) rel c) (\<lambda>_.
             andThen (loggerLine src ''database re-listen on a fresh connection failed'') (\<lambda>_. ret (False, ses)))
         | Some wt \<Rightarrow> andThen (swap ses c (derive src r1) wt rel) (\<lambda>ses'. ret (True, ses'))))
      (\<lambda>(ok, ses'). promptSession o1 h ses')"
      using promptConn_derive [OF assms(2) r1(1)] assms(1) r1(2)
      by (intro timed_andThen [OF timed_listenFresh [OF assms(2) r1(1)], where ?d2.0 = 0])
        (auto simp: swap_def andThen_assoc promptSession_def split: option.splits
          intro!: timed_andThen [OF timed_giveBack, where ?d2.0 = 0] timed_log_then
            timed_andThen [OF rel, where ?d2.0 = 0] timed_ret)
  qed simp
  have lent: "promptRunner r1 \<and> instant rel" if "re c s = (Inr (r1, rel), s')" for c s r1 rel s'
    using assms(3) that unfolding promptReacquire_def by blast
  have re: "promptCall re" using assms(3) by (simp add: promptReacquire_def)
  show ?thesis
    unfolding relistenOnFreshConn_def o1
    by (rule timed_deadline_call [where P = "\<lambda>r. \<forall>r1 rel. r = Inr (r1, rel) \<longrightarrow> promptRunner r1 \<and> instant rel"
          and ?d2.0 = "execTime o1"])
      (use assms(1) lent re fresh in \<open>auto split: sum.splits intro!: timed_mono [OF timed_log_then] dest: lent\<close>)
qed

text \<open>How long the goroutine may still take when it has been told to stop, up to its next sleep.\<close>

fun joinBound :: "'d options \<Rightarrow> listenPc \<Rightarrow> int" where
  "joinBound o1 Waiting = notifyTick"
| "joinBound o1 Relistening = 2 * execTime o1 + acquireTime o1"
| "joinBound o1 Reacquiring = acquireTime o1 + execTime o1"
| "joinBound o1 _ = 0"

definition turnTimed :: "'d options \<Rightarrow> nat option \<Rightarrow> 'd listenCfg \<Rightarrow> 'd listener \<Rightarrow> bool" where
  "turnTimed o1 h cfg l \<longleftrightarrow>
     (\<exists>d. timed h d (listenTurn cfg l) (\<lambda>l'. promptListener o1 h l' \<and> lStopped l' = lStopped l
        \<and> (lStopped l \<and> lPc l \<noteq> Sleeping \<longrightarrow> d + joinBound o1 (lPc l') \<le> joinBound o1 (lPc l))))"

lemma turnTimedI:
  assumes "timed h d (listenTurn cfg l) (\<lambda>l'. promptListener o1 h l' \<and> lStopped l' = lStopped l
      \<and> (lStopped l \<longrightarrow> joinBound o1 (lPc l') \<le> b))"
    and "d + b \<le> joinBound o1 (lPc l)"
  shows "turnTimed o1 h cfg l"
  unfolding turnTimed_def using assms by (intro exI [of _ d]) (fastforce simp: timed_def)

lemma turnTop_timed:
  assumes "promptListener o1 h l" "lPc l = Top"
  shows "turnTimed o1 h cfg l"
  by (rule turnTimedI [where d = 0 and b = 0])
    (use assms in \<open>auto simp: timed_def listenTurn_def turnTop_def Let_def loggerLine_def only_when_def act_simps
      promptListener_def promptSession_def\<close>)

lemma turnWaiting_timed:
  assumes "promptListener o1 h l" "lPc l = Waiting"
  shows "turnTimed o1 h cfg l"
proof (rule turnTimedI [where d = notifyTick and b = 0])
  show "timed h notifyTick (listenTurn cfg l) (\<lambda>l'. promptListener o1 h l' \<and> lStopped l' = lStopped l
      \<and> (lStopped l \<longrightarrow> joinBound o1 (lPc l') \<le> 0))"
    unfolding listenTurn_def assms(2) listenPc.case turnWaiting_def
    by (rule timed_deadline_call [where P = "\<lambda>_. True" and ?d2.0 = 0])
      (use assms in \<open>auto simp: promptListener_def notifyTick_def intro!: timed_ret split: option.splits prod.splits\<close>)
qed (simp add: assms)

lemma turnFailed_timed:
  assumes "promptListener o1 h l" "lPc l = Failed e"
  shows "turnTimed o1 h cfg l"
  by (rule turnTimedI [where d = 0 and b = 0])
    (use assms in \<open>auto simp: listenTurn_def turnFailed_def promptListener_def intro!: timed_ret timed_log_then\<close>)

lemma turnSleeping_timed:
  assumes "promptListener o1 h l" "lPc l = Sleeping"
  shows "turnTimed o1 h cfg l"
  unfolding turnTimed_def using assms
  by (intro exI [of _ "max (lBackoff l) 0"])
    (auto simp: timed_def listenTurn_def turnSleeping_def act_simps promptListener_def)

lemma turnRelistening_timed:
  assumes "promptListener o1 h l" "lPc l = Relistening"
  shows "turnTimed o1 h cfg l"
proof (rule turnTimedI [where d = "execTime o1" and b = "acquireTime o1 + execTime o1"])
  have c: "promptConn o1 h (lConn l)" using assms(1) by (simp add: promptListener_def)
  show "timed h (execTime o1) (listenTurn cfg l) (\<lambda>l'. promptListener o1 h l' \<and> lStopped l' = lStopped l
      \<and> (lStopped l \<longrightarrow> joinBound o1 (lPc l') \<le> acquireTime o1 + execTime o1))"
    unfolding listenTurn_def assms(2) listenPc.case turnRelistening_def Let_def
    by (rule timed_andThen [OF timed_conn_execute [OF c], where ?d2.0 = 0])
      (use assms in \<open>auto simp: promptListener_def intro!: timed_log_then split: prod.splits\<close>)
qed (simp add: assms)

lemma turnReacquiring_timed:
  assumes "promptListener o1 h l" "lPc l = Reacquiring" "\<And>re. lcReacquire cfg = Some re \<Longrightarrow> promptReacquire re"
  shows "turnTimed o1 h cfg l"
proof (rule turnTimedI [where d = "acquireTime o1 + execTime o1" and b = 0])
  have p: "promptSession o1 h (lSession l)" "promptConn o1 h (lConn l)"
    using assms(1) by (auto simp: promptListener_def)
  show "timed h (acquireTime o1 + execTime o1) (listenTurn cfg l)
      (\<lambda>l'. promptListener o1 h l' \<and> lStopped l' = lStopped l \<and> (lStopped l \<longrightarrow> joinBound o1 (lPc l') \<le> 0))"
  proof (cases "lcReacquire cfg")
    case None
    with assms(1,2) show ?thesis
      by (auto simp: listenTurn_def turnReacquiring_def promptListener_def intro!: timed_ret)
  next
    case (Some re)
    show ?thesis
      unfolding listenTurn_def assms(2) listenPc.case turnReacquiring_def Some option.case
      by (rule timed_andThen [OF timed_relisten [OF p assms(3) [OF Some]], where ?d2.0 = 0])
        (use assms(1) in \<open>auto simp: promptListener_def intro!: timed_log_then timed_ret split: prod.splits\<close>)
  qed
qed (simp add: assms)

lemma listenTurn_timed:
  assumes "promptListener o1 h l" "\<And>re. lcReacquire cfg = Some re \<Longrightarrow> promptReacquire re"
  shows "turnTimed o1 h cfg l"
proof (cases "lPc l")
  case Ended
  with assms(1) show ?thesis
    by (intro turnTimedI [where d = 0 and b = 0]) (auto simp: listenTurn_def intro!: timed_ret)
next
  case Crashed
  with assms(1) show ?thesis by (simp add: promptListener_def)
next
  case Reacquiring
  from turnReacquiring_timed [OF assms(1) this assms(2)] show ?thesis .
qed (fact turnTop_timed [OF assms(1)] turnWaiting_timed [OF assms(1)] turnFailed_timed [OF assms(1)]
    turnSleeping_timed [OF assms(1)] turnRelistening_timed [OF assms(1)])+

section \<open>The latency of stop\<close>

lemma joinBound_bounds: "0 \<le> joinBound o1 pc" "joinBound o1 pc \<le> max notifyTick (2 * execTime o1 + acquireTime o1)"
  by (cases pc; simp add: notifyTick_def)+

text \<open>The longest sleep, and what a select lost to the timer costs: that sleep and a re-listen with a
  replacement.\<close>

definition longestSleep :: "'d listenCfg \<Rightarrow> int" where
  "longestSleep cfg = max (max (RetryDelay (lcOpts cfg)) (MaxBackoff (lcOpts cfg))) 0"

abbreviation lostRound :: "'d options \<Rightarrow> 'd listenCfg \<Rightarrow> int" where
  "lostRound o1 cfg \<equiv> longestSleep cfg + 2 * execTime o1 + acquireTime o1"

text \<open>How many selects are lost before one takes the stop channel.\<close>

definition lostSelects :: "bool list \<Rightarrow> nat" where
  "lostSelects bs = length (takeWhile Not bs)"

lemma lostSelects_simps [simp]:
  "lostSelects [] = 0" "lostSelects (True # bs) = 0" "lostSelects (False # bs) = Suc (lostSelects bs)"
  by (simp_all add: lostSelects_def)

lemma longestSleep_bounds: "0 \<le> longestSleep cfg"
  by (simp add: longestSleep_def)

lemma listenTurn_backoff:
  assumes "listenTurn cfg l w = (Ret l', w')" and "lBackoff l \<le> longestSleep cfg"
  shows "lBackoff l' \<le> longestSleep cfg"
  using assms
  by (cases "lPc l")
    (auto simp: listenTurn_def turn_defs act_simps Let_def longestSleep_def
      split: prod.splits outcome.splits option.splits if_splits)

lemma joinLoop_timed:
  assumes "promptListener o1 h l" "\<And>re. lcReacquire cfg = Some re \<Longrightarrow> promptReacquire re" "lStopped l"
    and "hookIds (snapshot h w) = []" and "lBackoff l \<le> longestSleep cfg"
    and "turnsLeft (lPc l) + 3 * length bs \<le> n"
  shows "\<exists>r w'. joinLoop n bs cfg l w = (Ret r, w') \<and> regs w' = regs w
    \<and> (True \<in> set bs \<longrightarrow> r \<noteq> None) \<and> (\<forall>l'. r = Some l' \<longrightarrow> lPc l' = Ended \<and> promptListener o1 h l')
    \<and> clock (env w') \<le> clock (env w) + joinBound o1 (lPc l) + int (lostSelects bs) * lostRound o1 cfg"
  using assms(1,3-)
proof (induction n arbitrary: l w bs)
  case 0
  then have "lPc l = Ended" by (cases "lPc l") (auto simp: promptListener_def)
  with 0 longestSleep_bounds [of cfg] show ?case by (simp add: act_simps)
next
  case (Suc n)
  have pos: "0 \<le> lostRound o1 cfg" using longestSleep_bounds [of cfg] by simp
  from Suc.prems(1) have run: "lPc l \<noteq> Ended \<Longrightarrow> running l" by (simp add: running_def promptListener_def)
  consider (done1) "lPc l = Ended" | (waits) "lPc l = Sleeping" "bs = []" | (stops) bs' where "lPc l = Sleeping" "bs = True # bs'"
    | (lost) bs' where "lPc l = Sleeping" "bs = False # bs'" | (turn) "lPc l \<noteq> Ended" "lPc l \<noteq> Sleeping"
    by (cases bs) auto
  then show ?case
  proof cases
    case done1
    with Suc.prems(1) pos show ?thesis by (simp add: act_simps)
  next
    case waits
    then show ?thesis by (simp add: act_simps)
  next
    case stops
    then have "joinLoop (Suc n) bs cfg l w = (Ret (Some (l\<lparr>lPc := Ended\<rparr>)), w\<lparr>env := (env w)\<lparr>tie_done := True\<rparr>\<rparr>)"
      using Suc.prems(2) by (cases n) (simp_all add: selects_def listenTurn_def turnSleeping_def act_simps)
    with stops Suc.prems(1) show ?thesis by (simp add: promptListener_def)
  next
    case lost
    let ?w = "w\<lparr>env := (env w)\<lparr>tie_done := False, clock := clock (env w) + max (lBackoff l) 0\<rparr>\<rparr>"
    have "joinLoop (Suc n) bs cfg l w = joinLoop n bs' cfg (l\<lparr>lPc := Relistening\<rparr>) ?w"
      using lost by (simp add: selects_def listenTurn_def turnSleeping_def act_simps)
    moreover have "max (lBackoff l) 0 \<le> longestSleep cfg" using Suc.prems(4) longestSleep_bounds by simp
    moreover from lost Suc.prems Suc.IH [of "l\<lparr>lPc := Relistening\<rparr>" ?w bs']
    obtain r w' where "joinLoop n bs' cfg (l\<lparr>lPc := Relistening\<rparr>) ?w = (Ret r, w')" "regs w' = regs w"
      "True \<in> set bs' \<longrightarrow> r \<noteq> None" "\<forall>l'. r = Some l' \<longrightarrow> lPc l' = Ended \<and> promptListener o1 h l'"
      "clock (env w') \<le> clock (env w) + max (lBackoff l) 0 + (2 * execTime o1 + acquireTime o1)
         + int (lostSelects bs') * lostRound o1 cfg"
      by (auto simp: promptListener_def)
    ultimately show ?thesis using lost by (auto simp: algebra_simps)
  next
    case turn
    from listenTurn_timed [OF Suc.prems(1) assms(2)] Suc.prems(2,3) turn(2)
    obtain d l1 w1 where t: "listenTurn cfg l w = (Ret l1, w1)" "promptListener o1 h l1" "lStopped l1"
      "regs w1 = regs w" "clock (env w1) \<le> clock (env w) + d"
      "d + joinBound o1 (lPc l1) \<le> joinBound o1 (lPc l)"
      unfolding turnTimed_def timed_def by metis
    have "turnsLeft (lPc l1) + 3 * length bs \<le> n"
      using listenTurn_progress [OF Suc.prems(2) run t(1)] turn Suc.prems(5) by (simp add: selectLost_def)
    moreover have "hookIds (snapshot h w1) = []" using Suc.prems(3) snapshot_regs [OF t(4)] by simp
    moreover have "joinLoop (Suc n) bs cfg l w = joinLoop n bs cfg l1 w1" using t(1) turn by (simp add: act_simps)
    ultimately show ?thesis
      using Suc.IH [OF t(2,3) _ listenTurn_backoff [OF t(1) Suc.prems(4)], of w1 bs] t(4-6) by fastforce
  qed
qed

lemma afterJoin_timed:
  assumes "promptListener o1 h l" and "connO (pinConn c) = o1"
  shows "timed h (execTime o1) (afterJoin c cfg l) (\<lambda>(e, l'). lPc l' = lPc l)"
  unfolding timed_def
proof (intro allI impI)
  fix w :: "'a world" assume s: "hookIds (snapshot h w) = []"
  let ?r = "connR (sConn (lSession l))" and ?sql = "unlistenSQL (lcChannel cfg)"
  obtain b where u: "rollbackCtx (base (pinConn c)) o1 w = (Ret (WithDeadline b (clock (env w) + CommandTimeout o1)), w)"
    by (cases "ctxErr (env w) (base (pinConn c)) = None") (auto simp: rollbackCtx_def act_simps)
  let ?u = "WithDeadline b (clock (env w) + CommandTimeout o1)"
  obtain n err s1 where x: "rExec ?r ?u ?sql [] (env w) = ((n, err), s1)" by (metis surj_pair)
  have "promptCall (\<lambda>cc. rExec ?r cc ?sql [])"
    using assms(1) by (simp add: promptListener_def promptSession_def promptConn_def promptRunner_def promptExec_def)
  note bound = promptCall_bound [OF this x]
  let ?w = "w\<lparr>trace := trace w @ [Call (runner_id ?r) ''Exec'' ?u ?sql []], env := s1\<rparr>"
  have "hookIds (snapshot h ?w) = []" using s by simp
  moreover have "timed h 0 (giveBackIf (lSession l) ?u) (\<lambda>_. True)"
    using assms(1) by (intro timed_giveBackIf) (simp add: promptListener_def promptSession_def)
  ultimately obtain w2 where "giveBackIf (lSession l) ?u ?w = (Ret (), w2)" "regs w2 = regs w"
    "clock s1 \<le> clock (env w2)" "clock (env w2) \<le> clock s1"
    unfolding timed_def by fastforce
  with u x bound assms(2)
  show "\<exists>y w'. afterJoin c cfg l w = (Ret y, w') \<and> (case y of (e, l') \<Rightarrow> lPc l' = lPc l) \<and> regs w' = regs w
      \<and> clock (env w) \<le> clock (env w') \<and> clock (env w') \<le> clock (env w) + execTime o1"
    by (auto simp: afterJoin_def callExec_def releaseReplacement_def act_simps)
qed

lemma reachable_prompt:
  assumes "(listenStep cfg)\<^sup>*\<^sup>* (l0, w0) (l, w)" and "promptListener o1 h l0" and "hookIds (snapshot h w0) = []"
    and "\<And>re. lcReacquire cfg = Some re \<Longrightarrow> promptReacquire re"
    and "lBackoff l0 \<le> longestSleep cfg"
  shows "promptListener o1 h l \<and> hookIds (snapshot h w) = [] \<and> lBackoff l \<le> longestSleep cfg"
  using assms(1)
proof (induction rule: rtranclp_induct2)
  case refl
  with assms(2,3,5) show ?case by simp
next
  case (step l1 w1 l2 w2)
  from listenTurn_timed [OF _ assms(4)] step.IH
  obtain l' w' where t: "listenTurn cfg l1 w1 = (Ret l', w')" "promptListener o1 h l'" "regs w' = regs w1"
    unfolding turnTimed_def timed_def by metis
  have "hookIds (snapshot h w') = []" using step.IH snapshot_regs [OF t(3)] by simp
  moreover have "lBackoff l' \<le> longestSleep cfg" using listenTurn_backoff [OF t(1)] step.IH by simp
  ultimately show ?case using step t by (auto simp: promptListener_def elim!: listenStepE loopTurnE)
qed

lemma start_prompt:
  assumes "promptRunner (connR (pinConn c))" "obsLogger (connObs (pinConn c))" "promptCall wt"
  shows "promptListener (connO (pinConn c)) (connHooks (pinConn c)) (startListener c wt o2)"
  using assms by (simp add: promptListener_def promptSession_def promptConn_def startListener_def)

text \<open>C33: the time \<open>stop\<close> takes. Over a driver whose calls end when their contexts do, and without hooks
  of the caller, \<open>stop\<close> called in any state the listener can reach returns once a select of the goroutine
  takes the stop channel: at most one tick or one re-listen with a replacement (two statements and one
  borrowing of a connection, each up to its timeout) plus the UNLISTEN after the call, and one backoff
  and one re-listen with a replacement more for each earlier select that the expired timer won.\<close>
theorem stop_latency:
  assumes "promptRunner (connR (pinConn c))" and "obsLogger (connObs (pinConn c))" and "promptCall wt"
    and "\<And>re. lcReacquire cfg = Some re \<Longrightarrow> promptReacquire re"
    and "hookIds (snapshot (connHooks (pinConn c)) w0) = []"
    and "(listenStep cfg)\<^sup>*\<^sup>* (startListener c wt (lcOpts cfg), w0) (l, w)"
    and "True \<in> set bs"
  shows "\<exists>e l' w'. stopFn bs c cfg l w = (Ret (Some (e, l')), w') \<and> lPc l' = Ended
    \<and> clock (env w') \<le> clock (env w)
        + max notifyTick (2 * max (CommandTimeout (connO (pinConn c))) 0 + max (ConnectionTimeout (connO (pinConn c))) 0)
        + int (lostSelects bs) * (longestSleep cfg
            + 2 * max (CommandTimeout (connO (pinConn c))) 0 + max (ConnectionTimeout (connO (pinConn c))) 0)
        + max (CommandTimeout (connO (pinConn c))) 0"
proof -
  let ?o = "connO (pinConn c)" and ?h = "connHooks (pinConn c)"
  have "lBackoff (startListener c wt (lcOpts cfg)) \<le> longestSleep cfg"
    by (simp add: startListener_def longestSleep_def)
  from reachable_prompt [OF assms(6) start_prompt [OF assms(1-3)] assms(5,4) this]
  have p: "promptListener ?o ?h (l\<lparr>lStopped := True\<rparr>)" and s: "hookIds (snapshot ?h w) = []"
    and b: "lBackoff l \<le> longestSleep cfg"
    by (auto simp: promptListener_def)
  from joinLoop_timed [OF p, of cfg w bs "3 * Suc (length bs)"] assms(4,7) s b turnsLeft_bound [of "lPc l"]
  obtain l1 w1 where
    j: "joinLoop (3 * Suc (length bs)) bs cfg (l\<lparr>lStopped := True\<rparr>) w = (Ret (Some l1), w1)" "lPc l1 = Ended"
      "promptListener ?o ?h l1" "regs w1 = regs w"
      "clock (env w1) \<le> clock (env w) + joinBound ?o (lPc l) + int (lostSelects bs) * lostRound ?o cfg"
    by auto
  have "hookIds (snapshot ?h w1) = []" using s j(4) snapshot_regs by metis
  with afterJoin_timed [OF j(3) refl] obtain e l2 w2 where
    a: "afterJoin c cfg l1 w1 = (Ret (e, l2), w2)" "lPc l2 = Ended" "clock (env w2) \<le> clock (env w1) + execTime ?o"
    unfolding timed_def using j(2) by fastforce
  have "stopFn bs c cfg l w = (Ret (Some (e, l2)), w2)" using j(1) a(1) by (simp add: stopFn_def act_simps)
  with a(2,3) j(5) joinBound_bounds(2) [of ?o "lPc l"] show ?thesis by fastforce
qed

text \<open>The listener of the fixtures is told to stop as it enters a sleep; its first select takes the timer, its
  second the stop channel.\<close>

theorem stop_latency_witness:
  "let (l, w) = runTurns lossyCfg 3 lossyStart
   in \<exists>e l' w'. stopFn [False, True] lossyPinned lossyCfg l w = (Ret (Some (e, l')), w') \<and> lPc l' = Ended
     \<and> clock (env w') \<le> clock (env w) + 240 * Second"
proof -
  obtain l w where x: "runTurns lossyCfg 3 lossyStart = (l, w)" by fastforce
  have reach: "(listenStep lossyCfg)\<^sup>*\<^sup>* lossyStart (l, w)" using runTurns_reach [of lossyCfg lossyStart 3] by (simp add: x)
  have "promptRunner (connR (pinConn lossyPinned))" "promptCall (\<lambda>c s. ((None, Some (Msg ''broken pipe'')), s))"
    by (auto simp: lossyPinned_def deafRunner_def promptRunner_def promptExec_def promptCall_def endsBy_def
        resolveListenBackend_def)
  moreover have "promptReacquire re" if "lcReacquire lossyCfg = Some re" for re
    using that
    by (auto simp: lossyCfg_def lossyPinned_def deafRunner_def promptReacquire_def promptRunner_def
        promptExec_def promptCall_def endsBy_def resolveListenBackend_def instant_def)
  moreover have "hookIds (snapshot (connHooks (pinConn lossyPinned)) (snd lossyStart)) = []"
    by (simp add: lossyPinned_def snapshot_def hookIds_def)
  moreover have "CommandTimeout (connO (pinConn lossyPinned)) = 30 * Second"
    "ConnectionTimeout (connO (pinConn lossyPinned)) = 15 * Second" "longestSleep lossyCfg = 60 * Second"
    by (simp_all add: lossyPinned_def sampleOptions_def longestSleep_def normalized_def eagerOptions_def)
  ultimately show ?thesis
    using stop_latency [OF _ lossy_simps(2), of "\<lambda>c s. ((None, Some (Msg ''broken pipe'')), s)" lossyCfg
        "sampleWorld [] ()" l w "[False, True]"] reach
    by (auto simp: x [unfolded lossyStart_def] lossyStart_def notifyTick_def add.commute)
qed

end
