(* ===== verification/Sqlx.thy ===== *)
theory Sqlx
  imports Construction Tracing
begin

text \<open>
  sqlx.go: the database/sql surface. Parsing the connection URL, opening the pool of database/sql and
  pinging it belong to pgx and sqlx and are parameters.
\<close>

text \<open>A database/sql pool: its number, its ping and its close.\<close>

record 'd sqlPool =
  spId :: nat
  spPing :: "ctx \<Rightarrow> ('d, gerr option) drvcall"
  spClose :: "('d, gerr option) drvcall"
  spBegin :: "ctx \<Rightarrow> string \<Rightarrow> ('d, gerr + nat) drvcall"

record 'd sqlxConfig =
  scURL :: string
  scConnectTimeout :: int
  scTracer :: "'d pgxTracer"

record 'd sqlxDB =
  sxPool :: "'d sqlPool"
  sxMaxOpen :: int
  sxMaxIdle :: int
  sxOpts :: "'d options"

definition sqlxPGXConfig :: "(string \<Rightarrow> gerr option) \<Rightarrow> 'd options \<Rightarrow> gerr + 'd sqlxConfig" where
  "sqlxPGXConfig parse o1 =
     (case parse (dsn o1) of
        Some e \<Rightarrow> Inl (wrapE ''database: parse sqlx config: '' e)
      | None \<Rightarrow>
          Inr \<lparr>scURL = dsn o1, scConnectTimeout = ConnectionTimeout o1,
               scTracer = \<lparr>trObs = newObservability, trOptions = o1\<rparr>\<rparr>)"

definition closePool :: "'d sqlPool \<Rightarrow> ('d world, gerr option) act" where
  "closePool p = andThen (emit (TxControl (spId p) ''Close'' Background)) (\<lambda>_. driver (spClose p))"

definition NewSQLX ::
  "(string \<Rightarrow> gerr option) \<Rightarrow> ('d sqlxConfig \<Rightarrow> ('d, 'd sqlPool) drvcall) \<Rightarrow> dotenv \<Rightarrow> osEnv \<Rightarrow> ctx
     \<Rightarrow> 'd options list \<Rightarrow> ('d world, gerr + 'd sqlxDB) act" where
  "NewSQLX parse openDB load e c opts =
     (let o1 = withDefaults (case opts of o0 # _ \<Rightarrow> o0 | [] \<Rightarrow> fst (LoadFromEnv load e))
      in case Validate o1 of
           Some err \<Rightarrow> ret (Inl err)
         | None \<Rightarrow>
             (case sqlxPGXConfig parse o1 of
                Inl err \<Rightarrow> ret (Inl err)
              | Inr cfg \<Rightarrow>
                  andThen (driver (openDB cfg)) (\<lambda>p.
                  andThen (emit (TxControl (spId p) ''Open'' Background)) (\<lambda>_.
                  andThen (timeout c (ConnectionTimeout o1)) (\<lambda>pingCtx.
                  andThen (driver (spPing p pingCtx)) (\<lambda>perr.
                  case perr of
                    Some err \<Rightarrow>
                      andThen (closePool p) (\<lambda>cerr.
                      ret (Inl (case cerr of
                                  Some ce \<Rightarrow> Wrapf ''database: ping sqlx pool: '' err ('' (close: '' @ errText ce @ '')'')
                                | None \<Rightarrow> wrapE ''database: ping sqlx pool: '' err)))
                  | None \<Rightarrow>
                      ret (Inr \<lparr>sxPool = p, sxMaxOpen = PoolMaxSize o1, sxMaxIdle = PoolMinSize o1, sxOpts = o1\<rparr>)))))))"

definition OpenSQLXFromEnv ::
  "(string \<Rightarrow> gerr option) \<Rightarrow> ('d sqlxConfig \<Rightarrow> ('d, 'd sqlPool) drvcall) \<Rightarrow> dotenv \<Rightarrow> osEnv \<Rightarrow> ctx
     \<Rightarrow> ('d world, gerr + 'd sqlxDB) act" where
  "OpenSQLXFromEnv parse openDB load e c = NewSQLX parse openDB load e c []"

definition sqlxOptions :: "'d sqlxDB option \<Rightarrow> 'd options" where
  "sqlxOptions d = (case d of None \<Rightarrow> zeroOptions | Some x \<Rightarrow> (sxOpts x)\<lparr>Password := []\<rparr>)"

definition sqlxBeginTx :: "'d sqlxDB \<Rightarrow> ctx \<Rightarrow> string \<Rightarrow> ('d world, gerr + nat) act" where
  "sqlxBeginTx d c level = driver (spBegin (sxPool d) c level)"

end
