(* ===== verification/Tracing_Properties.thy ===== *)
theory Tracing_Properties
  imports Sqlx Fixtures
begin

text \<open>
  The properties of statement names and spans (statement.go, pgx_tracer.go) and of the database/sql
  surface (sqlx.go).
\<close>

section \<open>What an expression can match\<close>

text \<open>The characters an expression can consume.\<close>

primrec consumes :: "regex \<Rightarrow> char \<Rightarrow> bool" where
  "consumes Eps c = False"
| "consumes (Cls p) c = p c"
| "consumes (Seq r1 r2) c = (consumes r1 c \<or> consumes r2 c)"
| "consumes (Alt r1 r2) c = (consumes r1 c \<or> consumes r2 c)"
| "consumes (Star r) c = consumes r c"
| "consumes Bol c = False"
| "consumes Eol c = False"
| "consumes WordB c = False"

lemma ends_consumes:
  assumes "i \<le> length s" and "j \<in> set (ends r s i)" and "i \<le> k" "k < j"
  shows "consumes r (s ! k)"
  using assms
proof (induction r s i arbitrary: j k rule: ends.induct)
  case (3 r1 r2 s i)
  from "3.prems"(2) obtain m where m: "m \<in> set (ends r1 s i)" "j \<in> set (ends r2 s m)" by auto
  have "m \<le> length s" using ends_bounds [OF "3.prems"(1) m(1)] by simp
  with m "3.IH" "3.prems" show ?case by (cases "k < m") auto
next
  case (5 r s i)
  from "5.prems" obtain m where m: "m \<in> set (ends r s i)" "i < m" "m \<le> length s" "j \<in> set (ends (Star r) s m)"
    by (auto simp: ends_Star [of r s i])
  with "5.IH"(1) [of m k] "5.IH"(2) [of m j k] "5.prems" show ?case by (cases "k < m") auto
qed (auto split: if_splits simp: le_less_Suc_eq)

lemma sub_consumes:
  assumes "i \<le> length s" and "j \<in> set (ends r s i)"
  shows "list_all (consumes r) (sub s i j)"
  using ends_consumes [OF assms] ends_bounds [OF assms]
  by (auto simp: list_all_length sub_def)

lemma first_start:
  assumes "filter P [0..<Suc n] = i # rest"
  shows "i \<le> n \<and> P i"
proof -
  have "i \<in> set (filter P [0..<Suc n])" by (simp only: assms) simp
  then have "i \<in> {x \<in> set [0..<Suc n]. P x}" by (simp only: set_filter)
  then show ?thesis by (auto simp del: upt_Suc)
qed

lemma findIndex_Some:
  assumes "findIndex r s = Some (i, j)"
  shows "i \<le> length s \<and> j \<in> set (ends r s i)"
proof (cases "filter (\<lambda>i. ends r s i \<noteq> []) [0..<Suc (length s)]")
  case Nil
  with assms show ?thesis by (simp add: findIndex_def del: upt_Suc)
next
  case (Cons k ks)
  with assms have "k = i" "j = hd (ends r s i)" by (auto simp: findIndex_def simp del: upt_Suc)
  with first_start [OF Cons] show ?thesis by simp
qed

lemma findString_consumes: "list_all (consumes r) (findString r s)"
  using findIndex_Some [of r s] sub_consumes [of _ s _ r]
  by (auto simp: findString_def split: option.split)

lemma findGroup_consumes:
  assumes "findGroup pre grp s = Some t"
  shows "list_all (consumes grp) t"
proof (cases "filter (\<lambda>i. groupAt pre grp s i \<noteq> []) [0..<Suc (length s)]")
  case Nil
  with assms show ?thesis by (simp add: findGroup_def del: upt_Suc)
next
  case (Cons i rest)
  obtain j k where h: "hd (groupAt pre grp s i) = (j, k)" by fastforce
  have i: "i \<le> length s" "(j, k) \<in> set (groupAt pre grp s i)"
    using first_start [OF Cons] h by (simp_all, metis hd_in_set)
  then have "j \<in> set (ends pre s i)" "k \<in> set (ends grp s j)" by (auto simp: groupAt_def)
  with ends_bounds [OF i(1)] have "list_all (consumes grp) (sub s j k)" by (simp add: sub_consumes)
  with assms Cons h show ?thesis by (simp add: findGroup_def del: upt_Suc)
qed

section \<open>Names of statements\<close>

definition tableChar :: "char \<Rightarrow> bool" where
  "tableChar c \<longleftrightarrow> isWord c \<or> c = CHR ''.'' \<or> c \<in> set [CHR 0xC5, CHR 0xBF, CHR 0xE2, CHR 0x84, CHR 0xAA]"

lemma tableRe_consumes: "consumes tableRe c \<Longrightarrow> c = dquote \<or> tableChar c"
  by (auto simp: tableRe_def quoteOpt_def foldWordDot_def tableChar_def)

lemma unquoted_table: "list_all tableChar (unquoted (tableFor operation sql))"
proof -
  have "list_all tableChar (filter (\<lambda>c. c \<noteq> dquote) t)" if "tableFor operation sql = Some t" for t
  proof -
    have "list_all (consumes tableRe) t"
      using that by (auto simp: tableFor_def intro: findGroup_consumes split: if_splits)
    with tableRe_consumes show ?thesis by (auto simp: list_all_iff)
  qed
  then show ?thesis by (simp add: unquoted_def split: option.split)
qed

lemma ToUpper_alpha: "list_all isAlphaA s \<Longrightarrow> list_all isUpperA (ToUpper s)"
proof (induction s rule: ToUpper.induct)
  case (2 c s)
  then have "\<not> HasPrefix (c # s) [CHR 0xC4, CHR 0xB1]" "\<not> HasPrefix (c # s) [CHR 0xC5, CHR 0xBF]"
    by (auto simp: isAlphaA_def isUpperA_def isLowerA_def)
  moreover from 2 have "isUpperA (toUpperA c)"
    by (auto simp: isAlphaA_def isUpperA_def isLowerA_def toUpperA_def)
  ultimately show ?case using "2.IH"(3) "2.prems" by (simp del: HasPrefix_Cons)
qed simp

lemma firstWord_upper: "list_all isUpperA (ToUpper (findString firstWord s))"
proof (rule ToUpper_alpha)
  have "consumes firstWord = isAlphaA" by (rule ext) (simp add: firstWord_def)
  with findString_consumes [of firstWord s] show "list_all isAlphaA (findString firstWord s)" by simp
qed

text \<open>The flattened text is as long as the statement, so an index found in it is one of the statement.\<close>

lemma length_replaceFrom:
  "(\<And>m. length (f m) = length m) \<Longrightarrow> i \<le> length s \<Longrightarrow> length (replaceFrom r f s i) = length s - i"
proof (induction r f s i rule: replaceFrom.induct)
  case (1 r f s i)
  show ?case
  proof (cases "ends r s i")
    case Nil
    with 1 show ?thesis by (subst replaceFrom.simps) auto
  next
    case (Cons j js)
    then have "i \<le> j" "j \<le> length s" using ends_bounds [of i s j r] "1.prems" by auto
    then have "length (f (sub s i j)) = j - i" by (simp add: sub_def "1.prems"(1))
    with 1 Cons \<open>i \<le> j\<close> \<open>j \<le> length s\<close> show ?thesis by (subst replaceFrom.simps) auto
  qed
qed

lemma length_blankFrom [simp]: "length (blankFrom d s) = length s"
  by (induction d s rule: blankFrom.induct) auto

lemma length_flatten: "length (flatten sql) = length sql"
  by (simp add: flatten_def blankNested_def ReplaceAllStringFunc_def length_replaceFrom)

lemma main_index_in_range:
  assumes "findIndex mainDML (flatten sql) = Some (i, j)"
  shows "i \<le> length sql"
  using findIndex_Some [OF assms] by (simp add: length_flatten)

text \<open>The name of every statement has the shape the telemetry relies on: the operation is empty or
  an upper-case word, the table consists of word characters and dots, without quotes, blanks or
  any other part of the statement's punctuation, and the span has one of six names.\<close>
lemma statement_name_shape:
  "list_all isUpperA (fst (statementName sql)) \<and> list_all tableChar (snd (statementName sql))
   \<and> spanNameFor (fst (statementName sql))
       \<in> {''db.insert'', ''db.select'', ''db.update'', ''db.delete'', ''db.transaction'', ''db.query''}"
proof -
  have "list_all isUpperA (fst (statementName sql))" "list_all tableChar (snd (statementName sql))"
    by (auto simp: statementName_def Let_def firstWord_upper unquoted_table isUpperA_def split: option.splits)
  moreover have "spanNameFor op1 \<in> {''db.insert'', ''db.select'', ''db.update'', ''db.delete'', ''db.transaction'', ''db.query''}" for op1
    by (simp add: spanNameFor_def)
  ultimately show ?thesis by blast
qed

text \<open>A literal before the table of a SELECT is taken for its FROM clause, and of a quoted qualified
  name only the schema is reported.\<close>

lemma select_literal_as_table: "statementName ''SELECT 'from a' '' = (''SELECT'', ''a'')"
  by code_simp

lemma quoted_schema_as_table:
  "statementName (''UPDATE '' @ [dquote] @ ''app'' @ [dquote] @ ''.'' @ [dquote] @ ''t'' @ [dquote])
     = (''UPDATE'', ''app'')"
  by code_simp

section \<open>Spans\<close>

text \<open>C39: with \<open>HideQueryArgs\<close> a span tells no more of a statement than its name: two statements with the
  same operation and table give identical spans, and no attribute holds the text. Session control by
  LISTEN and UNLISTEN leaves the context as it is.\<close>
theorem hidden_statement_text:
  assumes "HideQueryArgs (trOptions t)" and "statementName sql1 = statementName sql2"
    and "obsTracer (trObs t)"
  shows "TraceQueryStart t sql1 cur = TraceQueryStart t sql2 cur
    \<and> (\<exists>sp. TraceQueryStart t sql1 cur = Ret sp
         \<and> (if fst (statementName sql1) \<in> {''LISTEN'', ''UNLISTEN''} then sp = cur
            else \<exists>x. sp = Some x \<and> ''db.query.text'' \<notin> fst ` set (spAttrs x)))"
  using assms by (cases "statementName sql2") (auto simp: TraceQueryStart_def)

definition quietTracer :: "unit pgxTracer" where
  "quietTracer = \<lparr>trObs = newObservability, trOptions = sampleOptions\<lparr>HideQueryArgs := True\<rparr>\<rparr>"

theorem hidden_statement_text_witness:
  "TraceQueryStart quietTracer ''CALL p(1)'' None = TraceQueryStart quietTracer ''CALL p(2)'' None"
proof -
  have "statementName ''CALL p(1)'' = statementName ''CALL p(2)''" by code_simp
  from hidden_statement_text [OF _ this, of quietTracer None] show ?thesis
    by (simp add: quietTracer_def newObservability_def)
qed

section \<open>The database/sql surface\<close>

fun openedBy :: "event \<Rightarrow> nat list" where
  "openedBy (TxControl i m c) = (if m = ''Open'' then [i] else [])"
| "openedBy _ = []"

fun closedBy :: "event \<Rightarrow> nat list" where
  "closedBy (TxControl i m c) = (if m = ''Close'' then [i] else [])"
| "closedBy _ = []"

text \<open>C40: \<open>NewSQLX\<close> leaves no pool behind. It returns; when it returns a handle, exactly the pool of that
  handle was opened and it is still open, its options are complete and valid; when it returns an
  error, every pool it opened was closed again.\<close>
theorem sqlx_no_leak:
  "\<exists>r w' t. NewSQLX parse openDB load e c opts w = (Ret r, w') \<and> trace w' = trace w @ t
    \<and> (case r of
         Inr d \<Rightarrow> concat (map openedBy t) = [spId (sxPool d)] \<and> concat (map closedBy t) = []
                   \<and> Validate (sxOpts d) = None
       | Inl err \<Rightarrow> concat (map openedBy t) = concat (map closedBy t))"
proof -
  define o1 where "o1 = withDefaults (case opts of o0 # _ \<Rightarrow> o0 | [] \<Rightarrow> fst (LoadFromEnv load e))"
  show ?thesis
  proof (cases "Validate o1")
    case (Some err)
    then show ?thesis by (auto simp: NewSQLX_def o1_def [symmetric] act_simps intro: exI [of _ "[]"])
  next
    case valid: None
    show ?thesis
    proof (cases "sqlxPGXConfig parse o1")
      case (Inl err)
      with valid show ?thesis by (auto simp: NewSQLX_def o1_def [symmetric] act_simps intro: exI [of _ "[]"])
    next
      case (Inr cfg)
      obtain p s where p: "openDB cfg (env w) = (p, s)" by fastforce
      obtain perr s' where ping: "spPing p (WithDeadline c (clock s + ConnectionTimeout o1)) s = (perr, s')" by fastforce
      obtain cerr s'' where cl: "spClose p s' = (cerr, s'')" by fastforce
      show ?thesis
      proof (cases perr)
        case None
        with valid Inr p ping show ?thesis
          by (simp add: NewSQLX_def o1_def [symmetric] act_simps)
      next
        case (Some err)
        with valid Inr p ping cl show ?thesis
          by (simp add: NewSQLX_def o1_def [symmetric] act_simps closePool_def)
      qed
    qed
  qed
qed

end
