(* ===== verification/Cluster_Rotation.thy ===== *)
theory Cluster_Rotation
  imports Routing_Properties "HOL-Library.Signed_Division"
begin

text \<open>
  The reads of a cluster as its documentation describes them: a queue of handles whose head serves
  the next read and goes to the back. The 32-bit counter of replica.go implements the queue, and
  the reads a client sends through the cluster, their retries included, reach the handles in the
  order of the queue.
\<close>

section \<open>The rotation\<close>

definition serve :: "'x list \<Rightarrow> 'x \<times> 'x list" where
  "serve q = (hd q, tl q @ [hd q])"

text \<open>The handles that serve reads, and their queue as the counter stands.\<close>

definition readers :: "'d cluster \<Rightarrow> 'd db list" where
  "readers cl = (if clReplicas cl = [] then [clPrimary cl] else clReplicas cl)"

definition rotation :: "'d cluster \<Rightarrow> 'd db list" where
  "rotation cl = rotate (unat (clRR cl)) (readers cl)"

text \<open>The next \<open>k\<close> reads do not take the counter past its end, or it passes it in step.\<close>

definition inStep :: "nat \<Rightarrow> 'd cluster \<Rightarrow> bool" where
  "inStep k cl \<longleftrightarrow> length (readers cl) dvd 2 ^ 32 \<or> unat (clRR cl) + k < 2 ^ 32"

lemma serve_hd: "q \<noteq> [] \<Longrightarrow> serve q = (hd q, rotate1 q)"
  by (simp add: serve_def rotate1_hd_tl)

lemma rotation_next:
  assumes "clReplicas cl \<noteq> []" and "inStep (Suc k) cl"
  shows "rotation (cl\<lparr>clRR := clRR cl + 1\<rparr>) = rotate1 (rotation cl)"
proof -
  let ?n = "length (clReplicas cl)"
  have "unat (clRR cl + of_nat 1) mod ?n = (unat (clRR cl) + 1) mod ?n"
    by (rule counter_mod) (use assms in \<open>auto simp: inStep_def readers_def\<close>)
  then have "rotate (unat (clRR cl + 1)) (clReplicas cl) = rotate (Suc (unat (clRR cl))) (clReplicas cl)"
    by (subst (1 2) rotate_conv_mod) simp
  with assms(1) show ?thesis by (simp add: rotation_def readers_def)
qed

lemma Replica_serves:
  assumes "inStep (Suc k) cl"
  shows "serve (rotation cl) = (fst (Replica cl), rotation (snd (Replica cl)))"
proof (cases "clReplicas cl = []")
  case True
  then show ?thesis by (simp add: rotation_def readers_def Replica_def serve_def)
next
  case False
  moreover from False have "hd (rotation cl) = clReplicas cl ! (unat (clRR cl) mod length (clReplicas cl))"
    by (simp add: rotation_def readers_def hd_rotate_conv_nth)
  moreover from False have "rotation cl \<noteq> []" by (simp add: rotation_def readers_def)
  ultimately show ?thesis
    using rotation_next [OF False assms] by (simp add: serve_hd Replica_pick)
qed

lemma inStep_next:
  assumes "inStep (Suc k) cl"
  shows "inStep k (snd (Replica cl))"
proof (cases "clReplicas cl = []")
  case True
  with assms show ?thesis by (simp add: inStep_def readers_def Replica_def)
next
  case False
  have "unat (clRR cl + 1) + k < 2 ^ 32" if "unat (clRR cl) + Suc k < 2 ^ 32"
  proof -
    have "unat (clRR cl + 1) = unat (clRR cl) + 1"
      using that by (simp add: unat_word_ariths)
    with that show ?thesis by simp
  qed
  with assms False show ?thesis by (auto simp: inStep_def readers_def Replica_pick)
qed

interpretation rr: functional_refinement Replica serve rotation inStep
  by unfold_locales (rule inStep_next Replica_serves, assumption)+

section \<open>A session of reads and writes\<close>

text \<open>The operations of a cluster on statements, and what a client does that issues one after the other:
  its results aside, it hands the cluster with the counter on to the next one.\<close>

datatype clusterKind = Write | AllRows | FirstRow | OneValue

definition clusterStep ::
  "('d, 't) mapper \<Rightarrow> clusterKind \<times> string \<times> gval list \<Rightarrow> 'd cluster \<Rightarrow> ('d world, 'd cluster option) act" where
  "clusterStep m q cl =
     (case q of
        (Write, sql, args) \<Rightarrow> andThen (clusterExecute cl sql args) (\<lambda>r. ret (Some cl))
      | (AllRows, sql, args) \<Rightarrow> andThen (ClusterQuery m (Some cl) sql args) (\<lambda>(r, cl'). ret cl')
      | (FirstRow, sql, args) \<Rightarrow> andThen (ClusterQueryRow m (Some cl) sql args) (\<lambda>(r, cl'). ret cl')
      | (OneValue, sql, args) \<Rightarrow> andThen (ClusterScalar m (Some cl) sql args) (\<lambda>(r, cl'). ret cl'))"

primrec clusterSession ::
  "('d, 't) mapper \<Rightarrow> (clusterKind \<times> string \<times> gval list) list \<Rightarrow> 'd cluster option
     \<Rightarrow> ('d world, 'd cluster option) act" where
  "clusterSession m [] cl = ret cl"
| "clusterSession m (q # qs) cl =
     (case cl of None \<Rightarrow> ret None | Some c \<Rightarrow> andThen (clusterStep m q c) (clusterSession m qs))"

text \<open>Where the documentation sends them: writes to the primary, reads to the queue.\<close>

fun targets :: "'x \<Rightarrow> 'x list \<Rightarrow> clusterKind list \<Rightarrow> 'x list" where
  "targets p q [] = []"
| "targets p q (Write # ks) = p # targets p q ks"
| "targets p q (k # ks) = (case serve q of (x, q') \<Rightarrow> x # targets p q' ks)"

definition readsOf :: "(clusterKind \<times> string \<times> gval list) list \<Rightarrow> nat" where
  "readsOf qs = length (filter (\<lambda>q. fst q \<noteq> Write) qs)"

text \<open>\<open>inTurn ps t\<close>: the statements \<open>t\<close> are those of the pairs \<open>ps\<close> of a handle and a statement, in order,
  each sent at least once and at most as often as the retry policy of its handle allows.\<close>

fun inTurn :: "('d db \<times> string \<times> gval list) list \<Rightarrow> (nat \<times> string \<times> gval list) list \<Rightarrow> bool" where
  "inTurn [] t \<longleftrightarrow> t = []"
| "inTurn ((d, stmt) # ps) t \<longleftrightarrow>
     (\<exists>n \<in> {1..nat (max 0 (rpMaxCount (dbRetry d))) + 1}.
        take n t = replicate n (runner_id (connR (dbConn d)), stmt) \<and> inTurn ps (drop n t))"

lemma inTurn_Cons:
  assumes "servedBy d sql args w w1" and "sent (trace w') = sent (trace w1) @ t" "inTurn ps t"
  shows "\<exists>u. sent (trace w') = sent (trace w) @ u \<and> inTurn ((d, sql, args) # ps) u"
proof -
  from assms(1) obtain n where n: "1 \<le> n" "int n \<le> max 0 (rpMaxCount (dbRetry d)) + 1"
    "sent (trace w1) = sent (trace w) @ replicate n (runner_id (connR (dbConn d)), sql, args)"
    unfolding servedBy_def by blast
  let ?u = "replicate n (runner_id (connR (dbConn d)), sql, args) @ t"
  have "inTurn ((d, sql, args) # ps) ?u"
    using n(1,2) assms(3) by (auto intro!: bexI [of _ n])
  with n(3) assms(2) show ?thesis by auto
qed

lemma readers_next [simp]: "readers (snd (Replica cl)) = readers cl" "clPrimary (snd (Replica cl)) = clPrimary cl"
  by (cases "clReplicas cl = []"; simp add: readers_def Replica_def Let_def)+

text \<open>The handle that serves an operation, and the cluster after it.\<close>

definition served :: "clusterKind \<Rightarrow> 'd cluster \<Rightarrow> 'd db \<times> 'd cluster" where
  "served k cl = (if k = Write then (clPrimary cl, cl) else Replica cl)"

lemma clusterStep_served:
  assumes "list_all (\<lambda>d. obsLogger (connObs (dbConn d))) (clPrimary cl # readers cl)"
  shows "\<exists>w1. clusterStep m (k, sql, args) cl w = (Ret (Some (snd (served k cl))), w1)
    \<and> servedBy (fst (served k cl)) sql args w w1"
proof -
  obtain d cl' where r: "Replica cl = (d, cl')" by fastforce
  with Replica_member [of cl] assms have log: "obsLogger (connObs (dbConn d))" "obsLogger (connObs (dbConn (clPrimary cl)))"
    by (auto simp: readers_def list_all_iff split: if_splits)
  note step_defs = clusterStep_def clusterExecute_def Primary_def ClusterQuery_def ClusterQueryRow_def
    ClusterScalar_def onReplica_def served_def r
  show ?thesis
  proof (cases k)
    case Write
    with db_returns(1) [OF log(2), of sql args w] db_served(1) [OF log(2), of sql args w]
    show ?thesis by (auto simp: step_defs act_simps)
  next
    case AllRows
    with db_returns(2) [OF log(1), of m sql args w] db_served(2) [OF log(1), of sql args w m]
    show ?thesis by (auto simp: step_defs act_simps)
  next
    case FirstRow
    with db_returns(3) [OF log(1), of m sql args w] db_served(3) [OF log(1), of sql args w m]
    show ?thesis by (auto simp: step_defs act_simps)
  next
    case OneValue
    with db_returns(4) [OF log(1), of m sql args w] db_served(4) [OF log(1), of sql args w m]
    show ?thesis by (auto simp: step_defs act_simps)
  qed
qed

lemma rotation_nonempty [simp]: "rotation cl \<noteq> []"
  by (simp add: rotation_def readers_def)

lemma served_refines:
  assumes "inStep (readsOf ((k, stmt) # qs)) cl"
  shows "inStep (readsOf qs) (snd (served k cl))"
    and "targets (clPrimary cl) (rotation cl) (k # ks)
      = fst (served k cl) # targets (clPrimary cl) (rotation (snd (served k cl))) ks"
    and "rotation (snd (served k cl)) = (if k = Write then rotation cl else rotate1 (rotation cl))"
  using assms rr.refines [of "readsOf qs" cl] rr.good_step [of "readsOf qs" cl] serve_hd [of "rotation cl"]
  by (cases k; simp add: served_def readsOf_def)+

text \<open>C36: a cluster is the primary and the rotating queue it is described as. As long as the 32-bit counter
  does not pass its end, or passes it with a number of replicas that divides \<open>2 ^ 32\<close>, any sequence of
  \<open>Execute\<close>, \<open>ClusterQuery\<close>, \<open>ClusterQueryRow\<close> and \<open>ClusterScalar\<close> calls returns, and its statements, retries
  included and nothing else, went out in order: each write to the primary, each read to one handle, the
  head of the queue, which then stands at its back.\<close>
theorem cluster_refines_rotation:
  assumes "list_all (\<lambda>d. obsLogger (connObs (dbConn d))) (clPrimary cl # readers cl)"
    and "inStep (readsOf qs) cl"
  shows "\<exists>cl' w' t. clusterSession m qs (Some cl) w = (Ret (Some cl'), w')
    \<and> rotation cl' = rotate (readsOf qs) (rotation cl)
    \<and> sent (trace w') = sent (trace w) @ t
    \<and> inTurn (zip (targets (clPrimary cl) (rotation cl) (map fst qs)) (map snd qs)) t"
  using assms
proof (induction qs arbitrary: cl w)
  case Nil
  then show ?case by (simp add: act_simps readsOf_def)
next
  case (Cons q qs)
  obtain k sql args where q: "q = (k, sql, args)" by (metis prod.collapse)
  let ?d = "fst (served k cl)" and ?cl = "snd (served k cl)"
  have kept: "readers ?cl = readers cl" "clPrimary ?cl = clPrimary cl" by (simp_all add: served_def)
  have "inStep (readsOf ((k, sql, args) # qs)) cl" using Cons.prems(2) by (simp add: q)
  note step = served_refines [OF this]
  have turn: "rotate (readsOf qs) (rotation ?cl) = rotate (readsOf (q # qs)) (rotation cl)"
    by (simp add: step(3) readsOf_def q rotate1_rotate_swap)
  obtain w1 where w1: "clusterStep m q cl w = (Ret (Some ?cl), w1)" "servedBy ?d sql args w w1"
    using clusterStep_served [OF Cons.prems(1)] q by blast
  from Cons.IH [of ?cl w1] Cons.prems(1) step(1) obtain cl' w' t where
    ih: "clusterSession m qs (Some ?cl) w1 = (Ret (Some cl'), w')" "rotation cl' = rotate (readsOf qs) (rotation ?cl)"
    "sent (trace w') = sent (trace w1) @ t"
    "inTurn (zip (targets (clPrimary cl) (rotation ?cl) (map fst qs)) (map snd qs)) t"
    by (auto simp: kept)
  from inTurn_Cons [OF w1(2) ih(3,4)] obtain u where
    "sent (trace w') = sent (trace w) @ u"
    "inTurn (zip (targets (clPrimary cl) (rotation cl) (map fst (q # qs))) (map snd (q # qs))) u"
    by (auto simp: step(2) q)
  moreover have "clusterSession m (q # qs) (Some cl) w = (Ret (Some cl'), w')"
    using w1(1) ih(1) by (simp add: act_simps)
  ultimately show ?case using ih(2) turn by metis
qed

theorem cluster_refines_rotation_witness:
  "\<exists>t. sent (trace (snd (clusterSession sampleMapper
        [(AllRows, ''SELECT 1'', []), (Write, ''DELETE'', []), (FirstRow, ''SELECT 2'', [])]
        (Some (sampleCluster 7)) (sampleWorld [] [Some (Msg ''eof'')])))) = t
    \<and> inTurn [(numberedDB 3, ''SELECT 1'', []), (numberedDB 1, ''DELETE'', []),
        (numberedDB 4, ''SELECT 2'', [])] t"
proof -
  let ?qs = "[(AllRows, ''SELECT 1'', []), (Write, ''DELETE'', []), (FirstRow, ''SELECT 2'', [])]
    :: (clusterKind \<times> string \<times> gval list) list"
  have "rotation (sampleCluster 7) = [numberedDB 3, numberedDB 4, numberedDB 2]"
    by (simp add: rotation_def readers_def rotate_drop_take)
  then have "zip (targets (clPrimary (sampleCluster 7)) (rotation (sampleCluster 7)) (map fst ?qs)) (map snd ?qs) =
      [(numberedDB 3, ''SELECT 1'', []), (numberedDB 1, ''DELETE'', []), (numberedDB 4, ''SELECT 2'', [])]"
    by (simp add: serve_def)
  moreover have "list_all (\<lambda>d. obsLogger (connObs (dbConn d))) (clPrimary (sampleCluster 7) # readers (sampleCluster 7))"
    by (simp add: readers_def numberedDB_def)
  moreover have "inStep (readsOf ?qs) (sampleCluster 7)"
    by (simp add: inStep_def readsOf_def)
  moreover have "sent (trace (sampleWorld [] [Some (Msg ''eof'')])) = []"
    by (simp add: sampleWorld_def sent_def)
  ultimately show ?thesis
    using cluster_refines_rotation [of "sampleCluster 7" ?qs sampleMapper "sampleWorld [] [Some (Msg ''eof'')]"]
    by (metis append_Nil snd_conv)
qed

section \<open>The index on other platforms\<close>

text \<open>\<open>int(cl.rr.Add(1) - 1) % n\<close> where \<open>int\<close> has \<open>bits\<close> bits: the conversion keeps the low bits as a
  two's-complement number, the remainder takes the sign of the dividend. With 64 bits it is the index
  of \<open>Replica\<close>; with 32 bits the upper half of the counter gives negative indices, on which the
  access panics.\<close>

definition indexOn :: "nat \<Rightarrow> 32 word \<Rightarrow> nat \<Rightarrow> int" where
  "indexOn bits rr n = signed_take_bit (bits - 1) (uint rr) smod int n"

lemma index_64_bits: "indexOn 64 rr n = int (unat rr mod n)"
proof -
  have "uint rr < 2 ^ 32" using uint_lt2p [of rr] by simp
  then have "signed_take_bit 63 (uint rr) = uint rr"
    by (intro signed_take_bit_int_eq_self) (rule order_trans [OF _ uint_ge_0], simp_all)
  moreover have "sgn (uint rr) * (\<bar>uint rr\<bar> mod int n) = uint rr mod int n"
    by (cases "rr = 0") simp_all
  ultimately show ?thesis by (simp add: indexOn_def smod_int_alt_def zmod_int)
qed

lemma index_32_bits:
  assumes "2 ^ 31 \<le> uint rr" and "\<not> int n dvd 2 ^ 32 - uint rr"
  shows "indexOn 32 rr n < 0"
proof -
  have "uint rr < 2 ^ 32" using uint_lt2p [of rr] by simp
  then have "signed_take_bit 31 (uint rr) = uint rr - 2 ^ 32"
    using assms(1) minus_mod_self2 [of "uint rr + 2 ^ 31" "2 ^ 32 :: int"]
    by (simp add: signed_take_bit_eq_take_bit_shift take_bit_eq_mod)
  moreover have "0 < (2 ^ 32 - uint rr) mod int n" if "0 < n"
    using assms(2) that by (metis dvd_eq_mod_eq_0 of_nat_0_less_iff order_le_less pos_mod_sign)
  ultimately show ?thesis
    using assms \<open>uint rr < 2 ^ 32\<close>
    by (cases "n = 0") (auto simp: indexOn_def smod_int_alt_def)
qed

end
