(* ===== verification/Context_Operations.thy ===== *)
theory Context_Operations
  imports Emissions Routing_Properties
begin

text \<open>
  The operations of core.go that take a context, \<open>ExecuteContext\<close>, \<open>QueryContext\<close>, \<open>QueryRowContext\<close> and
  \<open>ScalarContext\<close>: the span around the retried statement, the contexts the attempts run in and the
  one measurement each call leaves.
\<close>

section \<open>Contexts of attempts\<close>

text \<open>A statement whose context is \<open>parent\<close> bounded by a deadline; other events have no context to
  speak of.\<close>

fun within :: "ctx \<Rightarrow> event \<Rightarrow> bool" where
  "within parent (Call i meth (WithDeadline c dl) sql args) \<longleftrightarrow> c = parent"
| "within parent (Call i meth c sql args) \<longleftrightarrow> False"
| "within parent _ \<longleftrightarrow> True"

lemma within_hidden: "\<not> isVisible e \<Longrightarrow> within parent e"
  by (cases e) simp_all

lemma within_visible: "list_all (within parent) (visible t) \<Longrightarrow> list_all (within parent) t"
  using within_hidden by (auto simp: visible_def list_all_iff)

lemma within_callHooks [simp]: "list_all (within parent) (callHooks ph info xs)"
  by (simp add: callHooks_def list_all_iff)

lemma attemptsTrace_within:
  "attemptsTrace c parent op1 meth sql args xs errs t \<Longrightarrow> list_all (within parent) t"
  by (induction rule: attemptsTrace.induct) simp_all

context statement_op
begin

lemma retry_whole:
  assumes log: "obsLogger (connObs c)" and stm: "emits ofStatement run"
  shows "\<exists>v err w' t n. retryDo b p run w = (Ret (v, err), w') \<and> trace w' = trace w @ t
    \<and> list_all ofStatement t \<and> list_all (within parent) t
    \<and> sent t = replicate n (runner_id (connR c), sql, args) \<and> 1 \<le> n \<and> int n \<le> max 0 (rpMaxCount p) + 1"
proof -
  obtain v err w' where r: "retryDo b p run w = (Ret (v, err), w')"
    using retry_returns [OF log] by (metis prod.collapse)
  obtain t where t: "trace w' = trace w @ t" "list_all ofStatement t"
    using emitsE [OF emits_retryDo [OF stm] r] .
  have "\<exists>errs. attemptsTrace c parent op1 meth sql args (snapshot (connHooks c) w) errs (visible t)"
  proof (cases "rpEnabled p")
    case True
    from retry_attempts [OF this log, of b w] r t(1) show ?thesis by auto
  next
    case False
    obtain v1 err1 w1 br where "run w = (Ret (v1, err1), w1)" "visible (trace w1) = visible (trace w) @ br"
      "\<And>errs t. attemptsTrace c parent op1 meth sql args (snapshot (connHooks c) w) errs t \<Longrightarrow>
         attemptsTrace c parent op1 meth sql args (snapshot (connHooks c) w) (err1 # errs) (br @ t)"
      using run_attempt [OF log] by metis
    with False r t(1) attemptsTrace.no_attempt show ?thesis
      by (metis append.right_neutral prod.inject retryDo_def same_append_eq visible_append)
  qed
  then have "list_all (within parent) t" using attemptsTrace_within within_visible by blast
  moreover obtain n where "1 \<le> n" "int n \<le> max 0 (rpMaxCount p) + 1"
    "sent t = replicate n (runner_id (connR c), sql, args)"
    using retry_sent [OF log, of p b w] r t(1) by auto
  ultimately show ?thesis using r t by blast
qed

end

section \<open>One span, one measurement\<close>

text \<open>\<open>reported span operation d cx sql args w res\<close>: the call returned; its events begin with the span
  and end with one measurement that tells whether an error is returned; between them are only events
  of the statement, which went out between once and as often as the policy allows, to the pool of
  \<open>d\<close> and in contexts under that span.\<close>

definition reported ::
  "string \<Rightarrow> string \<Rightarrow> 'd db \<Rightarrow> ctx \<Rightarrow> string \<Rightarrow> gval list \<Rightarrow> 'd world
     \<Rightarrow> ('a \<times> gerr option) outcome \<times> 'd world \<Rightarrow> bool" where
  "reported span operation d cx sql args w res \<longleftrightarrow>
     (\<exists>v err w' t n. res = (Ret (v, err), w')
        \<and> trace w' = trace w @ [SpanLine span] @ t
            @ [OpObserved operation (if err = None then ''success'' else ''error'')]
        \<and> list_all ofStatement t \<and> list_all (within (WithSpan cx span)) t
        \<and> sent t = replicate n (runner_id (connR (dbConn d)), sql, args)
        \<and> 1 \<le> n \<and> int n \<le> max 0 (rpMaxCount (dbRetry d)) + 1)"

lemma tracedOperation_reported:
  assumes "obsTracer (connObs (dbConn d))"
    and "\<And>w. \<exists>v err w' t n. body (WithSpan cx span) w = (Ret (v, err), w') \<and> trace w' = trace w @ t
      \<and> list_all ofStatement t \<and> list_all (within (WithSpan cx span)) t
      \<and> sent t = replicate n (runner_id (connR (dbConn d)), sql, args)
      \<and> 1 \<le> n \<and> int n \<le> max 0 (rpMaxCount (dbRetry d)) + 1"
  shows "reported span operation d cx sql args w (tracedOperation d cx span operation body w)"
proof -
  obtain v err w' t n where "body (WithSpan cx span) (w\<lparr>trace := trace w @ [SpanLine span]\<rparr>) = (Ret (v, err), w')"
    "trace w' = (trace w @ [SpanLine span]) @ t" and
    t: "list_all ofStatement t" "list_all (within (WithSpan cx span)) t"
    "sent t = replicate n (runner_id (connR (dbConn d)), sql, args)"
    "1 \<le> n" "int n \<le> max 0 (rpMaxCount (dbRetry d)) + 1"
    using assms(2) [of "w\<lparr>trace := trace w @ [SpanLine span]\<rparr>"] by auto
  then show ?thesis
    using assms(1) unfolding reported_def tracedOperation_def
    by (intro exI [of _ v] exI [of _ err] exI [of _ t] exI [of _ n]
        exI [of _ "w'\<lparr>trace := trace w' @ [OpObserved operation (if err = None then ''success'' else ''error'')]\<rparr>"])
      (cases err; simp add: act_simps observeOperation_def)
qed

text \<open>C5: each operation that takes a context opens exactly one span and takes exactly one
  measurement, labelled \<open>error\<close> exactly when it returns an error; the statement, all its retries
  included, is sent in between, at least once and at most \<open>RetryMaxCount + 1\<close> times, always in a
  context under that span and bounded by a deadline.\<close>
theorem context_operations_reported:
  assumes "obsLogger (connObs (dbConn d))" and "obsTracer (connObs (dbConn d))"
  shows "reported ''db.execute'' ''execute'' d cx sql args w (dbExecuteContext d cx sql args w)
    \<and> reported ''db.query'' ''query'' d cx sql args w (dbQueryContext m1 cx d sql args w)
    \<and> reported ''db.query'' ''query'' d cx sql args w (dbQueryRowContext m2 cx d sql args w)
    \<and> reported ''db.scalar'' ''scalar'' d cx sql args w (dbScalarContext m3 cx d sql args w)"
  unfolding dbExecuteContext_def dbQueryContext_def dbQueryRowContext_def dbScalarContext_def retried_def
  by (intro conjI tracedOperation_reported [OF assms(2)])
    (rule exec.retry_whole query.retry_whole query_row.retry_whole scalar.retry_whole;
     intro assms(1) emits_intros)+

theorem context_operations_reported_witness:
  "reported ''db.query'' ''query'' sampleDB (Caller 0) ''SELECT 1'' [] (sampleWorld [] [Some (Msg ''eof'')])
     (dbQueryContext sampleMapper (Caller 0) sampleDB ''SELECT 1'' [] (sampleWorld [] [Some (Msg ''eof'')]))"
proof -
  have "obsLogger (connObs (dbConn sampleDB))" "obsTracer (connObs (dbConn sampleDB))"
    by (simp_all add: sampleDB_def sampleConn_def newObservability_def)
  then show ?thesis
    using context_operations_reported [of sampleDB "Caller 0" "''SELECT 1''" "[]"
        "sampleWorld [] [Some (Msg ''eof'')]" sampleMapper sampleMapper sampleMapper]
    by blast
qed

section \<open>Hidden arguments\<close>

lemma emits_tracedOperation:
  assumes "\<And>s. P (SpanLine s)" "\<And>r. P (OpObserved operation r)" "\<And>cx. emits P (body cx)"
  shows "emits P (tracedOperation d c span operation body)"
  unfolding tracedOperation_def observeOperation_def
  by (intro emits_intros emits_deferring assms)

lemma tracedOperation_calls:
  assumes "obsTracer (connObs (dbConn d))"
  shows "calls (trace (snd (tracedOperation d c span operation body w)))
    = calls (trace (snd (body (WithSpan c span) (w\<lparr>trace := trace w @ [SpanLine span]\<rparr>))))"
  using assms
  by (simp add: tracedOperation_def deferring_def observeOperation_def calls_def act_simps
      split: prod.split outcome.split)

lemma tracedOperation_sends:
  assumes "obsTracer (connObs (dbConn d))"
    and "\<And>c w. \<exists>n. length (calls (trace (snd (body c w)))) = length (calls (trace w)) + n \<and> 1 \<le> n \<and> Q n"
  shows "length (calls (trace w)) < length (calls (trace (snd (tracedOperation d c span operation body w))))"
  unfolding tracedOperation_calls [OF assms(1)]
  using assms(2) [of "WithSpan c span" "w\<lparr>trace := trace w @ [SpanLine span]\<rparr>"] by (auto simp: calls_def)

lemma withSpan_sends:
  assumes "\<And>w. \<exists>n. length (calls (trace (snd (fn w)))) = length (calls (trace w)) + n \<and> 1 \<le> n \<and> Q n"
  shows "length (calls (trace w)) < length (calls (trace (snd (withSpan c operation fn w))))"
  using withSpan_bounded [where P = "\<lambda>n. 1 \<le> n \<and> Q n", OF assms, of c operation w] by auto

lemma sends_more:
  assumes "\<exists>n. length (calls (trace w')) = length (calls (trace w)) + n \<and> 1 \<le> n \<and> Q n"
  shows "length (calls (trace w)) < length (calls (trace w'))"
  using assms by auto

text \<open>The eight operations of a \<open>DB\<close>: those that use its own context and those that take one.\<close>

definition operationWorlds ::
  "('d, 'a) mapper \<Rightarrow> ('d, 'b) mapper \<Rightarrow> ('d, 'c) mapper \<Rightarrow> 'd db \<Rightarrow> ctx \<Rightarrow> string \<Rightarrow> gval list
     \<Rightarrow> 'd world \<Rightarrow> 'd world list" where
  "operationWorlds m1 m2 m3 d cx sql args w =
     [snd (dbExecute d sql args w), snd (dbQuery m1 d sql args w), snd (dbQueryRow m2 d sql args w),
      snd (dbScalar m3 d sql args w), snd (dbExecuteContext d cx sql args w),
      snd (dbQueryContext m1 cx d sql args w), snd (dbQueryRowContext m2 cx d sql args w),
      snd (dbScalarContext m3 cx d sql args w)]"

lemmas db_context_op_defs = dbExecuteContext_def dbQueryContext_def dbQueryRowContext_def dbScalarContext_def

lemma list_all_sel: "list_all P (x # xs) \<longleftrightarrow> P x \<and> list_all P xs" "list_all P [] \<longleftrightarrow> True"
  by simp_all

lemma operations_send:
  assumes "obsLogger (connObs (dbConn d))" "obsTracer (connObs (dbConn d))"
    and "w' \<in> set (operationWorlds m1 m2 m3 d cx sql args w)"
  shows "length (calls (trace w)) < length (calls (trace w'))"
proof -
  note sends = exec.retry_calls [OF assms(1)] query.retry_calls [OF assms(1)]
    query_row.retry_calls [OF assms(1)] scalar.retry_calls [OF assms(1)]
  have "list_all (\<lambda>w'. length (calls (trace w)) < length (calls (trace w'))) (operationWorlds m1 m2 m3 d cx sql args w)"
    unfolding operationWorlds_def db_op_defs db_context_op_defs list_all_sel
    by (intro conjI TrueI) (rule withSpan_sends tracedOperation_sends [OF assms(2)] sends_more, rule sends)+
  with assms(3) show ?thesis by (simp add: list_all_iff)
qed

lemma operations_hide:
  assumes "HideQueryArgs (connO (dbConn d))" and "w' \<in> set (operationWorlds m1 m2 m3 d cx sql args w)"
  shows "\<exists>t. trace w' = trace w @ t \<and> list_all (argsHidden sql args) t"
proof -
  let ?P = "argsHidden sql args"
  note hide = hiding_events [OF assms(1), of sql args]
  note runs = statement_events.runner_events [OF hide] statement_events.retry_events [OF hide]
  have "list_all (\<lambda>w'. \<exists>t. trace w' = trace w @ t \<and> list_all ?P t) (operationWorlds m1 m2 m3 d cx sql args w)"
    unfolding operationWorlds_def db_op_defs db_context_op_defs list_all_sel
    by (intro conjI TrueI) (rule spec [where x = w, OF iffD1 [OF emits_def]],
        intro emits_withSpan emits_tracedOperation runs argsHidden.simps [THEN iffD2] TrueI)+
  with assms(2) show ?thesis by (simp add: list_all_iff)
qed

text \<open>C9: with \<open>HideQueryArgs\<close> set no hook is ever shown the arguments of a statement. In everything that any
  of the eight operations adds to the trace, all retries included, each call of a method of a hook, with or
  without a context, before or after the statement, carries an empty argument list, while every
  statement that is sent, and at least one is, carries the text and the arguments of the caller.\<close>
theorem hidden_args_never_reach_hooks:
  assumes "HideQueryArgs (connO (dbConn d))" and "obsLogger (connObs (dbConn d))" "obsTracer (connObs (dbConn d))"
    and "w' \<in> set (operationWorlds m1 m2 m3 d cx sql args w)"
  shows "\<exists>t. trace w' = trace w @ t \<and> calls t \<noteq> []
     \<and> (\<forall>ph i info. HookCall ph i info \<in> set t \<longrightarrow> qiArgs info = [])
     \<and> (\<forall>ph i c info. HookCtxCall ph i c info \<in> set t \<longrightarrow> qiArgs info = [])
     \<and> (\<forall>i m c sql' args'. Call i m c sql' args' \<in> set t \<longrightarrow> sql' = sql \<and> args' = args)"
proof -
  obtain t where t: "trace w' = trace w @ t" "list_all (argsHidden sql args) t"
    using operations_hide [OF assms(1,4)] by blast
  have "calls t \<noteq> []" using operations_send [OF assms(2-4)] t(1) by (auto simp: calls_def)
  with t show ?thesis by (intro exI [of _ t]) (auto simp: list_all_iff)
qed

text \<open>A hook of both kinds, asked twice: the first attempt fails.\<close>

definition nosyHook :: "'d userHook" where
  "nosyHook = panickyHook\<lparr>contextual := Some (\<lambda>c info s. (Ret (), s), \<lambda>c info s. (Ret (), s))\<rparr>"

definition discreetDB :: "gerr option list db" where
  "discreetDB = sampleDB\<lparr>dbConn := sampleConn\<lparr>connO := sampleOptions\<lparr>HideQueryArgs := True\<rparr>\<rparr>\<rparr>"

theorem hidden_args_never_reach_hooks_witness:
  "let w = sampleWorld [UserHook nosyHook] [Some (Msg ''eof''), None];
       w' = snd (dbExecuteContext discreetDB (Caller 0) ''INSERT'' [GStr ''secret''] w)
   in \<exists>t. trace w' = t \<and> calls t \<noteq> []
     \<and> (\<forall>ph i c info. HookCtxCall ph i c info \<in> set t \<longrightarrow> qiArgs info = [])"
proof -
  let ?w = "sampleWorld [UserHook nosyHook] [Some (Msg ''eof''), None]"
  have "HideQueryArgs (connO (dbConn discreetDB))" "obsLogger (connObs (dbConn discreetDB))"
    "obsTracer (connObs (dbConn discreetDB))"
    by (simp_all add: discreetDB_def sampleDB_def sampleConn_def newObservability_def)
  moreover have "snd (dbExecuteContext discreetDB (Caller 0) ''INSERT'' [GStr ''secret''] ?w)
      \<in> set (operationWorlds sampleMapper sampleMapper sampleMapper discreetDB (Caller 0) ''INSERT'' [GStr ''secret''] ?w)"
    by (simp add: operationWorlds_def)
  ultimately show ?thesis
    using hidden_args_never_reach_hooks [of discreetDB] by (fastforce simp: Let_def sampleWorld_def)
qed

end
