(* ===== verification/Operation_Timing.thy ===== *)
theory Operation_Timing
  imports Timing Connection_Properties
begin

text \<open>
  How long an operation of a \<open>DB\<close> can take: the attempts of its retry policy, each up to
  \<open>CommandTimeout\<close>, and the delays between them.
\<close>

section \<open>Retries\<close>

lemma sleep_bounds:
  assumes "sleep p c k w = (se, w')"
  shows "clock (env w) \<le> clock (env w') \<and> clock (env w') \<le> clock (env w) + max (backoffDelay p k) 0"
  using assms by (auto simp: sleep_def Let_def split: option.splits if_splits)

text \<open>The attempts from number \<open>k\<close> on and the delays between them, when an attempt takes at most \<open>d\<close>.\<close>

definition loopTime :: "retryPolicy \<Rightarrow> int \<Rightarrow> nat \<Rightarrow> int" where
  "loopTime p d k =
     (\<Sum>j = k..<nat (rpMaxCount p). max (backoffDelay p j) 0) + int (Suc (nat (rpMaxCount p) - k)) * d"

lemma loopTime_Suc:
  assumes "k < nat (rpMaxCount p)"
  shows "loopTime p d k = d + max (backoffDelay p k) 0 + loopTime p d (Suc k)"
proof -
  have "Suc (nat (rpMaxCount p) - k) = Suc (Suc (nat (rpMaxCount p) - Suc k))" using assms by simp
  moreover have "(\<Sum>j = k..<nat (rpMaxCount p). max (backoffDelay p j) 0)
      = max (backoffDelay p k) 0 + (\<Sum>j = Suc k..<nat (rpMaxCount p). max (backoffDelay p j) 0)"
    using assms by (rule sum.atLeast_Suc_lessThan)
  ultimately show ?thesis by (simp add: loopTime_def algebra_simps)
qed

lemma loopTime_ge: "0 \<le> d \<Longrightarrow> d \<le> loopTime p d k"
  by (auto simp: loopTime_def algebra_simps intro!: add_nonneg_nonneg sum_nonneg)

lemma timed_doLoop:
  assumes "timed h d fn (\<lambda>_. True)" and "0 \<le> d"
  shows "timed h (loopTime p d k) (doLoop p c fn k) (\<lambda>_. True)"
proof (induction "nat (rpMaxCount p) - k" arbitrary: k rule: less_induct)
  case less
  show ?case
    unfolding timed_def
  proof (intro allI impI)
    fix w :: "'a world" assume s: "hookIds (snapshot h w) = []"
    obtain v err w1 where r: "fn w = (Ret (v, err), w1)" "regs w1 = regs w"
      "clock (env w) \<le> clock (env w1)" "clock (env w1) \<le> clock (env w) + d"
      using assms(1) s unfolding timed_def by (metis prod.collapse)
    let ?goal = "\<lambda>res. \<exists>x w'. res = (Ret x, w') \<and> True \<and> regs w' = regs w
      \<and> clock (env w) \<le> clock (env w') \<and> clock (env w') \<le> clock (env w) + loopTime p d k"
    show "?goal (doLoop p c fn k w)"
    proof (cases "shouldRetry p err k")
      case False
      then have "doLoop p c fn k w = (Ret (v, err), w1)"
        by (cases err) (simp_all add: doLoop.simps [of p c fn k w] r(1))
      then show ?thesis using r loopTime_ge [OF assms(2), of p k] by simp
    next
      case True
      then obtain e where e: "err = Some e" and k: "k < nat (rpMaxCount p)"
        by (cases err) (auto simp: shouldRetry_def split: if_splits)
      obtain se w2 where sl: "sleep p c k (retryNotice p w1) = (se, w2)" by fastforce
      note b = sleep_bounds [OF sl, unfolded retryNotice_frame]
      have w2: "regs w2 = regs w" "hookIds (snapshot h w2) = []"
        using sleep_frame(1) [of p c k "retryNotice p w1"] r(2) s snapshot_regs [of w2 w h]
        by (simp_all add: sl retryNotice_frame)
      show ?thesis
      proof (cases se)
        case (Some x)
        then have "doLoop p c fn k w = (Ret (v, Some (Joined [e, wrapE ''database: retry aborted: '' x])), w2)"
          using True by (simp add: doLoop.simps [of p c fn k w] r(1) e sl)
        then show ?thesis
          using r(3,4) b w2(1) loopTime_Suc [OF k, of d] loopTime_ge [OF assms(2), of p "Suc k"] assms(2) by simp
      next
        case None
        then have "doLoop p c fn k w = doLoop p c fn (Suc k) w2"
          using True by (simp add: doLoop.simps [of p c fn k w] r(1) e sl)
        moreover have "timed h (loopTime p d (Suc k)) (doLoop p c fn (Suc k)) (\<lambda>_. True)"
          using k by (intro less.hyps) simp
        then obtain x w3 where "doLoop p c fn (Suc k) w2 = (Ret x, w3)" "regs w3 = regs w"
          "clock (env w2) \<le> clock (env w3)" "clock (env w3) \<le> clock (env w2) + loopTime p d (Suc k)"
          using w2 unfolding timed_def by metis
        ultimately show ?thesis using r(3,4) b loopTime_Suc [OF k, of d] by simp
      qed
    qed
  qed
qed

definition retryTime :: "retryPolicy \<Rightarrow> int \<Rightarrow> int" where
  "retryTime p d = (if rpEnabled p then loopTime p d 0 else d)"

lemma timed_retryDo:
  "timed h d fn (\<lambda>_. True) \<Longrightarrow> 0 \<le> d \<Longrightarrow> timed h (retryTime p d) (retryDo c p fn) (\<lambda>_. True)"
  by (simp add: retryTime_def retryDo_def timed_doLoop)

text \<open>While the delays fit 63 bits, they sum up geometrically.\<close>

lemma retryTime_closed:
  assumes "0 \<le> rpBaseDelay p" and "rpBaseDelay p * 2 ^ nat (rpMaxCount p) < 2 ^ 63" and "rpEnabled p"
  shows "retryTime p d = int (Suc (nat (rpMaxCount p))) * d + rpBaseDelay p * (2 ^ nat (rpMaxCount p) - 1)"
proof -
  have "max (backoffDelay p j) 0 = rpBaseDelay p * 2 ^ j" if "j < nat (rpMaxCount p)" for j
  proof -
    have "rpBaseDelay p * 2 ^ j \<le> rpBaseDelay p * 2 ^ nat (rpMaxCount p)"
      using assms(1) that by (intro mult_left_mono power_increasing) simp_all
    with assms show ?thesis by (simp add: backoffDelay_exact)
  qed
  then have "(\<Sum>j = 0..<nat (rpMaxCount p). max (backoffDelay p j) 0)
      = rpBaseDelay p * (\<Sum>j = 0..<nat (rpMaxCount p). 2 ^ j)"
    by (simp add: sum_distrib_left)
  also have "(\<Sum>j = 0..<n. 2 ^ j) = (2 ^ n - 1 :: int)" for n
    by (induction n) simp_all
  finally show ?thesis using assms(3) by (simp add: retryTime_def loopTime_def)
qed

section \<open>Operations\<close>

text \<open>A telemetry client that takes no time.\<close>

definition instantTelemetry :: "'d conn \<Rightarrow> bool" where
  "instantTelemetry c \<longleftrightarrow>
     (\<forall>t. connOps c = Some t \<longrightarrow>
        (\<forall>n s. clock (spanStart t n s) = clock s) \<and> (\<forall>n e s. clock (snd (spanEnd t n e s)) = clock s))"

lemma timed_withSpan:
  assumes "timed h d fn (\<lambda>_. True)" and "instantTelemetry c" and "0 \<le> d"
  shows "timed h d (withSpan c operation fn) (\<lambda>_. True)"
proof (cases "connOps c")
  case None
  with assms(1) show ?thesis by (simp add: withSpan_def)
next
  case (Some t)
  have "timed h 0 (driver (\<lambda>s. ((), spanStart t n s))) (\<lambda>_. True)" for n
    using assms(2) Some by (simp add: timed_def act_simps instantTelemetry_def)
  moreover have "timed h 0 (andThen (driver (spanEnd t n e)) (\<lambda>err. ret (v, err))) (\<lambda>_. True)" for n e v
    using assms(2) Some by (simp add: timed_def act_simps instantTelemetry_def)
  then have "timed h d (andThen fn (\<lambda>(v, err).
      andThen (driver (spanEnd t (''db.'' @ operation) err)) (\<lambda>err'. ret (v, err')))) (\<lambda>_. True)"
    by (intro timed_andThen [OF assms(1), where ?d2.0 = 0]) (auto simp only: split_def)
  ultimately show ?thesis
    unfolding withSpan_def Some option.case
    by (rule timed_andThen [where ?d1.0 = 0 and ?d2.0 = d and P = "\<lambda>_. True"]) simp_all
qed

definition returnsWithin :: "int \<Rightarrow> 'd world \<Rightarrow> 'a outcome \<times> 'd world \<Rightarrow> bool" where
  "returnsWithin d w res \<longleftrightarrow>
     (case res of (Ret x, w') \<Rightarrow> clock (env w') \<le> clock (env w) + d | (Panic p, w') \<Rightarrow> False)"

lemma timed_returnsWithin:
  "timed h d m Q \<Longrightarrow> hookIds (snapshot h w) = [] \<Longrightarrow> returnsWithin d w (m w)"
  unfolding timed_def returnsWithin_def by fastforce

text \<open>An operation is bounded in time. Over a driver whose statements and rows end when their contexts
  do, and without hooks of the caller, each of \<open>Execute\<close>, \<open>Query\<close>, \<open>QueryRow\<close> and \<open>Scalar\<close> returns
  within \<open>RetryMaxCount + 1\<close> times \<open>CommandTimeout\<close> plus the delays of its policy,
  \<open>baseDelay * (2^RetryMaxCount - 1)\<close> in all, whatever the driver answers and whether a telemetry client
  or metrics collectors are attached.\<close>
lemma operation_latency:
  assumes "obsLogger (connObs (dbConn d))" and "promptExec (connR (dbConn d))"
    and "promptReads (connR (dbConn d)) m1" "promptReads (connR (dbConn d)) m2" "promptReads (connR (dbConn d)) m3"
    and "instantTelemetry (dbConn d)" and "hookIds (snapshot (connHooks (dbConn d)) w) = []"
    and "0 \<le> rpBaseDelay (dbRetry d)" and "rpBaseDelay (dbRetry d) * 2 ^ nat (rpMaxCount (dbRetry d)) < 2 ^ 63"
    and "rpEnabled (dbRetry d)"
    and "limit = (int (nat (rpMaxCount (dbRetry d))) + 1) * max (CommandTimeout (connO (dbConn d))) 0
      + rpBaseDelay (dbRetry d) * (2 ^ nat (rpMaxCount (dbRetry d)) - 1)"
  shows "returnsWithin limit w (dbExecute d sql args w)
    \<and> returnsWithin limit w (dbQuery m1 d sql args w)
    \<and> returnsWithin limit w (dbQueryRow m2 d sql args w)
    \<and> returnsWithin limit w (dbScalar m3 d sql args w)"
proof -
  let ?c = "dbConn d" and ?T = "execTime (connO (dbConn d))"
  have c: "timelyConn (connO ?c) (connHooks ?c) ?c" using assms(1,2) by (simp add: timelyConn_def)
  have limit: "limit = retryTime (dbRetry d) ?T"
    using retryTime_closed [OF assms(8,9,10)] assms(11) by simp
  have "0 \<le> limit"
    using loopTime_ge [of ?T "dbRetry d" 0] assms(10) by (simp add: limit retryTime_def)
  note spanned = timed_withSpan [OF _ assms(6) this]
  note returns = timed_returnsWithin [where Q = "\<lambda>_. True", OF _ assms(7)]
  note retry = timed_retryDo [where d = ?T and p = "dbRetry d", folded limit]
  show ?thesis
    unfolding db_op_defs connExecute_Context runQuery_def runQueryRow_def runScalar_def
    by (intro conjI returns spanned retry timed_execute [OF c] timed_reads(1) [OF c assms(3)]
        timed_reads(2) [OF c assms(4)] timed_reads(3) [OF c assms(5)]) simp_all
qed

section \<open>From the options to the bound\<close>

lemma New_newDB:
  assumes "New l load e c inst [o0] w = (Ret (Inr d), w')"
  obtains d0 where "newDB l c o0 (resolveInst l inst) w = (Ret (Inr d0), w')"
    "dbConn d = (dbConn d0)\<lparr>connOps := (case telemetryClient l (resolveInst l inst) of
        Some t \<Rightarrow> Some t | None \<Rightarrow> connOps (dbConn d0))\<rparr>" "dbRetry d = dbRetry d0"
  using assms
  by (fastforce simp: New_def Let_def act_simps split: prod.splits outcome.splits sum.splits option.splits)

text \<open>C4: a \<open>DB\<close> is as fast as its options say. When \<open>New\<close> opens a \<open>DB\<close> over a driver whose statements and
  rows end when their contexts do, each of \<open>Execute\<close>, \<open>Query\<close>, \<open>QueryRow\<close> and \<open>Scalar\<close> on it returns
  within \<open>RetryMaxCount + 1\<close> times \<open>CommandTimeout\<close> plus \<open>RetryBaseDelay * (2^RetryMaxCount - 1)\<close>, the
  options taken after defaulting: whatever the driver answers, with or without metrics collectors and
  a telemetry client, as long as the caller registers no hooks of its own and the last delay fits 63
  bits.\<close>
theorem opened_db_latency:
  assumes "New l load e c inst [o0] w0 = (Ret (Inr d), w1)" and "o1 = withDefaults o0"
    and "\<And>cfg s raw s'. newPoolWithConfig l cfg s = (Inr raw, s') \<Longrightarrow> promptExec (npRunner raw)
      \<and> promptReads (npRunner raw) m1 \<and> promptReads (npRunner raw) m2 \<and> promptReads (npRunner raw) m3"
    and "\<And>t. telemetryClient l (resolveInst l inst) = Some t \<Longrightarrow>
      (\<forall>n s. clock (spanStart t n s) = clock s) \<and> (\<forall>n e s. clock (snd (spanEnd t n e s)) = clock s)"
    and "hookIds (snapshot (connHooks (dbConn d)) w) = []"
    and "RetryEnabled o1" and "0 \<le> RetryBaseDelay o1" and "RetryBaseDelay o1 * 2 ^ nat (RetryMaxCount o1) < 2 ^ 63"
    and "limit = (int (nat (RetryMaxCount o1)) + 1) * max (CommandTimeout o1) 0
      + RetryBaseDelay o1 * (2 ^ nat (RetryMaxCount o1) - 1)"
  shows "returnsWithin limit w (dbExecute d sql args w)
    \<and> returnsWithin limit w (dbQuery m1 d sql args w)
    \<and> returnsWithin limit w (dbQueryRow m2 d sql args w)
    \<and> returnsWithin limit w (dbScalar m3 d sql args w)"
proof (rule New_newDB [OF assms(1)])
  fix d0
  assume d0: "newDB l c o0 (resolveInst l inst) w0 = (Ret (Inr d0), w1)" "dbRetry d = dbRetry d0"
    and conn: "dbConn d = (dbConn d0)\<lparr>connOps := (case telemetryClient l (resolveInst l inst) of
        Some t \<Rightarrow> Some t | None \<Rightarrow> connOps (dbConn d0))\<rparr>"
  show ?thesis
  proof (rule newDB_shape [OF d0(1) assms(2)])
    fix cfg s s' raw
    assume "newPoolWithConfig l cfg s = (Inr raw, s')"
      and shape: "dbConn d0 = \<lparr>connR = npRunner raw, connO = o1, connCtx = c, connHooks = Some (fresh w0),
        connOps = None, connObs = newObservability\<rparr>"
      "dbRetry d0 = withObservability (NewRetryPolicy (RetryEnabled o1) (RetryMaxCount o1) (RetryBaseDelay o1))"
    note prompt = assms(3) [OF this(1)]
    have "instantTelemetry (dbConn d)"
      using assms(4) by (simp add: instantTelemetry_def conn shape(1) split: option.split)
    then show ?thesis
      using prompt assms(5-9)
      by (intro operation_latency) (simp_all add: conn d0(2) shape newObservability_def withObservability_def NewRetryPolicy_def)
  qed
qed

text \<open>With the default options the bound is four statements of 30 seconds and 700 milliseconds.\<close>

lemma scripted_prompt:
  "promptExec (scriptRunner i)" "promptReads (scriptRunner i) sampleMapper"
proof -
  have "clock (snd (popScript s)) = clock s" for s
    by (cases "drv s") (simp_all add: popScript_def)
  then show "promptExec (scriptRunner i)" "promptReads (scriptRunner i) sampleMapper"
    by (auto simp: promptExec_def promptReads_def promptCall_def endsBy_def scriptRunner_def sampleMapper_def split_def)
qed

theorem opened_db_latency_witness:
  "\<exists>d w1. New scriptLibs (\<lambda>_ e. (None, e)) (\<lambda>_. []) Background None [openedOptions] (sampleWorld [] []) = (Ret (Inr d), w1)
     \<and> returnsWithin (4 * (30 * Second) + 700 * Millisecond) w1 (dbScalar sampleMapper d ''SELECT 1'' [] w1)"
proof -
  let ?w0 = "sampleWorld [] [] :: gerr option list world"
  obtain d w1 where new: "newDB scriptLibs Background openedOptions None ?w0 = (Ret (Inr d), w1)"
    using scripted_newDB by blast
  then have "New scriptLibs (\<lambda>_ e. (None, e)) (\<lambda>_. []) Background None [openedOptions] ?w0 = (Ret (Inr d), w1)"
    by (simp add: New_def Let_def act_simps scriptLibs_def)
  moreover have "hookIds (snapshot (connHooks (dbConn d)) w1) = []"
    by (rule newDB_shape [OF new refl])
      (simp add: snapshot_def hr_snapshot_def hookIds_def openedOptions_def Default_def zeroOptions_def)
  ultimately show ?thesis
    using opened_db_latency [where l = scriptLibs and ?o0.0 = openedOptions and ?m1.0 = sampleMapper
        and ?m2.0 = sampleMapper and ?m3.0 = sampleMapper and ?o1.0 = "withDefaults openedOptions"
        and sql = "''SELECT 1''" and args = "[]" and w = w1 and d = d]
    by (fastforce simp: scriptLibs_def scriptPool_def scripted_prompt openedOptions_def withDefaults_fields Default_fields)
qed

end
