(* ===== verification/Pagination.thy ===== *)
theory Pagination
  imports Repository_Properties Statements
begin

text \<open>
  \<open>Paginate\<close> and \<open>HasNextPage\<close> (repository.go, results.go) as a client uses them: it asks for the first
  page and goes on while a next page is promised. Over a server that counts and cuts windows out of one
  result, the walk ends and has seen every row once, in order.
\<close>

section \<open>A driver that answers\<close>

text \<open>The driver delivers \<open>rows\<close> for a query, and \<open>v\<close> for a query of one value, in every state and
  context.\<close>

definition answersRows :: "'d runner \<Rightarrow> ('d, 't) mapper \<Rightarrow> string \<Rightarrow> gval list \<Rightarrow> 't list \<Rightarrow> bool" where
  "answersRows r1 m sql args rows \<longleftrightarrow>
     (\<forall>cc s. \<exists>h s'. rQuery r1 cc sql args s = ((h, None), s') \<and> fst (collectRows m h s') = (rows, None))"

definition answersValue :: "'d runner \<Rightarrow> ('d, 't) mapper \<Rightarrow> string \<Rightarrow> gval list \<Rightarrow> 't \<Rightarrow> bool" where
  "answersValue r1 m sql args v \<longleftrightarrow>
     (\<forall>cc s. \<exists>h s'. rQueryRow r1 cc sql args s = (h, s') \<and> fst (scanRow m h s') = (v, None))"

text \<open>The telemetry client makes no error of a success.\<close>

definition keepsSuccess :: "'d conn \<Rightarrow> bool" where
  "keepsSuccess c \<longleftrightarrow> (\<forall>t. connOps c = Some t \<longrightarrow> (\<forall>n s. fst (spanEnd t n None s) = None))"

lemma runQuery_answered:
  assumes "obsLogger (connObs c)" and "answersRows (connR c) m sql args rows"
  shows "\<exists>w'. runQuery m c sql args w = (Ret (rows, None), w')"
proof -
  obtain w1 where f: "fireBeforeContext c (base c) OpQuery sql args w = (Ret (), w1)"
    using fireBefore_ok [OF assms(1)] by blast
  let ?cc = "WithDeadline (base c) (clock (env w1) + CommandTimeout (connO c))"
  obtain h s' where q: "rQuery (connR c) ?cc sql args (env w1) = ((h, None), s')"
    "fst (collectRows m h s') = (rows, None)"
    using assms(2) unfolding answersRows_def by blast
  then obtain s'' where rows: "collectRows m h s' = ((rows, None), s'')" by (metis prod.collapse)
  let ?w2 = "w1\<lparr>trace := trace w1 @ [Call (runner_id (connR c)) ''Query'' ?cc sql args], env := s''\<rparr>"
  from after_phase [OF assms(1), of "clock (env w1)" sql "base c" OpQuery args None "int (length rows)" "(rows, None)" ?w2]
  show ?thesis
    by (auto simp: runQuery_def runQueryContext_def andThen_app [of "fireBeforeContext _ _ _ _ _"] f
        andThen_app [of "timeout _ _"] andThen_app [of now] timeout_app now_app call_simps q rows)
qed

lemma runScalar_answered:
  assumes "obsLogger (connObs c)" and "answersValue (connR c) m sql args v"
  shows "\<exists>w'. runScalar m c sql args w = (Ret (v, None), w')"
proof -
  obtain w1 where f: "fireBeforeContext c (base c) OpScalar sql args w = (Ret (), w1)"
    using fireBefore_ok [OF assms(1)] by blast
  let ?cc = "WithDeadline (base c) (clock (env w1) + CommandTimeout (connO c))"
  obtain h s' where q: "rQueryRow (connR c) ?cc sql args (env w1) = (h, s')" "fst (scanRow m h s') = (v, None)"
    using assms(2) unfolding answersValue_def by blast
  then obtain s'' where v: "scanRow m h s' = ((v, None), s'')" by (metis prod.collapse)
  let ?w2 = "w1\<lparr>trace := trace w1 @ [Call (runner_id (connR c)) ''QueryRow'' ?cc sql args], env := s''\<rparr>"
  from after_phase [OF assms(1), of "clock (env w1)" sql "base c" OpScalar args None rowsUnknown "(v, None)" ?w2]
  show ?thesis
    by (auto simp: runScalar_def runScalarContext_def andThen_app [of "fireBeforeContext _ _ _ _ _"] f
        andThen_app [of "timeout _ _"] andThen_app [of now] timeout_app now_app call_simps q v)
qed

lemma retryDo_success: "fn w = (Ret (v, None), w') \<Longrightarrow> retryDo c p fn w = (Ret (v, None), w')"
  by (simp add: retryDo_def doLoop.simps [of p c fn 0 w])

lemma dbScalar_answered:
  assumes "obsLogger (connObs (dbConn d))" and "answersValue (connR (dbConn d)) m sql args v"
  shows "\<exists>w'. dbScalar m d sql args w = (Ret (v, None), w')"
  using runScalar_answered [OF assms, of w] by (auto simp: dbScalar_def retried_def dest: retryDo_success)

lemma dbQuery_answered:
  assumes "obsLogger (connObs (dbConn d))" and "answersRows (connR (dbConn d)) m sql args rows"
    and "keepsSuccess (dbConn d)"
  shows "\<exists>w'. dbQuery m d sql args w = (Ret (rows, None), w')"
proof -
  have run: "\<exists>w'. retryDo (base (dbConn d)) (dbRetry d) (runQuery m (dbConn d) sql args) w = (Ret (rows, None), w')" for w
    using runQuery_answered [OF assms(1,2), of w] by (auto dest: retryDo_success)
  show ?thesis
  proof (cases "connOps (dbConn d)")
    case None
    with run show ?thesis by (simp add: dbQuery_def withSpan_def retried_def)
  next
    case (Some t)
    let ?w = "w\<lparr>env := spanStart t (''db.'' @ ''query'') (env w)\<rparr>"
    obtain w1 where "retryDo (base (dbConn d)) (dbRetry d) (runQuery m (dbConn d) sql args) ?w = (Ret (rows, None), w1)"
      using run by blast
    with Some assms(3) show ?thesis
      by (auto simp: dbQuery_def withSpan_def retried_def act_simps keepsSuccess_def)
  qed
qed

section \<open>Walking the pages\<close>

text \<open>The client: \<open>None\<close> when an error is returned or the fuel is spent.\<close>

primrec walkPages ::
  "nat \<Rightarrow> (int \<Rightarrow> ('d world, 't pageResult \<times> gerr option) act) \<Rightarrow> int \<Rightarrow> ('d world, 't list option) act" where
  "walkPages 0 fetch page = ret None"
| "walkPages (Suc n) fetch page =
     andThen (fetch page) (\<lambda>(p, err).
       if err \<noteq> None then ret None
       else if HasNextPage p
       then andThen (walkPages n fetch (page + 1)) (\<lambda>rest. ret (map_option (append (Items p)) rest))
       else ret (Some (Items p)))"

text \<open>The statement whose result is paged, and what \<open>pageSQL\<close> makes of it.\<close>

definition orderedSQL :: "spec \<Rightarrow> string" where
  "orderedSQL sp = (if OrderBy sp \<noteq> [] then specSQL sp @ '' ORDER BY '' @ OrderBy sp else specSQL sp)"

lemma pageSQL_text:
  assumes "pageSQL sp 1 n = Inr sql" and "0 < n"
  shows "pageSQL sp page n = Inr (orderedSQL sp @ '' LIMIT '' @ Itoa n @ '' OFFSET '' @ Itoa (pageOffset page n))"
  using assms by (auto simp: pageSQL_def orderedSQL_def Let_def split: option.splits if_splits)

text \<open>The page \<open>page\<close> of \<open>rows\<close>, as \<open>Paginate\<close> reports it.\<close>

definition pageOf :: "'t list \<Rightarrow> int \<Rightarrow> int \<Rightarrow> 't pageResult" where
  "pageOf rows page n =
     \<lparr>Items = window rows n (pageOffset page n), TotalCount = int (length rows), Page = page, PageSize = n\<rparr>"

lemma Paginate_answered:
  assumes "obsLogger (connObs (dbConn (repoDB r)))" and "keepsSuccess (dbConn (repoDB r))"
    and "answersValue (connR (dbConn (repoDB r))) mi (countSQL sp) (specArgs sp) (int (length rows))"
    and "pageSQL sp page n = Inr sql"
    and "answersRows (connR (dbConn (repoDB r))) m sql (specArgs sp) (window rows n (pageOffset page n))"
  shows "\<exists>w'. Paginate mi m r sp page n w = (Ret (pageOf rows page n, None), w')"
proof -
  obtain w1 where "dbScalar mi (repoDB r) (countSQL sp) (specArgs sp) w = (Ret (int (length rows), None), w1)"
    using dbScalar_answered [OF assms(1,3)] by blast
  moreover obtain w2 where "dbQuery m (repoDB r) sql (specArgs sp) w1
      = (Ret (window rows n (pageOffset page n), None), w2)"
    using dbQuery_answered [OF assms(1,5,2)] by blast
  ultimately show ?thesis by (simp add: Paginate_def act_simps assms(4) pageOf_def)
qed

text \<open>From page \<open>k + 1\<close> on, enough fuel for the rows that are left.\<close>

lemma walk_from:
  assumes "0 < n" and "int (length rows) + n < 2 ^ 63" and "k * nat n \<le> length rows"
    and "(length rows - k * nat n) div nat n < f"
    and fetch: "\<And>p w. k \<le> p \<Longrightarrow> p * nat n \<le> length rows \<Longrightarrow>
      \<exists>w'. fetch (int p + 1) w = (Ret (pageOf rows (int p + 1) n, None), w')"
  shows "\<exists>w'. walkPages f fetch (int k + 1) w = (Ret (Some (drop (k * nat n) rows)), w')"
  using assms(3,4) fetch
proof (induction f arbitrary: k w)
  case (Suc f)
  let ?N = "nat n"
  have kn: "int k * n \<le> int (length rows)" and next1: "(int k + 1) * n < 2 ^ 63"
  proof -
    have "int (k * ?N) \<le> int (length rows)" using Suc.prems(1) by linarith
    then show "int k * n \<le> int (length rows)" using assms(1) by simp
    with assms(2) show "(int k + 1) * n < 2 ^ 63" by (simp add: algebra_simps)
  qed
  have off: "pageOffset (int k + 1) n = int k * n"
    using pageOffset_exact [of "int k + 1" n] assms(1) next1 by simp
  have items: "Items (pageOf rows (int k + 1) n) = take ?N (drop (k * ?N) rows)"
    using assms(1) by (simp add: pageOf_def window_def off nat_mult_distrib)
  have more: "HasNextPage (pageOf rows (int k + 1) n) \<longleftrightarrow> Suc k * ?N < length rows"
  proof -
    have "in64 ((int k + 1) * n)" using next1 assms(1) by (simp add: in64_def) (smt (verit) mult_nonneg_nonneg of_nat_0_le_iff)
    then have "HasNextPage (pageOf rows (int k + 1) n) \<longleftrightarrow> (int k + 1) * n < int (length rows)"
      by (simp add: pageOf_def HasNextPage_def)
    also have "(int k + 1) * n = int (Suc k * ?N)" using assms(1) by (simp add: algebra_simps)
    finally show ?thesis by (simp only: of_nat_less_iff)
  qed
  obtain w1 where w1: "fetch (int k + 1) w = (Ret (pageOf rows (int k + 1) n, None), w1)"
    using Suc.prems(1,3) by blast
  show ?case
  proof (cases "Suc k * ?N < length rows")
    case False
    then have "take ?N (drop (k * ?N) rows) = drop (k * ?N) rows" by simp
    with False more items w1 show ?thesis by (simp add: act_simps)
  next
    case True
    have "(length rows - k * ?N) div ?N = Suc ((length rows - Suc k * ?N) div ?N)"
      using True assms(1) by (simp add: le_div_geq diff_diff_eq add.commute)
    then obtain w2 where "walkPages f fetch (int (Suc k) + 1) w1 = (Ret (Some (drop (Suc k * ?N) rows)), w2)"
      using Suc.IH [of "Suc k" w1] Suc.prems True by (auto simp del: mult_Suc)
    moreover have "take ?N (drop (k * ?N) rows) @ drop (Suc k * ?N) rows = drop (k * ?N) rows"
      by (metis append_take_drop_id drop_drop mult_Suc)
    ultimately show ?thesis using True more items w1 by (simp add: act_simps ac_simps)
  qed
qed simp

text \<open>C27: following \<open>HasNextPage\<close> visits every row once. Over a server that counts the rows of a
  specification and answers its statement with \<open>LIMIT n OFFSET k\<close> by \<open>n\<close> rows from the \<open>k\<close>-th on, a client
  that calls \<open>Paginate\<close> for page 1 and goes on while a next page is promised gets all rows, in order, none
  twice, and stops after at most one page more than the rows fill; whatever hooks, retries and telemetry
  do meanwhile.\<close>
theorem pages_visit_all:
  assumes "obsLogger (connObs (dbConn (repoDB r)))" and "keepsSuccess (dbConn (repoDB r))"
    and "pageSQL sp 1 n = Inr sql" and "0 < n" and "int (length rows) + n < 2 ^ 63"
    and "answersValue (connR (dbConn (repoDB r))) mi (countSQL sp) (specArgs sp) (int (length rows))"
    and "\<And>k. 0 \<le> k \<Longrightarrow> k \<le> int (length rows) \<Longrightarrow>
      answersRows (connR (dbConn (repoDB r))) m (orderedSQL sp @ '' LIMIT '' @ Itoa n @ '' OFFSET '' @ Itoa k)
        (specArgs sp) (window rows n k)"
  shows "\<exists>w'. walkPages (Suc (length rows div nat n)) (\<lambda>page. Paginate mi m r sp page n) 1 w
    = (Ret (Some rows), w')"
proof -
  have "\<exists>w'. Paginate mi m r sp (int p + 1) n w = (Ret (pageOf rows (int p + 1) n, None), w')"
    if "p * nat n \<le> length rows" for p w
  proof -
    have "int (p * nat n) \<le> int (length rows)" using that by linarith
    then have "int p * n \<le> int (length rows)" using assms(4) by simp
    moreover from this assms(4,5) have "pageOffset (int p + 1) n = int p * n"
      using pageOffset_exact [of "int p + 1" n] by (simp add: algebra_simps)
    ultimately show ?thesis
      using assms(4) assms(7) [of "int p * n"]
      by (intro Paginate_answered [OF assms(1,2,6) pageSQL_text [OF assms(3,4)]]) simp
  qed
  then show ?thesis
    using walk_from [OF assms(4,5), of 0 "Suc (length rows div nat n)" "\<lambda>page. Paginate mi m r sp page n" w] by simp
qed

definition pageSpec :: spec where
  "pageSpec = \<lparr>specSQL = ''TABLE t'', specArgs = [], OrderBy = ''a''\<rparr>"

definition pagingRunner :: "unit runner" where
  "pagingRunner = Runner 1 (\<lambda>c sql args s. ((0, None), s))
     (\<lambda>c sql args s. ((length (takeWhile (\<lambda>k. sql \<noteq> ''TABLE t ORDER BY a LIMIT 2 OFFSET '' @ Itoa (int k)) [0..<4]), None), s))
     (\<lambda>c sql args s. (0, s)) None None None None None None"

definition pagingMapper :: "(unit, int) mapper" where
  "pagingMapper = \<lparr>zeroT = 0, collectRows = (\<lambda>h s. ((window [10, 20, 30] 2 (int h), None), s)),
     collectOneRow = (\<lambda>h s. ((0, None), s)), scanRow = (\<lambda>h s. ((3, None), s))\<rparr>"

definition pagingRepository :: "unit repository" where
  "pagingRepository = \<lparr>repoTable = ''t'', repoDB =
     \<lparr>dbConn = \<lparr>connR = pagingRunner, connO = sampleOptions, connCtx = Background, connHooks = Some 0,
                connOps = None, connObs = newObservability\<rparr>,
      dbPool = \<lparr>poolBegin = (\<lambda>c s. (Inl (Msg ''none''), s)), poolPing = (\<lambda>c s. (None, s)),
                poolClose = (\<lambda>s. s), poolStat = (\<lambda>s. \<lparr>InUse = 0, Idle = 0, MaxC = 1\<rparr>),
                poolAcquire = None, poolBeginTx = None\<rparr>,
      dbRetry = NewRetryPolicy True 3 (100 * Millisecond), dbPoolMetrics = None\<rparr>\<rparr>"

theorem pages_visit_all_witness:
  "\<exists>w'. walkPages 2 (\<lambda>page. Paginate pagingMapper pagingMapper pagingRepository pageSpec page 2) 1 (sampleWorld [] ())
     = (Ret (Some [10, 20, 30]), w')"
proof -
  obtain sql where sql: "pageSQL pageSpec 1 2 = Inr sql"
    using paged_sample by (simp add: pageSQL_def pageSpec_def Let_def)
  have itoa: "Itoa 0 = ''0''" "Itoa 1 = ''1''" "Itoa 2 = ''2''" "Itoa 3 = ''3''" by code_simp+
  have rows: "answersRows pagingRunner pagingMapper (orderedSQL pageSpec @ '' LIMIT '' @ Itoa 2 @ '' OFFSET '' @ Itoa k)
      (specArgs pageSpec) (window [10, 20, 30] 2 k)" if "0 \<le> k" "k \<le> 3" for k
  proof -
    from that consider "k = 0" | "k = 1" | "k = 2" | "k = 3" by linarith
    then show ?thesis
      by cases (simp_all add: answersRows_def pagingRunner_def pagingMapper_def orderedSQL_def pageSpec_def itoa
          upt_rec [of _ "Suc _"] upt_rec [of _ "numeral _"])
  qed
  have conn: "connR (dbConn (repoDB pagingRepository)) = pagingRunner"
    "obsLogger (connObs (dbConn (repoDB pagingRepository)))" "keepsSuccess (dbConn (repoDB pagingRepository))"
    by (simp_all add: pagingRepository_def keepsSuccess_def newObservability_def)
  have count: "answersValue pagingRunner pagingMapper (countSQL pageSpec) (specArgs pageSpec) (int (length [10, 20, 30 :: int]))"
    by (simp add: answersValue_def pagingRunner_def pagingMapper_def)
  have two: "Suc (length [10, 20, 30 :: int] div nat 2) = 2" by simp
  have "\<exists>w'. walkPages (Suc (length [10, 20, 30 :: int] div nat 2))
      (\<lambda>page. Paginate pagingMapper pagingMapper pagingRepository pageSpec page 2) 1 (sampleWorld [] ())
     = (Ret (Some [10, 20, 30]), w')"
    by (rule pages_visit_all [OF conn(2,3) sql]) (use count rows in \<open>simp_all add: conn(1)\<close>)
  then show ?thesis by (simp only: two)
qed

end
