(* ===== verification/Metrics_Progress.thy ===== *)
theory Metrics_Progress
  imports Metrics_Concurrency
begin

text \<open>
  Goroutines that enable and close metrics do not wait for each other: each of them ends after a
  bounded number of its own steps, however the others are scheduled.
\<close>

section \<open>Steps to the end\<close>

fun closeLeft :: "closing \<Rightarrow> nat" where
  "closeLeft (CRemove a) = 11"
| "closeLeft (CUnobserve a) = 10"
| "closeLeft (CUnregister cs) = Suc (length cs)"
| "closeLeft CClosed = 0"

fun usageLeft :: "usage \<Rightarrow> nat" where
  "usageLeft (Enabling ECheck) = 24"
| "usageLeft (Enabling (ERegister a registered rest)) = 15 + length rest"
| "usageLeft (Enabling (EUndo e cs)) = Suc (length cs)"
| "usageLeft (Enabling (EAdd a)) = 14"
| "usageLeft (Enabling (EObserve a)) = 13"
| "usageLeft (Enabling (ESample a)) = 12"
| "usageLeft (Enabling (EEnabled a)) = 11"
| "usageLeft (Enabling (ERefused e)) = 0"
| "usageLeft (Enabling (ECrashed p)) = 0"
| "usageLeft (Closing c) = closeLeft c"

text \<open>A call never has more than the eight collectors in hand, and has not crashed.\<close>

fun inHand :: "usage \<Rightarrow> bool" where
  "inHand (Enabling (ERegister a registered rest)) \<longleftrightarrow> length registered + length rest \<le> 8"
| "inHand (Enabling (ECrashed p)) \<longleftrightarrow> False"
| "inHand _ \<longleftrightarrow> True"

lemma collect_length: "length (mcCollect a) = 8"
  by (simp add: mcCollect_def)

lemma closePc_left: "closePc h r c w = (c', w') \<Longrightarrow> closeLeft c' \<le> closeLeft c - 1"
  by (auto simp: closePc_def collect_length split: closing.splits list.splits)

lemma enablePc_left:
  assumes "enablePc d rn r pc w = (pc', w')" and "connHooks (dbConn d) = Some h" and "inHand (Enabling pc)"
    and "\<not> (\<exists>a. pc = EEnabled a)"
  shows "inHand (Enabling pc') \<and> usageLeft (Enabling pc') \<le> usageLeft (Enabling pc) - 1"
  using assms
  by (cases pc)
    (auto simp: enablePc_def collect_length split: if_splits list.splits option.splits prod.splits)

lemma usageStep_left:
  assumes "usageStep d rn r u w = (u', w')" and "connHooks (dbConn d) = Some h" and "inHand u"
  shows "inHand u' \<and> usageLeft u' \<le> usageLeft u - 1"
proof (cases u)
  case (Closing c)
  with assms obtain c' where "closePc h r c w = (c', w')" "u' = Closing c'" by (auto split: prod.splits)
  with Closing closePc_left show ?thesis by fastforce
next
  case (Enabling pc)
  show ?thesis
  proof (cases "\<exists>a. pc = EEnabled a")
    case True
    with assms Enabling show ?thesis by (auto simp: closePc_def)
  next
    case False
    with assms(1) Enabling obtain pc' where "enablePc d rn r pc w = (pc', w')" "u' = Enabling pc'"
      by (cases pc) (auto split: prod.splits)
    with enablePc_left [OF _ assms(2) _ False] assms(3) Enabling show ?thesis by simp
  qed
qed

interpretation users: independent_threads "usageStep d rn r" "\<lambda>_. connHooks (dbConn d) \<noteq> None"
  inHand usageLeft "\<lambda>_. ()"
  for d rn r
  by unfold_locales (use usageStep_left in fastforce)

lemma left_finished: "inHand u \<Longrightarrow> usageLeft u = 0 \<Longrightarrow> finished u"
  by (cases u rule: usageLeft.cases) (auto simp: finished_def elim: closeLeft.elims)

text \<open>C22: enabling and closing metrics is free of waiting, and leaves the DB as it was. Each of any number of
  goroutines that call \<open>EnableMetrics\<close> on one DB and close the handle they may get has ended, refused or
  closed, after 24 of its own steps, whatever the others do; and once every goroutine has made its steps,
  hooks, observed collector and registerer are as before the first call.\<close>
theorem metrics_users_finish:
  assumes "lawful_registerer r reged" and "connHooks (dbConn d) = Some h"
    and "observed (Some h) w = None" and "\<And>a. MetricsHook a \<in> set (snapshot (Some h) w) \<Longrightarrow> a < fresh w"
    and "interleave (usageStep d rn r) sched (replicate n (Enabling ECheck), w) = (ts, w')"
  shows "(\<forall>i < n. 24 \<le> count_list sched i \<longrightarrow> finished (ts ! i))
    \<and> ((\<forall>i < n. 24 \<le> count_list sched i) \<longrightarrow>
         snapshot (Some h) w' = snapshot (Some h) w \<and> observed (Some h) w' = None
         \<and> reged (env w') = reged (env w))"
proof -
  from usersInv_run [OF assms]
  have inv: "usersInv h reged (reged (env w)) (snapshot (Some h) w) (fresh w) ts w'" and len: "length ts = n"
    by simp_all
  have start: "connHooks (dbConn d) \<noteq> None" "list_all inHand (replicate n (Enabling ECheck))"
    using assms(2) by (simp_all add: list_all_length)
  have ended: "finished (ts ! i)" if "i < n" "24 \<le> count_list sched i" for i
  proof (rule left_finished)
    show "inHand (ts ! i)"
      using users.threads_in_order [OF assms(5) start] len that(1) by (simp add: list_all_length)
    show "usageLeft (ts ! i) = 0"
      using users.threads_progress [OF assms(5) start, of i] that by simp
  qed
  moreover have "list_all finished ts" if "\<forall>i < n. 24 \<le> count_list sched i"
    using that ended len by (simp add: list_all_length)
  ultimately show ?thesis using usersInv_finished [OF inv] by blast
qed

text \<open>Two goroutines that take turns.\<close>

definition inTurns :: "nat list" where
  "inTurns = concat (replicate 24 [0, 1])"

theorem metrics_users_finish_witness:
  "let (ts, w') = interleave (usageStep listDB 7 listRegisterer) inTurns
         (replicate 2 (Enabling ECheck), sampleWorld [] [])
   in finished (ts ! 1) \<and> snapshot (Some 0) w' = [] \<and> drv (env w') = []"
proof -
  let ?w = "sampleWorld [] [] :: (nat \<times> string) list world"
  obtain ts w' where run: "interleave (usageStep listDB 7 listRegisterer) inTurns (replicate 2 (Enabling ECheck), ?w) = (ts, w')"
    by fastforce
  have "count_list inTurns 0 = 24" "count_list inTurns 1 = 24" by code_simp+
  then have "24 \<le> count_list inTurns i" if "i < 2" for i
    using that by (auto simp: less_2_cases_iff)
  moreover have "connHooks (dbConn listDB) = Some 0" by (simp add: idleDB_def)
  moreover have "snapshot (Some 0) ?w = []" "observed (Some 0) ?w = None" "drv (env ?w) = []"
    by (simp_all add: snapshot_def hr_snapshot_def observed_def hr_observed_def sampleWorld_def sampleEnv_def)
  ultimately show ?thesis
    using metrics_users_finish [OF listRegisterer_lawful _ _ _ run, of 0] by (simp add: run)
qed

end
