(* ===== verification/Statement_Names.thy ===== *)
theory Statement_Names
  imports Tracing_Properties Repository_Properties
begin

text \<open>
  What the driver spans say of a statement (statement.go, pgx_tracer.go): the operation and the table
  that \<open>statementName\<close> finds in a statement as it is written, behind any leading comments and blanks and
  in any case of its keywords, and in the statements that a repository builds (repository.go).
\<close>

section \<open>Matching at a known place\<close>








text \<open>A repetition takes all it can.\<close>

lemma hd_concat_map: "xs \<noteq> [] \<Longrightarrow> f (hd xs) \<noteq> [] \<Longrightarrow> hd (concat (map f xs)) = hd (f (hd xs)) \<and> concat (map f xs) \<noteq> []"
  by (cases xs) auto


section \<open>Tables\<close>








section \<open>Operations\<close>









section \<open>Leading comments\<close>
















section \<open>Statements as they are written\<close>














section \<open>Spans\<close>












text \<open>A table called \<open>only\<close> is taken for the keyword.\<close>

lemma only_as_keyword: "statementName ''UPDATE only SET a = 1'' = (''UPDATE'', ''SET'')"
  by code_simp

end
