(* ===== verification/Spec2Isabelle.thy ===== *)
theory Spec2Isabelle
  imports Retry_Properties Transaction_Properties Config_Properties Connection_Properties
    Metrics_Properties Metrics_Concurrency Repository_Properties Reflection_Cache Routing_Properties Streams_Properties
    Listen_Properties Listen_Timing Tracing_Properties Cluster_Rotation Context_Operations Operation_Timing
    Pagination Metrics_Progress Statement_Names
begin

text \<open>
  A verification of the hellnet database library, a Go layer over pgx for PostgreSQL: package
  \<open>database\<close> under src/database and the reader of environment variables under src/internal/env.

  \<^bold>\<open>The program.\<close> A \<open>DB\<close> is a pool with options, hooks and a retry policy (database.go, core.go,
  resilience.go, hooks.go). Statements run through four runners (query, query row, scalar, exec), each
  with a deadline, with hooks before and after, and under the retry policy. Transactions
  (transaction.go) run a callback between begin and commit and compensate with rollbacks. A \<open>Conn\<close>
  (connection.go) is one pinned connection; on it rest bulk loading (bulk.go) and listeners
  (listen.go). Repositories (repository.go) build SQL from struct types. Around these are the metrics
  collector (metrics.go, pool_metrics.go), clusters with read replicas (replica.go), views with another
  timeout (view.go), batches (batch.go), streams (iterate.go), statement names and driver spans
  (statement.go, pgx_tracer.go), and a database/sql surface (sqlx.go).

  \<^bold>\<open>How it is modelled.\<close> Go code is a state transformer that returns or panics (\<open>act\<close> of Prelude) over
  the \<open>world\<close> of theory World: the environment outside (clock, contexts, state of driver and server),
  the registries and collectors behind pointers, and the trace of what others can observe: statements,
  control of transactions and connections, hook calls, log lines, counters. An error is a value of
  \<open>gerr\<close> (Go_Errors), a nil error is \<open>None\<close>, and \<open>defer\<close> and \<open>recover\<close> are the combinators \<open>deferring\<close>
  and \<open>recovering\<close>. Go's 64-bit integers are \<open>int\<close>s wrapped by \<open>wrap64\<close> where they can overflow; the
  rotation counter of a cluster is a \<open>32 word\<close>. A context is a value of \<open>ctx\<close>, and \<open>done_at\<close> tells when
  it is done.

  \<^bold>\<open>Theories and sources.\<close>
    \<^item> Prelude, Go_Strings, Go_Std, Go_Regexp, Go_Errors: what the code uses of the language and its
      standard library (strings, strconv, net, net/url, time, fmt, regexp, errors). Durations proves that
      printed durations are read back.
    \<^item> World, Hooks, Metrics, Resilience, Core: hooks.go, metrics.go (the collector), resilience.go,
      core.go, observability.go. Statements states the laws of one statement in the locale
      \<open>statement_op\<close>, interprets it for the four runners and proves what retries make of it;
      Emissions bounds the events an action can add, for the events of a statement in the locale
      \<open>statement_events\<close>. Retry_Properties holds the properties;
      Context_Operations those of the operations that take a context (span, measurement, contexts of
      the attempts) and that hidden arguments reach no hook. Timing composes time bounds, as durations and as deadlines, and Operation_Timing
      bounds the operations of a \<open>DB\<close> by its options.
    \<^item> Transaction, Transaction_Properties: transaction.go.
    \<^item> Config, Config_Properties: env.go and the options of database.go.
    \<^item> Construction, Connection, Connection_Properties: the constructors and lifecycle of database.go,
      pool_metrics.go and connection.go.
    \<^item> Metrics_Lifecycle, Metrics_Properties: registration, \<open>EnableMetrics\<close> and the sampler of metrics.go.
      Metrics_Concurrency cuts \<open>EnableMetrics\<close> and \<open>Close\<close> into their accesses to shared state and
      runs any number of such calls interleaved; Metrics_Progress shows that they end. The registerer is
      a parameter with the documented behaviour of Prometheus (\<open>lawful_registerer\<close>): one collector per
      descriptor, refused registrations change nothing, and \<open>Unregister\<close> goes by the descriptor.
    \<^item> Repository, Repository_Properties: repository.go and results.go. The locale \<open>text_guard\<close> is the
      interface between the validators of identifiers, orderings and channels and the code that
      splices a validated text into SQL. Pagination walks the pages of a result with \<open>Paginate\<close> and
      \<open>HasNextPage\<close>. Reflection_Cache holds the two caches of reflection results,
      used from interleaved goroutines; the locale \<open>memo\<close> is what a cache owes its clients.
    \<^item> Interleaving: schedules over threads that share state, for the two theories above. Simulation:
      the locale \<open>functional_refinement\<close> of components that implement an abstract specification.
    \<^item> Routing, Routing_Properties: replica.go and view.go. Cluster_Rotation refines the cluster to the
      rotating queue its documentation describes.
    \<^item> Streams, Streams_Properties: batch.go, bulk.go and iterate.go.
    \<^item> Listen, Listen_Properties: listen.go. One turn of \<open>listenTurn\<close> is the code of the fetch goroutine
      between two blocking points; \<open>listenStep\<close> interleaves turns with the closing of the stop channel
      and with arbitrary changes of the environment, among them which ready case a select takes.
      Listen_Timing bounds the time that \<open>stop\<close> takes.
    \<^item> Tracing, Sqlx, Tracing_Properties: statement.go, pgx_tracer.go and sqlx.go. Statement_Names computes the
      operation and table of statements as they are written and as repositories build them.
    \<^item> Fixtures and the fixtures in the property theories: concrete drivers and worlds on which the
      witnesses apply the theorems.

  \<^bold>\<open>What is shown.\<close> Statements: attempts are bounded, bracketed by hook calls and end with the right
  error; permanent errors are not retried; hooks can neither disturb a statement nor see hidden
  arguments. Transactions: atomicity against an abstract specification that leaves a failed commit open, one outcome counted per
  transaction, rollbacks only on live contexts. Options: round trips through the environment, the
  endpoint and the connection URL. Connections are released once; metrics registration is all or
  nothing. Builders: placeholders and arguments line up, spliced names bring in no delimiter, and
  a walk over the pages of a result ends and visits every row once. Listeners: the balance of borrowed and returned connections and the bounds of
  the backoff under every interleaving, and that a stopped listener ends and \<open>stop\<close> returns as soon as a select
  of the goroutine takes the stop channel, within a time that grows with the selects that the timer wins
  when the driver keeps to its contexts. Concurrent
  calls: the reflection caches change no result, and metrics enabled and closed from many goroutines
  with one registerer are enabled at most once at a time, end without waiting for each other and leave
  nothing behind. Streams of finitely many rows
  are consumed in order. The last part of this theory composes components: every attempt of a statement
  is counted while metrics are enabled and none after, and a repository sends what its builders
  built or nothing. A cluster is its primary and a rotating queue of handles: in any sequence of operations
  writes reach the primary and reads the replicas in the order of the queue, each with all its retries at
  one handle, while the counter does not wrap or wraps in step.
  Operations with a context leave one span and one measurement with the right label. A \<open>DB\<close> opened by
  \<open>New\<close> answers within the time that follows from its options when the driver keeps to its contexts. The
  span of a statement names its operation and its table, and hidden statements stay hidden. Failed construction leaks no pool.
  Some theorems show defects of the code: a slow statement through a view panics, a stream's first-row
  flag flips with every row, a retry switched off in the environment comes back on, an ordering with a
  LIMIT is doubled by \<open>FindOne\<close>, a next page is promised where there is no page size, and
  two goroutines with different registerers can both enable metrics on one DB; a stopped listener whose
  selects the timer keeps winning goes on re-listening, so that \<open>stop\<close> has no bound of its own; where \<open>int\<close> has 32 bits, the
  upper half of the rotation counter indexes the replicas with negative numbers.

  \<^bold>\<open>Bounds and partiality.\<close> The retry loop, the readers of text and the matcher of regular expressions
  terminate by measures, without fuel. The streaming loop is a partial function with value \<open>None\<close> when
  it does not return, and it is proved to return on every finite stream. The join of \<open>stop\<close> gets
  what the coming selects of the goroutine choose, and fuel for three turns around each of them; it is proved that
  this fuel is enough, so that the join fails to return only where every one of the selects was lost to the
  timer. The client that walks over pages has fuel for one
  page more than the rows fill, which is proved to be enough too. The backoff of a listener is
  proved for caps below \<open>2 ^ 62\<close> nanoseconds (146 years), beyond which doubling overflows.

  \<^bold>\<open>Not modelled.\<close> PostgreSQL and pgx (connection, protocol, row mapping, pools), sqlx, godotenv, the
  Prometheus and OpenTelemetry libraries: they are parameters, with what is relied on written as
  hypotheses. What reflection reports about a type is an input, and the operations use the uncached
  mapping, which Reflection_Cache proves equal. The buckets of the duration histogram are not kept: a
  collector records the durations themselves. Mutexes make the operations they guard single steps, and
  the handlers of a listener, which run on goroutines of their own, are recorded by the payloads they
  were started with. Attributes of log lines, and compile-time assertions of interfaces, have no model.
\<close>

section \<open>Metrics over retried statements\<close>

lemma tally_once:
  assumes "tally op1 xs errs ms ms'" and "count_list xs (MetricsHook a) = 1"
    and "queriesTotal (ms a) = (\<lambda>_. 0)" and "queryDuration (ms a) = []"
  shows "queriesTotal (ms' a) (op1, s) = length (filter (\<lambda>e. statusLabel e = s) errs)"
    and "length (queryDuration (ms' a)) = length errs"
proof -
  show "queriesTotal (ms' a) (op1, s) = length (filter (\<lambda>e. statusLabel e = s) errs)"
    using assms by (simp add: tally_def)
  have "map fst (queryDuration (ms' a)) = replicate (length errs) op1"
    using assms by (simp add: tally_def)
  then show "length (queryDuration (ms' a)) = length errs"
    by (metis length_map length_replicate)
qed

lemma tally_absent:
  assumes "tally op1 xs errs ms ms'" and "MetricsHook a \<notin> set xs"
  shows "queriesTotal (ms' a) = queriesTotal (ms a)"
proof -
  have "count_list xs (MetricsHook a) = 0" using assms(2) by simp
  then show ?thesis using assms(1) by (auto simp: tally_def)
qed

text \<open>C2: hooks, metrics, retries and statements together. After \<open>EnableMetrics\<close> has returned a handle,
  every attempt of \<open>Execute\<close>, retries included, is counted once in the handle's collector under the
  status of that attempt's own error, and timed once; a user hook that panics takes nothing from
  it. Once the handle is closed, the same operation is carried out as before and counted no
  more.\<close>
theorem metrics_count_every_attempt:
  assumes "lawful_registerer r reged" and "connHooks (dbConn d) = Some h"
    and "MetricsHook (fresh w) \<notin> set (snapshot (Some h) w)"
    and "EnableMetrics d rn r w = (Ret (Inr hd1), w1)"
    and "obsLogger (connObs (dbConn d))" and "connOps (dbConn d) = None" and "rpEnabled (dbRetry d)"
  shows "\<exists>n e w2 errs t n' e' hd2 w3 w4. dbExecute d sql args w1 = (Ret (n, e), w2)
     \<and> visible (trace w2) = visible (trace w1) @ t
     \<and> attemptsTrace (dbConn d) (base (dbConn d)) OpExec ''Exec'' sql args
         (snapshot (Some h) w @ [MetricsHook (hMc hd1)]) errs t
     \<and> loopEnd (dbRetry d) 0 errs e
     \<and> (\<forall>s. queriesTotal (mcs w2 (hMc hd1)) (OpExec, s) = length (filter (\<lambda>x. statusLabel x = s) errs))
     \<and> length (queryDuration (mcs w2 (hMc hd1))) = length errs
     \<and> handleClose hd1 w2 = (Ret hd2, w3)
     \<and> dbExecute d sql args w3 = (Ret (n', e'), w4)
     \<and> queriesTotal (mcs w4 (hMc hd1)) = queriesTotal (mcs w2 (hMc hd1))"
proof -
  let ?a = "fresh w"
  note ok = EnableMetrics_ok [OF assms(1,2,4)]
  have snap1: "snapshot (Some h) w1 = snapshot (Some h) w @ [MetricsHook ?a]"
    using ok by (simp add: snapshot_def hr.attach_snap)
  have once: "count_list (snapshot (Some h) w1) (MetricsHook ?a) = 1"
    using snap1 assms(3) by simp
  obtain n e w2 errs t where x: "dbExecute d sql args w1 = (Ret (n, e), w2)" "regs w2 = regs w1"
    "visible (trace w2) = visible (trace w1) @ t"
    "attemptsTrace (dbConn d) (base (dbConn d)) OpExec ''Exec'' sql args (snapshot (Some h) w1) errs t"
    "loopEnd (dbRetry d) 0 errs e" "tally OpExec (snapshot (Some h) w1) errs (mcs w1) (mcs w2)"
    using execute_tally [OF assms(5,6,7)] assms(2) by metis
  obtain w3 where c: "handleClose hd1 w2 = (Ret (hd1\<lparr>hDone := True\<rparr>), w3)"
    "regs w3 = (regs w2)(h := hr_setObserved None (hr_remove ?a (regs w2 h)))" "mcs w3 = mcs w2"
    using unregister_all [OF assms(1), of "mcCollect ?a"
        "w2\<lparr>regs := (regs w2)(h := hr_setObserved None (hr_remove ?a (regs w2 h)))\<rparr>"] ok
    by (auto simp: handleClose_def mcUnregister_def act_simps)
  have "snapshot (Some h) w3 = snapshot (Some h) w"
    using c(2) x(2) ok assms(3) hr.detach_attach_snap [of ?a "regs w h"] by (simp add: snapshot_def)
  moreover obtain n' e' w4 errs' where "dbExecute d sql args w3 = (Ret (n', e'), w4)"
    "tally OpExec (snapshot (Some h) w3) errs' (mcs w3) (mcs w4)"
    using execute_tally [OF assms(5,6,7)] assms(2) by metis
  ultimately show ?thesis
    using x c ok snap1 tally_once [OF x(6) once] tally_absent [of OpExec "snapshot (Some h) w" errs' "mcs w3" "mcs w4" ?a] assms(3)
    by metis
qed

definition retryingDB :: "(nat \<times> string) list db" where
  "retryingDB = listDB\<lparr>dbRetry := NewRetryPolicy True 3 1\<rparr>"

lemma retryingDB_simps [simp]:
  "dbConn retryingDB = dbConn listDB" "dbRetry retryingDB = NewRetryPolicy True 3 1"
  "dbPool retryingDB = dbPool listDB"
  by (simp_all add: retryingDB_def)

lemma retryingDB_enables: "EnableMetrics retryingDB rn r = EnableMetrics listDB rn r"
  unfolding EnableMetrics_def retryingDB_simps ..

theorem metrics_count_every_attempt_witness:
  "\<exists>hd1 w1 n e w2 errs. EnableMetrics retryingDB 7 listRegisterer (sampleWorld [] []) = (Ret (Inr hd1), w1)
     \<and> dbExecute retryingDB ''DELETE'' [] w1 = (Ret (n, e), w2)
     \<and> loopEnd (NewRetryPolicy True 3 1) 0 errs e
     \<and> queriesTotal (mcs w2 (hMc hd1)) (OpExec, ''ok'') = length (filter (\<lambda>x. statusLabel x = ''ok'') errs)"
proof -
  obtain hd1 w1 where e: "EnableMetrics retryingDB 7 listRegisterer (sampleWorld [] []) = (Ret (Inr hd1), w1)"
    using listDB_enables retryingDB_enables by metis
  have "connHooks (dbConn retryingDB) = Some 0" "obsLogger (connObs (dbConn retryingDB))"
    "connOps (dbConn retryingDB) = None" "rpEnabled (dbRetry retryingDB)"
    by (simp_all add: idleDB_def newObservability_def NewRetryPolicy_def)
  moreover have "snapshot (Some 0) (sampleWorld [] ([] :: (nat \<times> string) list)) = []"
    by (simp add: snapshot_def hr_snapshot_def sampleWorld_def)
  ultimately show ?thesis
    using metrics_count_every_attempt [OF listRegisterer_lawful _ _ e, of 0 "''DELETE''" "[]"] e
    by fastforce
qed

section \<open>What a repository sends\<close>

text \<open>An operation that sends what its builder \<open>built\<close>: an error of the builder is returned and nothing
  happens; otherwise the statement it built, and nothing else, goes to \<open>d\<close>.\<close>

definition sendsBuilt ::
  "'d db \<Rightarrow> gerr + string \<times> gval list \<Rightarrow> ('d world, 'a \<times> gerr option) act \<Rightarrow> bool" where
  "sendsBuilt d built op1 \<longleftrightarrow>
     (\<forall>w. case built of
        Inl e \<Rightarrow> (\<exists>v. op1 w = (Ret (v, Some e), w))
      | Inr (sql, args) \<Rightarrow> servedBy d sql args w (snd (op1 w)))"

definition withArgs :: "gval list \<Rightarrow> gerr + string \<Rightarrow> gerr + string \<times> gval list" where
  "withArgs args built = (case built of Inl e \<Rightarrow> Inl e | Inr sql \<Rightarrow> Inr (sql, args))"

lemmas sends_defs = sendsBuilt_def withArgs_def

text \<open>\<open>Paginate\<close> sends the count first. When the count fails, its error is returned and nothing more is sent;
  when the page cannot be built, the error of the builder; otherwise the page is sent, with the same arguments, and
  what it returns are the rows of the page with the total that was counted, or the error of the query.\<close>

definition sendsPage ::
  "('d, int) mapper \<Rightarrow> ('d, 't) mapper \<Rightarrow> 'd repository \<Rightarrow> spec \<Rightarrow> int \<Rightarrow> int \<Rightarrow> 'd world \<Rightarrow> bool" where
  "sendsPage mi m r sp page per w \<longleftrightarrow>
     (\<exists>total cerr w1. dbScalar mi (repoDB r) (countSQL sp) (specArgs sp) w = (Ret (total, cerr), w1)
        \<and> servedBy (repoDB r) (countSQL sp) (specArgs sp) w w1
        \<and> (case cerr of
             Some e \<Rightarrow> Paginate mi m r sp page per w = (Ret (emptyPage, Some e), w1)
           | None \<Rightarrow>
               (case pageSQL sp page per of
                  Inl e \<Rightarrow> Paginate mi m r sp page per w = (Ret (emptyPage, Some e), w1)
                | Inr sql \<Rightarrow>
                    \<exists>items err w2. dbQuery m (repoDB r) sql (specArgs sp) w1 = (Ret (items, err), w2)
                      \<and> servedBy (repoDB r) sql (specArgs sp) w1 w2
                      \<and> Paginate mi m r sp page per w =
                          (Ret (if err = None
                                then \<lparr>Items = items, TotalCount = total, Page = page, PageSize = per\<rparr>
                                else emptyPage, err), w2))))"

lemma Paginate_sends:
  assumes log: "obsLogger (connObs (dbConn (repoDB r)))"
  shows "sendsPage mi m r sp page per w"
proof -
  obtain total cerr w1 where c: "dbScalar mi (repoDB r) (countSQL sp) (specArgs sp) w = (Ret (total, cerr), w1)"
    using db_returns(4) [OF log] by (metis prod.collapse)
  have s: "servedBy (repoDB r) (countSQL sp) (specArgs sp) w w1"
    using db_served(4) [OF log, of "countSQL sp" "specArgs sp" w mi] by (simp add: c)
  have q: "\<exists>items err w2. dbQuery m (repoDB r) sql (specArgs sp) w1 = (Ret (items, err), w2)
      \<and> servedBy (repoDB r) sql (specArgs sp) w1 w2" for sql
    using db_returns(2) [OF log, of m sql "specArgs sp" w1] db_served(2) [OF log, of sql "specArgs sp" w1 m]
    by (metis prod.collapse snd_conv)
  note run = Paginate_def andThen_app ret_app c
  show ?thesis
  proof (cases cerr)
    case (Some e)
    with c s show ?thesis by (simp add: sendsPage_def run)
  next
    case None
    show ?thesis
    proof (cases "pageSQL sp page per")
      case (Inl e)
      with c s None show ?thesis by (simp add: sendsPage_def run)
    next
      case (Inr sql)
      obtain items err w2 where q2: "dbQuery m (repoDB r) sql (specArgs sp) w1 = (Ret (items, err), w2)"
        "servedBy (repoDB r) sql (specArgs sp) w1 w2"
        using q by blast
      with c s None Inr show ?thesis by (cases err) (simp_all add: sendsPage_def run)
    qed
  qed
qed

lemma EnsureTable_sends:
  assumes "obsLogger (connObs (dbConn d))"
  shows "if validateIdentifier name = None \<and> HasPrefix (ToUpper (TrimSpace ddl)) ''CREATE TABLE''
            \<and> Contains (ToUpper (TrimSpace ddl)) ''IF NOT EXISTS''
         then servedBy d (TrimSpace ddl) [] w (snd (EnsureTable (Some d) name ddl w))
         else \<exists>e. EnsureTable (Some d) name ddl w = (Ret (Some e), w)"
proof -
  have "snd (andThen (dbExecute d sql []) (\<lambda>(n, err). ret err) w) = snd (dbExecute d sql [] w)" for sql
    by (auto simp: act_simps split: prod.split outcome.split)
  then show ?thesis
    using db_served(1) [OF assms, of "TrimSpace ddl" "[]" w]
    by (auto simp: EnsureTable_def Let_def ret_app split: option.split)
qed

text \<open>C23: a repository sends what its builders built. Each of its operations but two either returns the error
  of its SQL builder and does nothing at all, or sends the built statement with the built arguments
  to the pool of its \<open>DB\<close>, at least once and at most as often as the retry policy allows, and sends
  nothing else. \<open>Paginate\<close> sends the count first: when the count fails its error is returned and nothing more
  is sent, when the page then cannot be built the error of the builder is, and otherwise the page is
  sent. \<open>EnsureTable\<close> sends its trimmed DDL when that is an idempotent CREATE TABLE and otherwise does
  nothing.\<close>
theorem repository_sends_built:
  assumes "obsLogger (connObs (dbConn (repoDB r)))"
  shows "sendsBuilt (repoDB r) (withArgs [i] (selectAllSQL (Table r) (columnsOf t) True)) (GetByID t m r i)
    \<and> sendsBuilt (repoDB r) (withArgs [] (selectAllSQL (Table r) (columnsOf t) False)) (GetAll t m r)
    \<and> sendsBuilt (repoDB r) (withArgs (specArgs sp) (pageSQL sp 1 0)) (Find m r sp)
    \<and> sendsBuilt (repoDB r) (withArgs (specArgs sp) (findOneSQL sp)) (FindOne m r sp)
    \<and> sendsBuilt (repoDB r) (withArgs (specArgs sp) (existsSQL sp)) (Exists mb r sp)
    \<and> sendsBuilt (repoDB r) (Inr (countSQL sp, specArgs sp)) (Count mi r sp)
    \<and> sendsBuilt (repoDB r) (upsertStatement t (Table r) e cs us False) (Upsert t r e cs us)
    \<and> sendsBuilt (repoDB r) (upsertStatement t (Table r) e cs [] True) (UpsertDoNothing t r e cs)
    \<and> sendsBuilt (repoDB r) (updateStatement t (Table r) e us sp) (Update t r e us sp)
    \<and> sendsPage mi m r sp page per w
    \<and> (if validateIdentifier name = None \<and> HasPrefix (ToUpper (TrimSpace ddl)) ''CREATE TABLE''
            \<and> Contains (ToUpper (TrimSpace ddl)) ''IF NOT EXISTS''
         then servedBy (repoDB r) (TrimSpace ddl) [] w (snd (EnsureTable (Some (repoDB r)) name ddl w))
         else \<exists>e. EnsureTable (Some (repoDB r)) name ddl w = (Ret (Some e), w))"
  by (intro conjI Paginate_sends [OF assms] EnsureTable_sends [OF assms])
    (auto simp: sends_defs Table_def GetByID_def GetAll_def Find_def FindOne_def Exists_def Count_def Upsert_def
      UpsertDoNothing_def Update_def ret_app intro: db_served [OF assms] split: sum.splits)

theorem repository_sends_built_witness:
  "sendsBuilt sampleDB (withArgs [GInt 1] (selectAllSQL ''orders'' (columnsOf sampleType) True))
     (GetByID sampleType sampleMapper (NewRepositoryForTable sampleDB ''orders'') (GInt 1))"
  using conjunct1 [OF repository_sends_built [where r = "NewRepositoryForTable sampleDB ''orders''"
        and i = "GInt 1" and t = sampleType and m = sampleMapper]]
  by (simp add: NewRepositoryForTable_def Table_def)

end
